(* ===== verification/Prelude.thy ===== *)
theory Prelude
  imports Complex_Main "HOL-Library.Word"
begin

text \<open>
  Shared vocabulary of the development: the names of the machine types, the two kinds of
  associative container the daemon uses, decimal printing and scanning of numbers, and the
  collections the component theories add their facts to.

  Conventions.  A \<open>double\<close> is modelled as a real number: rounding, infinities and NaN are not
  modelled (the program's inputs to its comparisons are JSON numbers, which are finite, and
  ratios whose divisor it has tested).  A \<open>std::string\<close> and a \<open>std::wstring\<close> are both character
  lists; the conversions between UTF-8 and UTF-16 text are the identity on them.  The
  case-insensitive comparison \<open>CompareStringOrdinal(a, -1, b, -1, TRUE)\<close> is the operating
  system's and stays a parameter, named \<open>ceq\<close> throughout.
\<close>

named_theorems inv_intros \<open>introduction rules for the invariants of the components\<close>
named_theorems op_simps \<open>defining equations of the small operations, unfolded together\<close>

type_synonym dword = "32 word"
type_synonym u8 = "8 word"
type_synonym u64 = "64 word"
type_synonym wstring = string
type_synonym double = real
type_synonym name_eq = "wstring \<Rightarrow> wstring \<Rightarrow> bool"

subsection \<open>Lists\<close>

lemma set_filter_mono: "x \<in> set (filter P xs) \<Longrightarrow> x \<in> set xs"
  by simp

lemma takeWhile_snoc_rev:
  "takeWhile P (rev (xs @ [x])) = (if P x then x # takeWhile P (rev xs) else [])"
  by simp

lemma filter_conc_eq: "\<forall>x \<in> set ys. \<not> P x \<Longrightarrow> filter P (xs @ ys) = filter P xs"
  by (simp add: filter_False)

subsection \<open>Associative containers\<close>

text \<open>
  \<open>std::unordered_map\<close> and \<open>std::map\<close> are association lists with distinct keys.  The iteration
  order of an unordered map is whatever the list's order is (nothing below depends on it);
  a \<open>std::map\<close> is iterated in ascending key order, which \<open>omap_put\<close> keeps.
\<close>

definition amap_has :: "'k \<Rightarrow> ('k \<times> 'v) list \<Rightarrow> bool" where
  "amap_has k m = (map_of m k \<noteq> None)"

definition amap_erase :: "'k \<Rightarrow> ('k \<times> 'v) list \<Rightarrow> ('k \<times> 'v) list" where
  "amap_erase k m = filter (\<lambda>p. fst p \<noteq> k) m"

fun amap_put :: "'k \<Rightarrow> 'v \<Rightarrow> ('k \<times> 'v) list \<Rightarrow> ('k \<times> 'v) list" where
  "amap_put k v [] = [(k, v)]"
| "amap_put k v (p # m) = (if fst p = k then (k, v) # m else p # amap_put k v m)"

fun omap_put :: "'k::linorder \<Rightarrow> 'v \<Rightarrow> ('k \<times> 'v) list \<Rightarrow> ('k \<times> 'v) list" where
  "omap_put k v [] = [(k, v)]"
| "omap_put k v (p # m) =
     (if k < fst p then (k, v) # p # m
      else if k = fst p then (k, v) # m
      else p # omap_put k v m)"

definition akeys :: "('k \<times> 'v) list \<Rightarrow> bool" where
  "akeys m = distinct (map fst m)"

definition okeys :: "('k::linorder \<times> 'v) list \<Rightarrow> bool" where
  "okeys m = sorted_wrt (<) (map fst m)"

text \<open>The laws both containers obey; clients are written against these.\<close>

locale assoc_store =
  fixes put :: "'k \<Rightarrow> 'v \<Rightarrow> ('k \<times> 'v) list \<Rightarrow> ('k \<times> 'v) list"
    and erase :: "'k \<Rightarrow> ('k \<times> 'v) list \<Rightarrow> ('k \<times> 'v) list"
    and ok :: "('k \<times> 'v) list \<Rightarrow> bool"
  assumes empty_ok: "ok []"
    and put_ok: "ok m \<Longrightarrow> ok (put k v m)"
    and erase_ok: "ok m \<Longrightarrow> ok (erase k m)"
    and lookup_put: "ok m \<Longrightarrow> map_of (put k v m) = (map_of m)(k \<mapsto> v)"
    and lookup_erase: "ok m \<Longrightarrow> map_of (erase k m) = (map_of m)(k := None)"
    and ok_distinct: "ok m \<Longrightarrow> distinct (map fst m)"
begin

lemma member_iff: "ok m \<Longrightarrow> (k, v) \<in> set m \<longleftrightarrow> map_of m k = Some v"
  using ok_distinct map_of_eq_Some_iff by fastforce

lemma set_put:
  assumes "ok m"
  shows "set (put k v m) = insert (k, v) {p \<in> set m. fst p \<noteq> k}"
proof -
  have "p \<in> set (put k v m) \<longleftrightarrow> p \<in> insert (k, v) {p \<in> set m. fst p \<noteq> k}" for p
    using member_iff [OF assms, of "fst p" "snd p"] lookup_put [OF assms, of k v]
      member_iff [OF put_ok [OF assms], of "fst p" "snd p" k v]
    by (cases p) auto
  then show ?thesis by blast
qed

lemma set_erase:
  assumes "ok m"
  shows "set (erase k m) = {p \<in> set m. fst p \<noteq> k}"
proof -
  have "p \<in> set (erase k m) \<longleftrightarrow> p \<in> {p \<in> set m. fst p \<noteq> k}" for p
    using member_iff [OF assms, of "fst p" "snd p"] lookup_erase [OF assms, of k]
      member_iff [OF erase_ok [OF assms], of "fst p" "snd p" k]
    by (cases p) auto
  then show ?thesis by blast
qed

lemma all_values_put:
  "ok m \<Longrightarrow> (\<forall>p \<in> set m. Q p) \<Longrightarrow> Q (k, v) \<Longrightarrow> \<forall>p \<in> set (put k v m). Q p"
  by (simp add: set_put)

lemma all_values_erase: "ok m \<Longrightarrow> (\<forall>p \<in> set m. Q p) \<Longrightarrow> \<forall>p \<in> set (erase k m). Q p"
  by (simp add: set_erase)

end

lemma map_of_amap_put: "map_of (amap_put k v m) = (map_of m)(k \<mapsto> v)"
  by (induction m) auto

lemma keys_amap_put: "fst ` set (amap_put k v m) = insert k (fst ` set m)"
  by (induction m) auto

lemma akeys_amap_put: "akeys m \<Longrightarrow> akeys (amap_put k v m)"
  unfolding akeys_def
proof (induction m)
  case Nil
  then show ?case by simp
next
  case (Cons p m)
  have "fst ` set (amap_put k v m) = insert k (fst ` set m)"
    by (rule keys_amap_put)
  with Cons show ?case by auto
qed

lemma map_of_amap_erase: "map_of (amap_erase k m) = (map_of m)(k := None)"
  by (induction m) (auto simp: amap_erase_def)

lemma akeys_amap_erase: "akeys m \<Longrightarrow> akeys (amap_erase k m)"
  unfolding akeys_def amap_erase_def by (induction m) auto

interpretation amap: assoc_store amap_put amap_erase akeys
  by unfold_locales
    (simp_all add: akeys_amap_put akeys_amap_erase map_of_amap_put map_of_amap_erase,
      simp_all add: akeys_def)

lemma map_of_map_filter:
  assumes "distinct (map fst ms)"
  shows "map_of (map (\<lambda>(k, v). (k, f v)) (filter (\<lambda>p. \<not> P (snd p)) ms)) k =
    (case map_of ms k of None \<Rightarrow> None | Some v \<Rightarrow> if P v then None else Some (f v))"
  using assms
proof (induction ms)
  case Nil
  then show ?case by simp
next
  case (Cons p ms)
  obtain a b where p: "p = (a, b)" by fastforce
  with Cons.prems have "map_of ms a = None" by (simp add: map_of_eq_None_iff)
  with Cons show ?case by (cases "k = a") (simp_all add: p)
qed

lemma keys_omap_put: "fst ` set (omap_put k v m) = insert k (fst ` set m)"
  by (induction m) auto

lemma okeys_omap_put: "okeys m \<Longrightarrow> okeys (omap_put k v m)"
proof (induction m)
  case Nil
  then show ?case by (simp add: okeys_def)
next
  case (Cons p m)
  have k: "set (map fst (omap_put k v m)) = insert k (set (map fst m))"
    using keys_omap_put [of k v m] by simp
  from Cons.prems have sub: "okeys m" and lt: "\<forall>x \<in> set (map fst m). fst p < x"
    by (auto simp: okeys_def)
  show ?case
    using Cons.IH [OF sub] sub lt k by (auto simp: okeys_def dest: less_trans)
qed

lemma map_of_omap_put: "okeys m \<Longrightarrow> map_of (omap_put k v m) = (map_of m)(k \<mapsto> v)"
proof (induction m)
  case Nil
  then show ?case by simp
next
  case (Cons p m)
  then have lt: "\<forall>x \<in> fst ` set m. fst p < x" and "okeys m"
    by (auto simp: okeys_def)
  show ?case
  proof (cases "k < fst p")
    case True
    then have "map_of (p # m) k = None"
      using lt by (force simp: map_of_eq_None_iff)
    with True show ?thesis by auto
  next
    case False
    with Cons.IH [OF \<open>okeys m\<close>] show ?thesis by auto
  qed
qed

lemma okeys_amap_erase: "okeys m \<Longrightarrow> okeys (amap_erase k m)"
  unfolding okeys_def amap_erase_def by (induction m) auto

lemma okeys_distinct: "okeys m \<Longrightarrow> distinct (map fst m)"
  unfolding okeys_def by (induction m) auto

interpretation omap: assoc_store omap_put amap_erase okeys
  by unfold_locales
    (simp_all add: okeys_omap_put okeys_amap_erase map_of_omap_put map_of_amap_erase
      okeys_distinct, simp_all add: okeys_def)

subsection \<open>Decimal numbers\<close>

definition digit_char :: "nat \<Rightarrow> char" where
  "digit_char d = char_of (48 + d)"

definition char_digit :: "char \<Rightarrow> nat" where
  "char_digit c = of_char c - 48"

definition is_digit :: "char \<Rightarrow> bool" where
  "is_digit c = (48 \<le> (of_char c :: nat) \<and> (of_char c :: nat) \<le> 57)"

text \<open>\<open>std::to_string\<close> of an unsigned number.\<close>

fun to_string :: "nat \<Rightarrow> string" where
  "to_string n = (if n < 10 then [digit_char n] else to_string (n div 10) @ [digit_char (n mod 10)])"

declare to_string.simps [simp del]

text \<open>\<open>std::to_string\<close> of a signed number.\<close>

definition int_to_string :: "int \<Rightarrow> string" where
  "int_to_string i = (if i < 0 then CHR ''-'' # to_string (nat (- i)) else to_string (nat i))"

text \<open>The value of a run of decimal digits, as \<open>std::stoul\<close> accumulates it.\<close>

definition digits_value :: "string \<Rightarrow> nat" where
  "digits_value s = foldl (\<lambda>n c. 10 * n + char_digit c) 0 s"

lemma of_char_digit_char: "d < 10 \<Longrightarrow> (of_char (digit_char d) :: nat) = 48 + d"
  by (simp add: digit_char_def)

lemma char_digit_char [simp]: "d < 10 \<Longrightarrow> char_digit (digit_char d) = d"
  by (simp add: char_digit_def of_char_digit_char)

lemma is_digit_digit_char [simp]: "d < 10 \<Longrightarrow> is_digit (digit_char d)"
  by (simp add: is_digit_def of_char_digit_char)

lemma to_string_digits: "\<forall>c \<in> set (to_string n). is_digit c"
proof (induction n rule: to_string.induct)
  case (1 n)
  then show ?case by (subst to_string.simps) auto
qed

lemma to_string_nonempty: "to_string n \<noteq> []"
  by (subst to_string.simps) simp

lemma digits_value_to_string [simp]: "digits_value (to_string n) = n"
proof (induction n rule: to_string.induct)
  case (1 n)
  show ?case
  proof (cases "n < 10")
    case True
    then show ?thesis by (subst to_string.simps) (simp add: digits_value_def)
  next
    case False
    with 1 show ?thesis by (subst to_string.simps) (simp add: digits_value_def)
  qed
qed

lemma to_string_inject: "to_string m = to_string n \<longleftrightarrow> m = n"
  by (metis digits_value_to_string)

lemma digits_value_leading_zero: "digits_value (CHR ''0'' # s) = digits_value s"
  by (simp add: digits_value_def char_digit_def)

subsection \<open>Truncation of a double to an integer, and \<open>Round1\<close>\<close>

definition trunc :: "double \<Rightarrow> int" where
  "trunc x = (if 0 \<le> x then \<lfloor>x\<rfloor> else \<lceil>x\<rceil>)"

definition Round1 :: "double \<Rightarrow> double" where
  "Round1 x = of_int (trunc (x * 10 + (if 0 \<le> x then 1 / 2 else - 1 / 2))) / 10"

lemma Round1_close: "\<bar>Round1 x - x\<bar> \<le> 1 / 20"
proof (cases "0 \<le> x")
  case True
  then have "Round1 x = of_int \<lfloor>x * 10 + 1 / 2\<rfloor> / 10"
    by (simp add: Round1_def trunc_def)
  moreover have "of_int \<lfloor>x * 10 + 1 / 2\<rfloor> \<le> x * 10 + 1 / 2"
    and "x * 10 + 1 / 2 < of_int \<lfloor>x * 10 + 1 / 2\<rfloor> + 1"
    by linarith+
  ultimately show ?thesis by linarith
next
  case False
  then have "Round1 x = of_int \<lceil>x * 10 - 1 / 2\<rceil> / 10"
    by (simp add: Round1_def trunc_def)
  moreover have "x * 10 - 1 / 2 \<le> of_int \<lceil>x * 10 - 1 / 2\<rceil>"
    and "of_int \<lceil>x * 10 - 1 / 2\<rceil> < x * 10 - 1 / 2 + 1"
    by linarith+
  ultimately show ?thesis by linarith
qed

subsection \<open>Computations that may fail\<close>

text \<open>\<open>Inl\<close> carries what was thrown; \<open>bindE\<close> runs the rest only after a normal return.\<close>

fun bindE :: "'e + 'a \<Rightarrow> ('a \<Rightarrow> 'e + 'b) \<Rightarrow> 'e + 'b" where
  "bindE (Inl e) f = Inl e"
| "bindE (Inr x) f = f x"

definition failIf :: "bool \<Rightarrow> 'e \<Rightarrow> 'e + unit" where
  "failIf c e = (if c then Inl e else Inr ())"

lemma bindE_Inr: "bindE x f = Inr y \<longleftrightarrow> (\<exists>a. x = Inr a \<and> f a = Inr y)"
  by (cases x) auto

lemma bindE_Inl: "bindE x f = Inl e \<longleftrightarrow> x = Inl e \<or> (\<exists>a. x = Inr a \<and> f a = Inl e)"
  by (cases x) auto

lemma failIf_simps [simp]:
  "failIf c e = Inr u \<longleftrightarrow> \<not> c" "failIf c e = Inl e' \<longleftrightarrow> c \<and> e' = e"
  by (auto simp: failIf_def)

lemma bindE_cong [fundef_cong]:
  "x = x' \<Longrightarrow> (\<And>a. x' = Inr a \<Longrightarrow> f a = g a) \<Longrightarrow> bindE x f = bindE x' g"
  by (cases x') auto

end
