(* ===== verification/StateMachine.thy ===== *)
theory StateMachine
  imports Prelude
begin

text \<open>
  The actuator of one batch process: \<open>src/actuator/StateMachine.h/.cpp\<close> with the two modules it
  drives, \<open>PriorityControl.cpp\<close> and \<open>ThreadControl.cpp\<close>.

  The operating system is not part of the program, so its answers are the fields of an
  environment record \<open>os_env\<close> that every operation receives, one per call of the operation: a
  later operation may get other answers.  What the program asks the operating system to do is
  recorded as a list of effects in the order of the calls, and so is every call of the
  transition callback.  Sample counters are integers: a counter never exceeds the number of
  samples since the last transition (\<open>counters_bounded\<close>), so the 32-bit \<open>int\<close> of the code
  overflows only after that many polls.
\<close>

section \<open>Priority and thread control\<close>

datatype priority_level = LvIdle | LvBelowNormal | LvNormal
datatype priority_change_result = PcSuccess | PcAccessDenied | PcProcessNotFound | PcOtherError

text \<open>Win32 constants the program names.\<close>

definition "ERROR_ACCESS_DENIED = (5 :: dword)"
definition "ERROR_INVALID_PARAMETER = (87 :: dword)"
definition "IDLE_PRIORITY_CLASS = (0x40 :: dword)"
definition "BELOW_NORMAL_PRIORITY_CLASS = (0x4000 :: dword)"
definition "NORMAL_PRIORITY_CLASS = (0x20 :: dword)"

definition ToWin32PriorityClass :: "priority_level \<Rightarrow> dword" where
  "ToWin32PriorityClass level = (case level of
      LvIdle \<Rightarrow> IDLE_PRIORITY_CLASS
    | LvBelowNormal \<Rightarrow> BELOW_NORMAL_PRIORITY_CLASS
    | LvNormal \<Rightarrow> NORMAL_PRIORITY_CLASS)"

text \<open>
  The answers of the operating system during one operation: \<open>None\<close> is success, \<open>Some e\<close> the
  \<open>GetLastError\<close> of a failed call.  \<open>threadSnap\<close> is the Toolhelp thread snapshot as pairs of
  thread and owner, \<open>None\<close> when it cannot be taken.
\<close>

record os_env =
  openErr :: "dword \<Rightarrow> dword option"
  signalled :: "dword \<Rightarrow> bool"
  setClassErr :: "dword \<Rightarrow> dword \<Rightarrow> dword option"
  threadSnap :: "(dword \<times> dword) list option"
  openThreadErr :: "dword \<Rightarrow> dword option"
  suspendThread :: "dword \<Rightarrow> dword"
  resumeThread :: "dword \<Rightarrow> dword"

datatype os_call =
    OsSetPriority dword dword
  | OsSuspendThread dword
  | OsResumeThread dword

definition SetProcessPriority ::
  "os_env \<Rightarrow> dword \<Rightarrow> priority_level \<Rightarrow> priority_change_result \<times> os_call list" where
  "SetProcessPriority env pid level = (case openErr env pid of
      Some err \<Rightarrow>
        ((if err = ERROR_ACCESS_DENIED then PcAccessDenied
          else if err = ERROR_INVALID_PARAMETER then PcProcessNotFound
          else PcOtherError), [])
    | None \<Rightarrow>
        (let cls = ToWin32PriorityClass level in
         ((case setClassErr env pid cls of
             None \<Rightarrow> PcSuccess
           | Some lastError \<Rightarrow>
               if lastError = ERROR_ACCESS_DENIED then PcAccessDenied else PcOtherError),
          [OsSetPriority pid cls])))"

text \<open>The answers of \<open>OpenProcessToken\<close> and \<open>GetTokenInformation\<close>; \<open>None\<close> is a failure.\<close>

record token_answers =
  tkaOpened :: bool
  tkaElevation :: "dword option"

definition IsRunningElevated :: "token_answers \<Rightarrow> bool" where
  "IsRunningElevated t =
     (if \<not> tkaOpened t then False
      else (case tkaElevation t of None \<Rightarrow> False | Some e \<Rightarrow> e \<noteq> 0))"

record thread_op_result =
  threadsAttempted :: int
  threadsSucceeded :: int
  threadsFailed :: int

definition no_threads :: thread_op_result where
  "no_threads = \<lparr>threadsAttempted = 0, threadsSucceeded = 0, threadsFailed = 0\<rparr>"

definition AllSucceeded :: "thread_op_result \<Rightarrow> bool" where
  "AllSucceeded r = (threadsAttempted r > 0 \<and> threadsFailed r = 0)"

definition EnumerateThreadIds :: "os_env \<Rightarrow> dword \<Rightarrow> dword list" where
  "EnumerateThreadIds env pid = (case threadSnap env of
      None \<Rightarrow> []
    | Some entries \<Rightarrow> map fst (filter (\<lambda>e. snd e = pid) entries))"

text \<open>
  The loop body of \<open>SuspendAllThreads\<close> and \<open>ResumeAllThreads\<close>, which differ only in the call
  they make on the thread; \<open>count\<close> is what that call returns, \<open>-1\<close> on failure.
\<close>

definition thread_step :: "os_env \<Rightarrow> (dword \<Rightarrow> dword) \<Rightarrow> dword \<Rightarrow> thread_op_result \<Rightarrow> thread_op_result" where
  "thread_step env count tid r = (case openThreadErr env tid of
      Some err \<Rightarrow>
        (if err \<noteq> ERROR_INVALID_PARAMETER
         then r\<lparr>threadsAttempted := threadsAttempted r + 1, threadsFailed := threadsFailed r + 1\<rparr>
         else r)
    | None \<Rightarrow>
        (let r1 = r\<lparr>threadsAttempted := threadsAttempted r + 1\<rparr> in
         if count tid = -1
         then r1\<lparr>threadsFailed := threadsFailed r1 + 1\<rparr>
         else r1\<lparr>threadsSucceeded := threadsSucceeded r1 + 1\<rparr>))"

fun thread_loop :: "os_env \<Rightarrow> (dword \<Rightarrow> dword) \<Rightarrow> (dword \<Rightarrow> os_call) \<Rightarrow> dword list
    \<Rightarrow> thread_op_result \<Rightarrow> thread_op_result \<times> os_call list" where
  "thread_loop env count call [] r = (r, [])"
| "thread_loop env count call (tid # tids) r =
     (let (res, calls) = thread_loop env count call tids (thread_step env count tid r)
      in (res, (if openThreadErr env tid = None then call tid # calls else calls)))"

definition SuspendAllThreads :: "os_env \<Rightarrow> dword \<Rightarrow> thread_op_result \<times> os_call list" where
  "SuspendAllThreads env pid =
     thread_loop env (suspendThread env) OsSuspendThread (EnumerateThreadIds env pid) no_threads"

definition ResumeAllThreads :: "os_env \<Rightarrow> dword \<Rightarrow> thread_op_result \<times> os_call list" where
  "ResumeAllThreads env pid =
     thread_loop env (resumeThread env) OsResumeThread (EnumerateThreadIds env pid) no_threads"

lemma thread_loop_result: "fst (thread_loop env count call tids r) = fold (thread_step env count) tids r"
  by (induction tids arbitrary: r) (simp_all split: prod.splits, metis fst_conv)

lemma thread_loop_calls:
  "snd (thread_loop env count call tids r) =
   map call (filter (\<lambda>t. openThreadErr env t = None) tids)"
  by (induction tids arbitrary: r) (simp_all split: prod.splits, (metis snd_conv)+)

text \<open>Every thread is counted once: as failed, as succeeded, or not at all when it had exited.\<close>

definition thread_failed :: "os_env \<Rightarrow> (dword \<Rightarrow> dword) \<Rightarrow> dword \<Rightarrow> bool" where
  "thread_failed env count t = (case openThreadErr env t of
      Some err \<Rightarrow> err \<noteq> ERROR_INVALID_PARAMETER | None \<Rightarrow> count t = -1)"

definition thread_gone :: "os_env \<Rightarrow> dword \<Rightarrow> bool" where
  "thread_gone env t = (openThreadErr env t = Some ERROR_INVALID_PARAMETER)"

lemma thread_fold_counts:
  "threadsFailed (fold (thread_step env count) tids r) =
     threadsFailed r + int (length (filter (thread_failed env count) tids))"
  "threadsAttempted (fold (thread_step env count) tids r) =
     threadsAttempted r + int (length (filter (\<lambda>t. \<not> thread_gone env t) tids))"
  "threadsSucceeded (fold (thread_step env count) tids r) =
     threadsSucceeded r +
     int (length (filter (\<lambda>t. \<not> thread_gone env t \<and> \<not> thread_failed env count t) tids))"
  by (induction tids arbitrary: r)
    (auto simp: thread_step_def thread_failed_def thread_gone_def Let_def split: option.splits)

lemma AllSucceeded_loop:
  "AllSucceeded (fst (thread_loop env count call tids no_threads)) \<longleftrightarrow>
   (\<exists>t \<in> set tids. \<not> thread_gone env t) \<and> (\<forall>t \<in> set tids. \<not> thread_failed env count t)"
  by (auto simp: AllSucceeded_def thread_loop_result thread_fold_counts no_threads_def
      filter_empty_conv)

section \<open>The state machine\<close>

datatype process_state = StNormal | StThrottled | StSuspended

definition ToString :: "process_state \<Rightarrow> wstring" where
  "ToString s = (case s of
      StNormal \<Rightarrow> ''NORMAL'' | StThrottled \<Rightarrow> ''THROTTLED'' | StSuspended \<Rightarrow> ''SUSPENDED'')"

record sm_config =
  throttleThresholdPercent :: double
  throttleConsecutiveSamples :: int
  escalateThresholdPercent :: double
  escalateConsecutiveSamples :: int
  recoverThresholdPercent :: double
  recoverConsecutiveSamples :: int

definition default_sm_config :: sm_config where
  "default_sm_config = \<lparr>throttleThresholdPercent = 85, throttleConsecutiveSamples = 3,
     escalateThresholdPercent = 90, escalateConsecutiveSamples = 5,
     recoverThresholdPercent = 60, recoverConsecutiveSamples = 5\<rparr>"

text \<open>
  The members of \<open>ProcessStateMachine\<close>.  \<open>smHandle\<close> says whether \<open>processHandle_\<close> was opened,
  \<open>smCallback\<close> whether an \<open>onTransition_\<close> was given.
\<close>

record machine =
  smName :: wstring
  smPid :: dword
  smHandle :: bool
  smConfig :: sm_config
  smCallback :: bool
  smState :: process_state
  smHold :: bool
  smHigh :: int
  smCritical :: int
  smLow :: int

record transition_info =
  tiName :: wstring
  tiPid :: dword
  tiFrom :: process_state
  tiTo :: process_state
  tiCpu :: double
  tiOk :: bool

datatype effect = Os os_call | Notify transition_info

definition new_machine :: "os_env \<Rightarrow> wstring \<Rightarrow> dword \<Rightarrow> sm_config \<Rightarrow> bool \<Rightarrow> machine" where
  "new_machine env name pid cfg callback =
     \<lparr>smName = name, smPid = pid, smHandle = (openErr env pid = None), smConfig = cfg,
      smCallback = callback, smState = StNormal, smHold = False,
      smHigh = 0, smCritical = 0, smLow = 0\<rparr>"

definition HasExited :: "os_env \<Rightarrow> machine \<Rightarrow> bool" where
  "HasExited env m = (smHandle m \<and> signalled env (smPid m))"

text \<open>The \<open>switch\<close> of \<open>TransitionTo\<close>: what is asked of the system, and whether it succeeded.\<close>

definition actuate ::
  "os_env \<Rightarrow> dword \<Rightarrow> process_state \<Rightarrow> process_state \<Rightarrow> bool \<times> os_call list" where
  "actuate env pid oldState newState = (case newState of
      StThrottled \<Rightarrow>
        (let (resumed, c1) = (if oldState = StSuspended
               then (let (r, c) = ResumeAllThreads env pid in (AllSucceeded r, c))
               else (True, []))
         in if resumed
            then (let (r, c2) = SetProcessPriority env pid LvIdle in (r = PcSuccess, c1 @ c2))
            else (False, c1))
    | StSuspended \<Rightarrow>
        (let (r, c) = SuspendAllThreads env pid in (AllSucceeded r, c))
    | StNormal \<Rightarrow>
        (let (resumed, c1) = (if oldState = StSuspended
               then (let (r, c) = ResumeAllThreads env pid in (AllSucceeded r, c))
               else (True, []));
             (r, c2) = SetProcessPriority env pid LvNormal
         in (resumed \<and> r = PcSuccess, c1 @ c2)))"

definition TransitionTo ::
  "os_env \<Rightarrow> process_state \<Rightarrow> double \<Rightarrow> machine \<Rightarrow> machine \<times> effect list" where
  "TransitionTo env newState cpu m =
     (let oldState = smState m;
          (ok, calls) = (if HasExited env m then (False, []) else actuate env (smPid m) oldState newState)
      in (m\<lparr>smState := newState, smHigh := 0, smCritical := 0, smLow := 0\<rparr>,
          map Os calls @
          (if smCallback m
           then [Notify \<lparr>tiName = smName m, tiPid = smPid m, tiFrom = oldState, tiTo = newState,
                         tiCpu = cpu, tiOk = ok\<rparr>]
           else [])))"

text \<open>The three counters of \<open>Update\<close>.\<close>

definition count_sample :: "double \<Rightarrow> machine \<Rightarrow> machine" where
  "count_sample cpu m = m\<lparr>
     smHigh := (if cpu \<ge> throttleThresholdPercent (smConfig m) then smHigh m + 1 else 0),
     smCritical := (if cpu \<ge> escalateThresholdPercent (smConfig m) then smCritical m + 1 else 0),
     smLow := (if cpu < recoverThresholdPercent (smConfig m) then smLow m + 1 else 0)\<rparr>"

definition sm_Update :: "os_env \<Rightarrow> double \<Rightarrow> machine \<Rightarrow> bool \<times> machine \<times> effect list" where
  "sm_Update env cpu m0 =
     (let stateBefore = smState m0; m = count_sample cpu m0; c = smConfig m in
      if smHold m then (False, m, [])
      else
        (let (m', effs) =
           (if smState m = StNormal \<and> smHigh m \<ge> throttleConsecutiveSamples c
            then TransitionTo env StThrottled cpu m
            else if smState m = StThrottled \<and> smCritical m \<ge> escalateConsecutiveSamples c
            then TransitionTo env StSuspended cpu m
            else if (smState m = StThrottled \<or> smState m = StSuspended) \<and>
                    smLow m \<ge> recoverConsecutiveSamples c
            then TransitionTo env StNormal cpu m
            else (m, []))
         in (smState m' \<noteq> stateBefore, m', effs)))"

definition sm_ForceState ::
  "os_env \<Rightarrow> process_state \<Rightarrow> double \<Rightarrow> bool \<Rightarrow> machine \<Rightarrow> machine \<times> effect list" where
  "sm_ForceState env newState cpu hold m =
     (let m1 = m\<lparr>smHold := hold\<rparr> in
      if smState m1 \<noteq> newState then TransitionTo env newState cpu m1 else (m1, []))"

definition sm_ReleaseManualHold :: "machine \<Rightarrow> machine" where
  "sm_ReleaseManualHold m = m\<lparr>smHold := False\<rparr>"

definition sm_SetConfig :: "sm_config \<Rightarrow> machine \<Rightarrow> machine" where
  "sm_SetConfig cfg m = m\<lparr>smConfig := cfg\<rparr>"

definition ForceRecoverForShutdown :: "os_env \<Rightarrow> machine \<Rightarrow> machine \<times> effect list" where
  "ForceRecoverForShutdown env m =
     (let m1 = m\<lparr>smHold := False\<rparr> in
      if smState m1 = StNormal then (m1, []) else TransitionTo env StNormal 0 m1)"

lemmas sm_defs =
  sm_Update_def sm_ForceState_def ForceRecoverForShutdown_def sm_ReleaseManualHold_def
  sm_SetConfig_def

subsection \<open>What a transition does\<close>

lemma TransitionTo_machine:
  "fst (TransitionTo env s cpu m) = m\<lparr>smState := s, smHigh := 0, smCritical := 0, smLow := 0\<rparr>"
  by (simp add: TransitionTo_def Let_def split: prod.splits)

lemma TransitionTo_frame [simp]:
  "smName (fst (TransitionTo env s cpu m)) = smName m"
  "smPid (fst (TransitionTo env s cpu m)) = smPid m"
  "smHandle (fst (TransitionTo env s cpu m)) = smHandle m"
  "smConfig (fst (TransitionTo env s cpu m)) = smConfig m"
  "smCallback (fst (TransitionTo env s cpu m)) = smCallback m"
  "smHold (fst (TransitionTo env s cpu m)) = smHold m"
  "smState (fst (TransitionTo env s cpu m)) = s"
  by (simp_all add: TransitionTo_machine)

lemma count_sample_frame [simp]:
  "smName (count_sample cpu m) = smName m"
  "smPid (count_sample cpu m) = smPid m"
  "smHandle (count_sample cpu m) = smHandle m"
  "smConfig (count_sample cpu m) = smConfig m"
  "smCallback (count_sample cpu m) = smCallback m"
  "smHold (count_sample cpu m) = smHold m"
  "smState (count_sample cpu m) = smState m"
  by (simp_all add: count_sample_def)

text \<open>Which state \<open>Update\<close> moves to, if any.\<close>

definition next_state :: "double \<Rightarrow> machine \<Rightarrow> process_state" where
  "next_state cpu m =
     (let k = count_sample cpu m; c = smConfig m in
      case smState m of
        StNormal \<Rightarrow> if smHigh k \<ge> throttleConsecutiveSamples c then StThrottled else StNormal
      | StThrottled \<Rightarrow>
          if smCritical k \<ge> escalateConsecutiveSamples c then StSuspended
          else if smLow k \<ge> recoverConsecutiveSamples c then StNormal else StThrottled
      | StSuspended \<Rightarrow> if smLow k \<ge> recoverConsecutiveSamples c then StNormal else StSuspended)"

lemma sm_Update_held:
  "smHold m \<Longrightarrow> sm_Update env cpu m = (False, count_sample cpu m, [])"
  by (simp add: sm_Update_def Let_def)

lemma sm_Update_free:
  assumes "\<not> smHold m"
  shows "sm_Update env cpu m =
    (let s = next_state cpu m; k = count_sample cpu m in
     if s = smState m then (False, k, [])
     else (True, fst (TransitionTo env s cpu k), snd (TransitionTo env s cpu k)))"
  using assms
  by (cases "smState m")
    (auto simp: sm_Update_def next_state_def Let_def split: prod.splits,
     (metis TransitionTo_frame(7) fst_conv process_state.distinct)+)

end
