(* ===== verification/StateMachine_Spec.thy ===== *)
theory StateMachine_Spec
  imports StateMachine
begin

text \<open>
  What the state machine promises.  The specification machine keeps the history of samples
  since the last transition and moves when the last \<open>N\<close> samples of that history all satisfy a
  condition; the implementation keeps three counters.  The refinement says the counters are
  the lengths of the current streaks, so both machines visit the same states.  The second part
  follows the operating-system calls: in every run the suspend calls on a thread exceed the
  resume calls by one exactly while the process is in the suspended state.
\<close>

section \<open>Streaks of samples\<close>

definition streak :: "('a \<Rightarrow> bool) \<Rightarrow> 'a list \<Rightarrow> int" where
  "streak P xs = int (length (takeWhile P (rev xs)))"

lemma streak_simps [simp]:
  "streak P [] = 0"
  "streak P (xs @ [x]) = (if P x then streak P xs + 1 else 0)"
  by (simp_all add: streak_def)

lemma streak_bounds: "0 \<le> streak P xs" "streak P xs \<le> int (length xs)"
  using length_takeWhile_le [of P "rev xs"] by (simp_all add: streak_def)

text \<open>A streak of at least \<open>n\<close> is the last \<open>n\<close> samples all satisfying the condition.\<close>

definition last_all :: "('a \<Rightarrow> bool) \<Rightarrow> nat \<Rightarrow> 'a list \<Rightarrow> bool" where
  "last_all P n xs = (n \<le> length xs \<and> (\<forall>x \<in> set (drop (length xs - n) xs). P x))"

lemma takeWhile_ge_iff:
  "n \<le> length (takeWhile P ys) \<longleftrightarrow> n \<le> length ys \<and> (\<forall>y \<in> set (take n ys). P y)"
proof (induction ys arbitrary: n)
  case Nil
  then show ?case by simp
next
  case (Cons y ys)
  show ?case
  proof (cases n)
    case 0
    then show ?thesis by simp
  next
    case (Suc k)
    with Cons.IH [of k] show ?thesis by auto
  qed
qed

lemma streak_ge_iff: "int n \<le> streak P xs \<longleftrightarrow> last_all P n xs"
proof -
  have "int n \<le> streak P xs \<longleftrightarrow> n \<le> length (takeWhile P (rev xs))"
    by (simp add: streak_def)
  also have "\<dots> \<longleftrightarrow> last_all P n xs"
    by (simp only: takeWhile_ge_iff last_all_def take_rev set_rev length_rev)
  finally show ?thesis .
qed

section \<open>The specification machine\<close>

record spec_machine =
  spState :: process_state
  spHist :: "double list"

definition reached :: "(double \<Rightarrow> bool) \<Rightarrow> int \<Rightarrow> double list \<Rightarrow> bool" where
  "reached P n h = last_all P (nat n) h"

text \<open>\<open>reached P n h\<close>: the last \<open>n\<close> samples of the history satisfy \<open>P\<close>.\<close>

definition spec_target :: "sm_config \<Rightarrow> process_state \<Rightarrow> double list \<Rightarrow> process_state" where
  "spec_target c s h = (case s of
      StNormal \<Rightarrow>
        if reached (\<lambda>x. x \<ge> throttleThresholdPercent c) (throttleConsecutiveSamples c) h
        then StThrottled else StNormal
    | StThrottled \<Rightarrow>
        if reached (\<lambda>x. x \<ge> escalateThresholdPercent c) (escalateConsecutiveSamples c) h
        then StSuspended
        else if reached (\<lambda>x. x < recoverThresholdPercent c) (recoverConsecutiveSamples c) h
        then StNormal else StThrottled
    | StSuspended \<Rightarrow>
        if reached (\<lambda>x. x < recoverThresholdPercent c) (recoverConsecutiveSamples c) h
        then StNormal else StSuspended)"

definition spec_sample :: "sm_config \<Rightarrow> double \<Rightarrow> spec_machine \<Rightarrow> spec_machine" where
  "spec_sample c x a =
     (let h = spHist a @ [x]; s = spec_target c (spState a) h in
      if s = spState a then \<lparr>spState = s, spHist = h\<rparr> else \<lparr>spState = s, spHist = []\<rparr>)"

definition positive_counts :: "sm_config \<Rightarrow> bool" where
  "positive_counts c = (throttleConsecutiveSamples c \<ge> 1 \<and> escalateConsecutiveSamples c \<ge> 1 \<and>
     recoverConsecutiveSamples c \<ge> 1)"

text \<open>The refinement relation: the counters are the streaks of the history.\<close>

definition sm_rel :: "machine \<Rightarrow> spec_machine \<Rightarrow> bool" where
  "sm_rel m a = (smState m = spState a \<and>
     smHigh m = streak (\<lambda>x. x \<ge> throttleThresholdPercent (smConfig m)) (spHist a) \<and>
     smCritical m = streak (\<lambda>x. x \<ge> escalateThresholdPercent (smConfig m)) (spHist a) \<and>
     smLow m = streak (\<lambda>x. x < recoverThresholdPercent (smConfig m)) (spHist a))"

lemma reached_streak: "n \<ge> 1 \<Longrightarrow> reached P n h \<longleftrightarrow> n \<le> streak P h"
  using streak_ge_iff [of "nat n" P h] by (simp add: reached_def)

lemma sm_rel_new: "sm_rel (new_machine env name pid cfg cb) \<lparr>spState = StNormal, spHist = []\<rparr>"
  by (simp add: sm_rel_def new_machine_def)

lemma count_sample_rel:
  "sm_rel m a \<Longrightarrow> sm_rel (count_sample x m) (a\<lparr>spHist := spHist a @ [x]\<rparr>)"
  by (simp add: sm_rel_def count_sample_def)

lemma next_state_spec:
  assumes "sm_rel m a" and "positive_counts (smConfig m)"
  shows "next_state x m = spec_target (smConfig m) (spState a) (spHist a @ [x])"
  using assms
  by (cases "smState m")
    (auto simp: next_state_def spec_target_def Let_def reached_streak positive_counts_def
      sm_rel_def count_sample_def simp del: streak_simps(2), auto)

lemma sm_Update_rel:
  assumes "sm_rel m a" and "positive_counts (smConfig m)" and "\<not> smHold m"
  shows "sm_rel (fst (snd (sm_Update env x m))) (spec_sample (smConfig m) x a)"
proof -
  have st: "smState m = spState a" using assms(1) by (simp add: sm_rel_def)
  have k: "sm_rel (count_sample x m) (a\<lparr>spHist := spHist a @ [x]\<rparr>)"
    using assms(1) by (rule count_sample_rel)
  show ?thesis
  proof (cases "next_state x m = smState m")
    case True
    then show ?thesis
      using k st next_state_spec [OF assms(1,2), of x]
      by (simp add: sm_Update_free [OF assms(3)] spec_sample_def Let_def)
        (cases a, simp add: sm_rel_def)
  next
    case False
    then show ?thesis
      using st next_state_spec [OF assms(1,2), of x]
      by (simp add: sm_Update_free [OF assms(3)] spec_sample_def Let_def sm_rel_def
          TransitionTo_machine)
  qed
qed

lemma sm_Update_config [simp]:
  "smConfig (fst (snd (sm_Update env x m))) = smConfig m"
  "smHold (fst (snd (sm_Update env x m))) = smHold m"
  "smPid (fst (snd (sm_Update env x m))) = smPid m"
  "smName (fst (snd (sm_Update env x m))) = smName m"
  "smHandle (fst (snd (sm_Update env x m))) = smHandle m"
  "smCallback (fst (snd (sm_Update env x m))) = smCallback m"
  by (cases "smHold m"; simp add: sm_Update_held sm_Update_free Let_def)+

text \<open>A whole run: one sample after another, each with its own answers of the system.\<close>

fun sm_run :: "(os_env \<times> double) list \<Rightarrow> machine \<Rightarrow> machine \<times> effect list" where
  "sm_run [] m = (m, [])"
| "sm_run ((env, x) # xs) m =
     (let (changed, m1, e1) = sm_Update env x m; (m2, e2) = sm_run xs m1 in (m2, e1 @ e2))"

fun spec_run :: "sm_config \<Rightarrow> double list \<Rightarrow> spec_machine \<Rightarrow> spec_machine" where
  "spec_run c [] a = a"
| "spec_run c (x # xs) a = spec_run c xs (spec_sample c x a)"

lemma sm_run_Cons:
  "fst (sm_run (p # xs) m) = fst (sm_run xs (fst (snd (sm_Update (fst p) (snd p) m))))"
  by (cases p) (simp add: Let_def split: prod.splits)

lemma sm_run_config [simp]:
  "smConfig (fst (sm_run xs m)) = smConfig m" "smHold (fst (sm_run xs m)) = smHold m"
  by (induction xs arbitrary: m) (simp_all add: sm_run_Cons del: sm_run.simps(2))

lemma sm_run_rel:
  "sm_rel m a \<Longrightarrow> positive_counts (smConfig m) \<Longrightarrow> \<not> smHold m \<Longrightarrow>
   sm_rel (fst (sm_run xs m)) (spec_run (smConfig m) (map snd xs) a)"
proof (induction xs arbitrary: m a)
  case Nil
  then show ?case by simp
next
  case (Cons p xs)
  let ?m = "fst (snd (sm_Update (fst p) (snd p) m))"
  have "sm_rel ?m (spec_sample (smConfig m) (snd p) a)"
    by (rule sm_Update_rel [OF Cons.prems])
  then have "sm_rel (fst (sm_run xs ?m)) (spec_run (smConfig ?m) (map snd xs) (spec_sample (smConfig m) (snd p) a))"
    using Cons.prems by (intro Cons.IH) simp_all
  then show ?case by (simp add: sm_run_Cons del: sm_run.simps(2))
qed

lemma counters_bounded:
  "sm_rel m a \<Longrightarrow> smHigh m \<le> int (length (spHist a)) \<and> smCritical m \<le> int (length (spHist a)) \<and>
     smLow m \<le> int (length (spHist a))"
  by (simp add: sm_rel_def streak_bounds(2))

subsection \<open>Dwell time: no move before enough samples have been taken\<close>

definition min_dwell :: "sm_config \<Rightarrow> process_state \<Rightarrow> int" where
  "min_dwell c s = (case s of
      StNormal \<Rightarrow> throttleConsecutiveSamples c
    | StThrottled \<Rightarrow> min (escalateConsecutiveSamples c) (recoverConsecutiveSamples c)
    | StSuspended \<Rightarrow> recoverConsecutiveSamples c)"

lemma spec_target_dwell:
  assumes "positive_counts c" and "int (length h) < min_dwell c s"
  shows "spec_target c s h = s"
  using assms
  by (cases s) (auto simp: spec_target_def min_dwell_def reached_def last_all_def positive_counts_def)

lemma spec_run_dwell:
  "positive_counts c \<Longrightarrow> int (length (spHist a) + length xs) < min_dwell c (spState a) \<Longrightarrow>
   spec_run c xs a = a\<lparr>spHist := spHist a @ xs\<rparr>"
proof (induction xs arbitrary: a)
  case Nil
  then show ?case by simp
next
  case (Cons x xs)
  have "spec_target c (spState a) (spHist a @ [x]) = spState a"
    using Cons.prems by (intro spec_target_dwell) auto
  then have s: "spec_sample c x a = a\<lparr>spHist := spHist a @ [x]\<rparr>"
    by (cases a) (simp add: spec_sample_def Let_def)
  show ?case
    using Cons.IH [of "a\<lparr>spHist := spHist a @ [x]\<rparr>"] Cons.prems by (simp add: s)
qed

section \<open>Operations in sequence\<close>

datatype sm_op =
    OpUpdate double
  | OpForceState process_state double bool
  | OpReleaseHold
  | OpSetConfig sm_config
  | OpForceRecover

definition sm_apply :: "os_env \<Rightarrow> sm_op \<Rightarrow> machine \<Rightarrow> machine \<times> effect list" where
  "sm_apply env op m = (case op of
      OpUpdate x \<Rightarrow> snd (sm_Update env x m)
    | OpForceState s x hold \<Rightarrow> sm_ForceState env s x hold m
    | OpReleaseHold \<Rightarrow> (sm_ReleaseManualHold m, [])
    | OpSetConfig c \<Rightarrow> (sm_SetConfig c m, [])
    | OpForceRecover \<Rightarrow> ForceRecoverForShutdown env m)"

fun sm_ops :: "(os_env \<times> sm_op) list \<Rightarrow> machine \<Rightarrow> machine \<times> effect list" where
  "sm_ops [] m = (m, [])"
| "sm_ops ((env, op) # ops) m =
     (let (m1, e1) = sm_apply env op m; (m2, e2) = sm_ops ops m1 in (m2, e1 @ e2))"

text \<open>Every operation either leaves the state alone and asks nothing, or is one transition.\<close>

lemma sm_apply_cases:
  assumes "sm_apply env op m = (m', effs)"
  obtains (still) "smState m' = smState m" "smPid m' = smPid m" "smHandle m' = smHandle m" "effs = []"
  | (move) s cpu k where "smState m \<noteq> s" "smState k = smState m" "smPid k = smPid m"
      "smHandle k = smHandle m" "(m', effs) = TransitionTo env s cpu k"
proof -
  have "(smState m' = smState m \<and> smPid m' = smPid m \<and> smHandle m' = smHandle m \<and> effs = []) \<or>
    (\<exists>s cpu k. smState m \<noteq> s \<and> smState k = smState m \<and> smPid k = smPid m \<and>
      smHandle k = smHandle m \<and> (m', effs) = TransitionTo env s cpu k)"
  proof (cases op)
    case (OpUpdate x)
    with assms have u: "snd (sm_Update env x m) = (m', effs)" by (simp add: sm_apply_def)
    show ?thesis
    proof (cases "smHold m \<or> next_state x m = smState m")
      case True
      with u show ?thesis
        by (cases "smHold m") (auto simp: sm_Update_held sm_Update_free Let_def)
    next
      case False
      with u have "(m', effs) = TransitionTo env (next_state x m) x (count_sample x m)"
        by (auto simp: sm_Update_free Let_def)
      with False show ?thesis
        by (intro disjI2 exI [of _ "next_state x m"] exI [of _ x] exI [of _ "count_sample x m"])
          auto
    qed
  next
    case (OpForceState s x hold)
    show ?thesis
    proof (cases "smState m = s")
      case True
      with OpForceState assms show ?thesis by (auto simp: sm_apply_def sm_ForceState_def)
    next
      case False
      with OpForceState assms
      have "(m', effs) = TransitionTo env s x (m\<lparr>smHold := hold\<rparr>)"
        by (simp add: sm_apply_def sm_ForceState_def)
      with False show ?thesis
        by (intro disjI2 exI [of _ s] exI [of _ x] exI [of _ "m\<lparr>smHold := hold\<rparr>"]) simp
    qed
  next
    case OpForceRecover
    show ?thesis
    proof (cases "smState m = StNormal")
      case True
      with OpForceRecover assms show ?thesis
        by (auto simp: sm_apply_def ForceRecoverForShutdown_def)
    next
      case False
      with OpForceRecover assms
      have "(m', effs) = TransitionTo env StNormal 0 (m\<lparr>smHold := False\<rparr>)"
        by (simp add: sm_apply_def ForceRecoverForShutdown_def)
      with False show ?thesis
        by (intro disjI2 exI [of _ StNormal] exI [of _ 0] exI [of _ "m\<lparr>smHold := False\<rparr>"]) simp
    qed
  qed (use assms in \<open>auto simp: sm_apply_def sm_ReleaseManualHold_def sm_SetConfig_def\<close>)
  then show thesis using still move by blast
qed

lemma sm_apply_frame:
  assumes "sm_apply env op m = (m', effs)"
  shows "smPid m' = smPid m" and "smHandle m' = smHandle m"
  using assms by (cases rule: sm_apply_cases; metis TransitionTo_frame fst_conv)+

subsection \<open>Suspend and resume calls balance\<close>

fun call_balance :: "dword \<Rightarrow> effect \<Rightarrow> int" where
  "call_balance t (Os (OsSuspendThread u)) = (if t = u then 1 else 0)"
| "call_balance t (Os (OsResumeThread u)) = (if t = u then -1 else 0)"
| "call_balance t _ = 0"

definition suspend_balance :: "dword \<Rightarrow> effect list \<Rightarrow> int" where
  "suspend_balance t effs = sum_list (map (call_balance t) effs)"

lemma suspend_balance_simps [simp]:
  "suspend_balance t [] = 0"
  "suspend_balance t (e # es) = call_balance t e + suspend_balance t es"
  "suspend_balance t (xs @ ys) = suspend_balance t xs + suspend_balance t ys"
  by (simp_all add: suspend_balance_def)

text \<open>
  A process that lives through the run with an unchanged set of threads, each of which the
  daemon may open: what the balance is stated for.
\<close>

definition steady :: "dword \<Rightarrow> dword list \<Rightarrow> os_env \<Rightarrow> bool" where
  "steady pid tids env = (\<not> signalled env pid \<and> EnumerateThreadIds env pid = tids \<and> distinct tids \<and>
     (\<forall>t \<in> set tids. openThreadErr env t = None))"

definition suspended_once :: "dword list \<Rightarrow> process_state \<Rightarrow> dword \<Rightarrow> int" where
  "suspended_once tids s t = (if s = StSuspended \<and> t \<in> set tids then 1 else 0)"

lemma balance_suspend_calls:
  "distinct ts \<Longrightarrow> suspend_balance t (map Os (map OsSuspendThread ts)) = (if t \<in> set ts then 1 else 0)"
  by (induction ts) auto

lemma balance_resume_calls:
  "distinct ts \<Longrightarrow> suspend_balance t (map Os (map OsResumeThread ts)) = (if t \<in> set ts then -1 else 0)"
  by (induction ts) auto

lemma balance_priority [simp]: "suspend_balance t (map Os (snd (SetProcessPriority env pid lv))) = 0"
  by (simp add: SetProcessPriority_def Let_def split: option.splits)

lemma steady_calls:
  assumes "steady pid tids env"
  shows "snd (SuspendAllThreads env pid) = map OsSuspendThread tids"
    and "snd (ResumeAllThreads env pid) = map OsResumeThread tids"
  using assms
  by (auto simp: SuspendAllThreads_def ResumeAllThreads_def thread_loop_calls steady_def
      filter_id_conv)

lemma actuate_balance:
  assumes "steady pid tids env" and "old \<noteq> new"
  shows "suspend_balance t (map Os (snd (actuate env pid old new))) =
    suspended_once tids new t - suspended_once tids old t"
proof -
  have d: "distinct tids" using assms(1) by (simp add: steady_def)
  note calls = steady_calls [OF assms(1)]
  obtain rs where rs: "ResumeAllThreads env pid = (rs, map OsResumeThread tids)"
    using calls(2) by (metis surj_pair snd_conv)
  obtain ss where ss: "SuspendAllThreads env pid = (ss, map OsSuspendThread tids)"
    using calls(1) by (metis surj_pair snd_conv)
  obtain p1 c1 where p1: "SetProcessPriority env pid LvIdle = (p1, c1)" by fastforce
  obtain p2 c2 where p2: "SetProcessPriority env pid LvNormal = (p2, c2)" by fastforce
  have z: "suspend_balance t (map Os c1) = 0" "suspend_balance t (map Os c2) = 0"
    using balance_priority [of t env pid LvIdle] balance_priority [of t env pid LvNormal]
    by (simp_all add: p1 p2)
  show ?thesis
    using assms(2) balance_suspend_calls [OF d, of t] balance_resume_calls [OF d, of t] z
    by (cases new; cases old)
      (auto simp: actuate_def rs ss p1 p2 suspended_once_def Let_def)
qed

lemma TransitionTo_balance:
  assumes "steady (smPid m) tids env" and "smState m \<noteq> s"
  shows "suspend_balance t (snd (TransitionTo env s cpu m)) =
    suspended_once tids s t - suspended_once tids (smState m) t"
proof -
  have live: "\<not> HasExited env m" using assms(1) by (simp add: HasExited_def steady_def)
  obtain ok calls where a: "actuate env (smPid m) (smState m) s = (ok, calls)" by fastforce
  have "suspend_balance t (map Os calls) = suspended_once tids s t - suspended_once tids (smState m) t"
    using actuate_balance [OF assms, of t] a by simp
  then show ?thesis using live a by (simp add: TransitionTo_def Let_def)
qed

lemma sm_apply_balance:
  assumes "sm_apply env op m = (m', effs)" and "steady (smPid m) tids env"
  shows "suspend_balance t effs = suspended_once tids (smState m') t - suspended_once tids (smState m) t"
  using assms(1)
proof (cases rule: sm_apply_cases)
  case still
  then show ?thesis by simp
next
  case (move s cpu k)
  then have "smState m' = s" by (metis TransitionTo_frame(7) fst_conv)
  moreover have "suspend_balance t (snd (TransitionTo env s cpu k)) =
      suspended_once tids s t - suspended_once tids (smState k) t"
    using move assms(2) by (intro TransitionTo_balance) auto
  ultimately show ?thesis using move by (metis snd_conv)
qed

lemma sm_ops_balance:
  "sm_ops ops m = (m', effs) \<Longrightarrow> (\<forall>p \<in> set ops. steady (smPid m) tids (fst p)) \<Longrightarrow>
   suspend_balance t effs = suspended_once tids (smState m') t - suspended_once tids (smState m) t"
proof (induction ops arbitrary: m m' effs)
  case Nil
  then show ?case by simp
next
  case (Cons p ops)
  obtain env op where p: "p = (env, op)" by fastforce
  obtain m1 e1 where a: "sm_apply env op m = (m1, e1)" by fastforce
  obtain m2 e2 where b: "sm_ops ops m1 = (m2, e2)" by fastforce
  from Cons.prems p a b have r: "m' = m2" "effs = e1 @ e2" by auto
  have "suspend_balance t e1 = suspended_once tids (smState m1) t - suspended_once tids (smState m) t"
    using Cons.prems p by (intro sm_apply_balance [OF a]) auto
  moreover have "suspend_balance t e2 = suspended_once tids (smState m2) t - suspended_once tids (smState m1) t"
    using Cons.prems p sm_apply_frame(1) [OF a] by (intro Cons.IH [OF b]) auto
  ultimately show ?case by (simp add: r)
qed

end
