(* ===== verification/ActuatorManager.thy ===== *)
theory ActuatorManager
  imports StateMachine_Spec
begin

text \<open>
  \<open>src/actuator/ActuatorManager.h/.cpp\<close>: the table of managed batch processes.  The
  \<open>unordered_map\<close> from process identifier to state machine is an association list with
  distinct keys, in the order the container happens to iterate.  \<open>ceq\<close> is
  \<open>CompareStringOrdinal\<close> ignoring case, \<open>self\<close> is \<open>GetCurrentProcessId()\<close>.
\<close>

section \<open>The manager and its operations\<close>

definition kAlwaysProtected :: "wstring list" where
  "kAlwaysProtected =
     [''[System Process]'', ''System'', ''Registry'', ''smss.exe'', ''csrss.exe'',
      ''wininit.exe'', ''winlogon.exe'', ''services.exe'', ''lsass.exe'',
      ''svchost.exe'', ''dwm.exe'', ''fontdrvhost.exe'', ''LsaIso.exe'',
      ''Memory Compression'', ''Secure System'']"

record manager =
  mgConfig :: sm_config
  mgCallback :: bool
  mgProtected :: "wstring list"
  mgMachines :: "(dword \<times> machine) list"

definition new_manager :: "sm_config \<Rightarrow> bool \<Rightarrow> manager" where
  "new_manager cfg callback =
     \<lparr>mgConfig = cfg, mgCallback = callback, mgProtected = [], mgMachines = []\<rparr>"

definition IsProtected :: "name_eq \<Rightarrow> dword \<Rightarrow> manager \<Rightarrow> wstring \<Rightarrow> dword \<Rightarrow> bool" where
  "IsProtected ceq self mg processName processId =
     (processId = self \<or>
      (\<exists>name \<in> set kAlwaysProtected. ceq processName name) \<or>
      (\<exists>name \<in> set (mgProtected mg). ceq processName name))"

definition mg_Find :: "dword \<Rightarrow> manager \<Rightarrow> machine option" where
  "mg_Find processId mg = map_of (mgMachines mg) processId"

definition AddBatchProcess ::
  "name_eq \<Rightarrow> dword \<Rightarrow> os_env \<Rightarrow> wstring \<Rightarrow> dword \<Rightarrow> manager \<Rightarrow> bool \<times> manager" where
  "AddBatchProcess ceq self env processName processId mg =
     (if IsProtected ceq self mg processName processId then (False, mg)
      else if amap_has processId (mgMachines mg) then (True, mg)
      else (True, mg\<lparr>mgMachines := amap_put processId
             (new_machine env processName processId (mgConfig mg) (mgCallback mg))
             (mgMachines mg)\<rparr>))"

fun drop_protected :: "(wstring \<Rightarrow> dword \<Rightarrow> bool) \<Rightarrow> os_env \<Rightarrow> (dword \<times> machine) list
    \<Rightarrow> (dword \<times> machine) list \<times> effect list" where
  "drop_protected prot env [] = ([], [])"
| "drop_protected prot env ((pid, m) # ms) =
     (if prot (smName m) pid
      then (let (m', e) = ForceRecoverForShutdown env m; (ms', es) = drop_protected prot env ms
            in (ms', e @ es))
      else (let (ms', es) = drop_protected prot env ms in ((pid, m) # ms', es)))"

definition SetProtectedProcessNames ::
  "name_eq \<Rightarrow> dword \<Rightarrow> os_env \<Rightarrow> wstring list \<Rightarrow> manager \<Rightarrow> manager \<times> effect list" where
  "SetProtectedProcessNames ceq self env names mg =
     (let mg1 = mg\<lparr>mgProtected := names\<rparr>;
          (ms, es) = drop_protected (IsProtected ceq self mg1) env (mgMachines mg1)
      in (mg1\<lparr>mgMachines := ms\<rparr>, es))"

definition RemoveBatchProcess :: "dword \<Rightarrow> manager \<Rightarrow> manager" where
  "RemoveBatchProcess processId mg = mg\<lparr>mgMachines := amap_erase processId (mgMachines mg)\<rparr>"

fun update_all :: "os_env \<Rightarrow> double \<Rightarrow> bool \<Rightarrow> (dword \<times> machine) list
    \<Rightarrow> bool \<times> (dword \<times> machine) list \<times> effect list" where
  "update_all env cpu changed [] = (changed, [], [])"
| "update_all env cpu changed ((pid, m) # ms) =
     (if HasExited env m then update_all env cpu changed ms
      else (let (c, m', e) = sm_Update env cpu m;
                (changed', ms', es) = update_all env cpu (c \<or> changed) ms
            in (changed', (pid, m') # ms', e @ es)))"

definition UpdateAll :: "os_env \<Rightarrow> double \<Rightarrow> manager \<Rightarrow> bool \<times> manager \<times> effect list" where
  "UpdateAll env cpu mg =
     (let (changed, ms, es) = update_all env cpu False (mgMachines mg)
      in (changed, mg\<lparr>mgMachines := ms\<rparr>, es))"

datatype threshold_type = ThHigh | ThCritical | ThLow

record threshold_event =
  teCriticalProcessId :: dword
  teType :: threshold_type
  teObservedCpuPercent :: double
  teTimestamp :: int

definition OnThresholdEvent :: "os_env \<Rightarrow> threshold_event \<Rightarrow> manager \<Rightarrow> manager \<times> effect list" where
  "OnThresholdEvent env evt mg = snd (UpdateAll env (teObservedCpuPercent evt) mg)"

fun recover_all :: "os_env \<Rightarrow> (dword \<times> machine) list \<Rightarrow> (dword \<times> machine) list \<times> effect list" where
  "recover_all env [] = ([], [])"
| "recover_all env ((pid, m) # ms) =
     (let (m', e) = ForceRecoverForShutdown env m; (ms', es) = recover_all env ms
      in ((pid, m') # ms', e @ es))"

definition ForceRecoverAllForShutdown :: "os_env \<Rightarrow> manager \<Rightarrow> manager \<times> effect list" where
  "ForceRecoverAllForShutdown env mg =
     (let (ms, es) = recover_all env (mgMachines mg) in (mg\<lparr>mgMachines := ms\<rparr>, es))"

definition mg_SetConfig :: "sm_config \<Rightarrow> manager \<Rightarrow> manager" where
  "mg_SetConfig cfg mg = mg\<lparr>mgConfig := cfg,
     mgMachines := map (\<lambda>(pid, m). (pid, sm_SetConfig cfg m)) (mgMachines mg)\<rparr>"

definition mg_ForceState :: "os_env \<Rightarrow> dword \<Rightarrow> process_state \<Rightarrow> double \<Rightarrow> bool \<Rightarrow> manager
    \<Rightarrow> bool \<times> manager \<times> effect list" where
  "mg_ForceState env processId newState cpu hold mg = (case mg_Find processId mg of
      None \<Rightarrow> (False, mg, [])
    | Some m \<Rightarrow> (let (m', e) = sm_ForceState env newState cpu hold m
                in (True, mg\<lparr>mgMachines := amap_put processId m' (mgMachines mg)\<rparr>, e)))"

definition mg_ReleaseManualHold :: "dword \<Rightarrow> manager \<Rightarrow> bool \<times> manager" where
  "mg_ReleaseManualHold processId mg = (case mg_Find processId mg of
      None \<Rightarrow> (False, mg)
    | Some m \<Rightarrow> (True, mg\<lparr>mgMachines := amap_put processId (sm_ReleaseManualHold m) (mgMachines mg)\<rparr>))"

section \<open>Functional facts\<close>

lemma update_all_changed_acc:
  "fst (update_all env cpu changed ms) = (changed \<or> fst (update_all env cpu False ms))"
proof (induction ms arbitrary: changed)
  case Nil
  then show ?case by simp
next
  case (Cons p ms)
  obtain pid m where p: "p = (pid, m)" by fastforce
  obtain c m' e where u: "sm_Update env cpu m = (c, m', e)" by (metis prod_cases3)
  show ?case
    using Cons.IH [of changed] Cons.IH [of "c \<or> changed"] Cons.IH [of c]
    by (auto simp: p u Let_def split: prod.splits)
qed

lemma update_all_machines:
  "fst (snd (update_all env cpu changed ms)) =
   map (\<lambda>(pid, m). (pid, fst (snd (sm_Update env cpu m)))) (filter (\<lambda>p. \<not> HasExited env (snd p)) ms)"
  by (induction ms arbitrary: changed) (auto simp: Let_def split: prod.splits, (metis fst_conv snd_conv)+)

lemma update_all_effects:
  "snd (snd (update_all env cpu changed ms)) =
   concat (map (\<lambda>p. snd (snd (sm_Update env cpu (snd p)))) (filter (\<lambda>p. \<not> HasExited env (snd p)) ms))"
  by (induction ms arbitrary: changed) (auto simp: Let_def split: prod.splits, (metis snd_conv)+)

lemma update_all_changed:
  "fst (update_all env cpu False ms) \<longleftrightarrow>
   (\<exists>p \<in> set ms. \<not> HasExited env (snd p) \<and> fst (sm_Update env cpu (snd p)))"
proof (induction ms)
  case Nil
  then show ?case by simp
next
  case (Cons p ms)
  obtain pid m where p: "p = (pid, m)" by fastforce
  obtain c m' e where u: "sm_Update env cpu m = (c, m', e)" by (metis prod_cases3)
  have "fst (update_all env cpu c ms) = (c \<or> fst (update_all env cpu False ms))"
    by (rule update_all_changed_acc)
  with Cons.IH show ?case
    by (auto simp: p u Let_def split: prod.splits)
qed

lemma drop_protected_machines:
  "fst (drop_protected prot env ms) = filter (\<lambda>p. \<not> prot (smName (snd p)) (fst p)) ms"
  by (induction ms) (auto simp: Let_def split_beta)

lemma drop_protected_effects:
  "snd (drop_protected prot env ms) =
   concat (map (\<lambda>p. snd (ForceRecoverForShutdown env (snd p)))
     (filter (\<lambda>p. prot (smName (snd p)) (fst p)) ms))"
  by (induction ms) (auto simp: Let_def split_beta)

lemma recover_all_machines:
  "fst (recover_all env ms) = map (\<lambda>(pid, m). (pid, fst (ForceRecoverForShutdown env m))) ms"
  by (induction ms) (auto simp: Let_def split_beta)

lemma recover_all_effects:
  "snd (recover_all env ms) = concat (map (\<lambda>p. snd (ForceRecoverForShutdown env (snd p))) ms)"
  by (induction ms) (auto simp: Let_def split_beta)

lemma ForceRecover_state [simp]:
  "smState (fst (ForceRecoverForShutdown env m)) = StNormal"
  "smHold (fst (ForceRecoverForShutdown env m)) = False"
  "smPid (fst (ForceRecoverForShutdown env m)) = smPid m"
  "smName (fst (ForceRecoverForShutdown env m)) = smName m"
  "smConfig (fst (ForceRecoverForShutdown env m)) = smConfig m"
  "smCallback (fst (ForceRecoverForShutdown env m)) = smCallback m"
  by (simp_all add: ForceRecoverForShutdown_def Let_def)

lemma sm_ForceState_frame [simp]:
  "smState (fst (sm_ForceState env s cpu hold m)) = s"
  "smHold (fst (sm_ForceState env s cpu hold m)) = hold"
  "smPid (fst (sm_ForceState env s cpu hold m)) = smPid m"
  "smName (fst (sm_ForceState env s cpu hold m)) = smName m"
  "smConfig (fst (sm_ForceState env s cpu hold m)) = smConfig m"
  "smCallback (fst (sm_ForceState env s cpu hold m)) = smCallback m"
  by (auto simp: sm_ForceState_def Let_def)

section \<open>The manager invariant\<close>

text \<open>
  Every entry is keyed by its machine's process, carries the manager's thresholds and
  callback, and is not protected under the current list.
\<close>

definition entry_ok :: "name_eq \<Rightarrow> dword \<Rightarrow> manager \<Rightarrow> dword \<times> machine \<Rightarrow> bool" where
  "entry_ok ceq self mg p =
     (smPid (snd p) = fst p \<and> smConfig (snd p) = mgConfig mg \<and> smCallback (snd p) = mgCallback mg \<and>
      \<not> IsProtected ceq self mg (smName (snd p)) (fst p))"

definition mg_inv :: "name_eq \<Rightarrow> dword \<Rightarrow> manager \<Rightarrow> bool" where
  "mg_inv ceq self mg = (akeys (mgMachines mg) \<and> (\<forall>p \<in> set (mgMachines mg). entry_ok ceq self mg p))"

lemma IsProtected_machines [simp]:
  "IsProtected ceq self (mg\<lparr>mgMachines := ms\<rparr>) = IsProtected ceq self mg"
  by (simp add: IsProtected_def fun_eq_iff)

lemma entry_ok_machines [simp]:
  "entry_ok ceq self (mg\<lparr>mgMachines := ms\<rparr>) = entry_ok ceq self mg"
  by (simp add: entry_ok_def fun_eq_iff)

lemma mg_invD:
  assumes "mg_inv ceq self mg" and "mg_Find pid mg = Some m"
  shows "entry_ok ceq self mg (pid, m)"
  using assms by (auto simp: mg_inv_def mg_Find_def dest: map_of_SomeD)

lemma mg_inv_new [inv_intros]: "mg_inv ceq self (new_manager cfg cb)"
  by (simp add: mg_inv_def new_manager_def akeys_def)

lemma mg_inv_put:
  assumes "mg_inv ceq self mg" and "entry_ok ceq self mg (pid, m)"
  shows "mg_inv ceq self (mg\<lparr>mgMachines := amap_put pid m (mgMachines mg)\<rparr>)"
  using assms amap.all_values_put [of "mgMachines mg" "entry_ok ceq self mg" pid m]
    akeys_amap_put [of "mgMachines mg" pid m]
  by (simp add: mg_inv_def)

lemma mg_inv_sub:
  assumes "mg_inv ceq self mg" and "map fst ms = map fst (filter P (mgMachines mg))"
    and "\<forall>p \<in> set ms. entry_ok ceq self mg p"
  shows "mg_inv ceq self (mg\<lparr>mgMachines := ms\<rparr>)"
proof -
  have "distinct (map fst (filter P (mgMachines mg)))"
    using assms(1) by (simp add: mg_inv_def akeys_def distinct_map_filter)
  with assms show ?thesis by (simp add: mg_inv_def akeys_def)
qed

lemma mg_inv_AddBatchProcess [inv_intros]:
  assumes "mg_inv ceq self mg"
  shows "mg_inv ceq self (snd (AddBatchProcess ceq self env name pid mg))"
  using assms mg_inv_put [OF assms, of pid "new_machine env name pid (mgConfig mg) (mgCallback mg)"]
  by (auto simp: AddBatchProcess_def entry_ok_def new_machine_def)

lemma mg_inv_Remove [inv_intros]:
  assumes "mg_inv ceq self mg"
  shows "mg_inv ceq self (RemoveBatchProcess pid mg)"
  unfolding RemoveBatchProcess_def
  using assms by (intro mg_inv_sub [where P = "\<lambda>p. fst p \<noteq> pid"]) (auto simp: amap_erase_def mg_inv_def)

lemma mg_inv_UpdateAll [inv_intros]:
  assumes "mg_inv ceq self mg"
  shows "mg_inv ceq self (fst (snd (UpdateAll env cpu mg)))"
proof -
  let ?ms = "fst (snd (update_all env cpu False (mgMachines mg)))"
  have "mg_inv ceq self (mg\<lparr>mgMachines := ?ms\<rparr>)"
    using assms
    by (intro mg_inv_sub [where P = "\<lambda>p. \<not> HasExited env (snd p)"])
      (auto simp: update_all_machines mg_inv_def entry_ok_def split_beta comp_def)
  then show ?thesis by (simp add: UpdateAll_def split_beta)
qed

lemma mg_inv_ForceRecoverAll [inv_intros]:
  assumes "mg_inv ceq self mg"
  shows "mg_inv ceq self (fst (ForceRecoverAllForShutdown env mg))"
proof -
  let ?ms = "fst (recover_all env (mgMachines mg))"
  have "mg_inv ceq self (mg\<lparr>mgMachines := ?ms\<rparr>)"
    using assms
    by (intro mg_inv_sub [where P = "\<lambda>_. True"])
      (auto simp: recover_all_machines mg_inv_def entry_ok_def split_beta comp_def)
  then show ?thesis by (simp add: ForceRecoverAllForShutdown_def split_beta)
qed

lemma mg_inv_SetConfig [inv_intros]:
  assumes "mg_inv ceq self mg"
  shows "mg_inv ceq self (mg_SetConfig cfg mg)"
  using assms
  by (auto simp: mg_inv_def mg_SetConfig_def entry_ok_def sm_SetConfig_def akeys_def split_beta
      comp_def IsProtected_def)

lemma mg_inv_ForceState [inv_intros]:
  assumes "mg_inv ceq self mg"
  shows "mg_inv ceq self (fst (snd (mg_ForceState env pid s cpu hold mg)))"
proof (cases "mg_Find pid mg")
  case None
  then show ?thesis using assms by (simp add: mg_ForceState_def)
next
  case (Some m)
  have "entry_ok ceq self mg (pid, fst (sm_ForceState env s cpu hold m))"
    using mg_invD [OF assms Some] by (simp add: entry_ok_def)
  then show ?thesis
    using mg_inv_put [OF assms] Some by (simp add: mg_ForceState_def split_beta)
qed

lemma mg_inv_Release [inv_intros]:
  assumes "mg_inv ceq self mg"
  shows "mg_inv ceq self (snd (mg_ReleaseManualHold pid mg))"
proof (cases "mg_Find pid mg")
  case None
  then show ?thesis using assms by (simp add: mg_ReleaseManualHold_def)
next
  case (Some m)
  have "entry_ok ceq self mg (pid, sm_ReleaseManualHold m)"
    using mg_invD [OF assms Some] by (simp add: entry_ok_def sm_ReleaseManualHold_def)
  then show ?thesis
    using mg_inv_put [OF assms] Some by (simp add: mg_ReleaseManualHold_def)
qed

lemma mg_inv_SetProtected [inv_intros]:
  assumes "mg_inv ceq self mg"
  shows "mg_inv ceq self (fst (SetProtectedProcessNames ceq self env names mg))"
  using assms
  by (simp add: SetProtectedProcessNames_def Let_def split_beta drop_protected_machines mg_inv_def
      akeys_def distinct_map_filter entry_ok_def)

end
