(* ===== verification/Actuator_Safety.thy ===== *)
theory Actuator_Safety
  imports ActuatorManager
begin

text \<open>
  The manager as a transition system: any operation of its public interface may come next, with
  any answers of the operating system.  Invariants are lifted to every reachable manager, and
  every demoting call (a priority other than NORMAL, or a suspended thread) is traced back to a
  managed, unprotected process.
\<close>

inductive mg_step :: "name_eq \<Rightarrow> dword \<Rightarrow> os_env \<Rightarrow> manager \<Rightarrow> manager \<Rightarrow> effect list \<Rightarrow> bool"
  for ceq self env where
  add: "AddBatchProcess ceq self env name pid mg = (ok, mg') \<Longrightarrow> mg_step ceq self env mg mg' []"
| protect: "SetProtectedProcessNames ceq self env names mg = (mg', es) \<Longrightarrow>
    mg_step ceq self env mg mg' es"
| remove: "mg_step ceq self env mg (RemoveBatchProcess pid mg) []"
| poll: "UpdateAll env cpu mg = (ch, mg', es) \<Longrightarrow> mg_step ceq self env mg mg' es"
| shutdown: "ForceRecoverAllForShutdown env mg = (mg', es) \<Longrightarrow> mg_step ceq self env mg mg' es"
| config: "mg_step ceq self env mg (mg_SetConfig cfg mg) []"
| force: "mg_ForceState env pid s cpu hold mg = (ok, mg', es) \<Longrightarrow> mg_step ceq self env mg mg' es"
| release: "mg_ReleaseManualHold pid mg = (ok, mg') \<Longrightarrow> mg_step ceq self env mg mg' []"

inductive mg_reach :: "name_eq \<Rightarrow> dword \<Rightarrow> manager \<Rightarrow> bool" for ceq self where
  start: "mg_reach ceq self (new_manager cfg cb)"
| step: "mg_reach ceq self mg \<Longrightarrow> mg_step ceq self env mg mg' es \<Longrightarrow> mg_reach ceq self mg'"

lemma mg_step_inv: "mg_step ceq self env mg mg' es \<Longrightarrow> mg_inv ceq self mg \<Longrightarrow> mg_inv ceq self mg'"
proof (induction rule: mg_step.induct)
  case (add name pid mg ok mg')
  then show ?case using mg_inv_AddBatchProcess [of ceq self mg env name pid] by simp
next
  case (protect names mg mg' es)
  then show ?case using mg_inv_SetProtected [of ceq self mg env names] by simp
next
  case (poll cpu mg ch mg' es)
  then show ?case using mg_inv_UpdateAll [of ceq self mg env cpu] by simp
next
  case (shutdown mg mg' es)
  then show ?case using mg_inv_ForceRecoverAll [of ceq self mg env] by simp
next
  case (force pid s cpu hold mg ok mg' es)
  then show ?case using mg_inv_ForceState [of ceq self mg env pid s cpu hold] by simp
next
  case (release pid mg ok mg')
  then show ?case using mg_inv_Release [of ceq self mg pid] by simp
qed (simp_all add: mg_inv_Remove mg_inv_SetConfig)

lemma mg_reach_inv: "mg_reach ceq self mg \<Longrightarrow> mg_inv ceq self mg"
  by (induction rule: mg_reach.induct) (auto intro: mg_inv_new mg_step_inv)

section \<open>Where demoting calls go\<close>

definition demotes :: "os_env \<Rightarrow> dword \<Rightarrow> effect \<Rightarrow> bool" where
  "demotes env pid e = (case e of
      Os (OsSetPriority p cls) \<Rightarrow> p = pid \<and> cls \<noteq> NORMAL_PRIORITY_CLASS
    | Os (OsSuspendThread t) \<Rightarrow> t \<in> set (EnumerateThreadIds env pid)
    | _ \<Rightarrow> False)"

definition demoting :: "effect \<Rightarrow> bool" where
  "demoting e = (case e of
      Os (OsSetPriority p cls) \<Rightarrow> cls \<noteq> NORMAL_PRIORITY_CLASS
    | Os (OsSuspendThread t) \<Rightarrow> True
    | _ \<Rightarrow> False)"

lemma SetProcessPriority_call:
  "c \<in> set (snd (SetProcessPriority env pid lv)) \<Longrightarrow> c = OsSetPriority pid (ToWin32PriorityClass lv)"
  by (auto simp: SetProcessPriority_def Let_def split: option.splits)

lemma Resume_call: "c \<in> set (snd (ResumeAllThreads env pid)) \<Longrightarrow> \<exists>t. c = OsResumeThread t"
  by (auto simp: ResumeAllThreads_def thread_loop_calls)

lemma Suspend_call:
  "c \<in> set (snd (SuspendAllThreads env pid)) \<Longrightarrow>
   \<exists>t \<in> set (EnumerateThreadIds env pid). c = OsSuspendThread t"
  by (auto simp: SuspendAllThreads_def thread_loop_calls)

lemma actuate_calls:
  assumes "c \<in> set (snd (actuate env pid old new))"
  shows "(\<exists>t. c = OsResumeThread t) \<or> c = OsSetPriority pid NORMAL_PRIORITY_CLASS \<and> new = StNormal \<or>
    new = StThrottled \<and> c = OsSetPriority pid IDLE_PRIORITY_CLASS \<or>
    new = StSuspended \<and> (\<exists>t \<in> set (EnumerateThreadIds env pid). c = OsSuspendThread t)"
  using assms
  by (cases new)
    (auto simp: actuate_def Let_def split_beta ToWin32PriorityClass_def split: if_splits
      dest: SetProcessPriority_call Resume_call Suspend_call)

lemma TransitionTo_effects:
  assumes "e \<in> set (snd (TransitionTo env s cpu m))" and "demoting e"
  shows "s \<noteq> StNormal \<and> demotes env (smPid m) e"
proof (cases e)
  case (Notify i)
  with assms(2) show ?thesis by (simp add: demoting_def)
next
  case (Os c)
  with assms(1) have "c \<in> set (snd (actuate env (smPid m) (smState m) s))"
    by (auto simp: TransitionTo_def Let_def split_beta split: if_splits)
  from actuate_calls [OF this] assms(2) show ?thesis
    by (auto simp: Os demoting_def demotes_def NORMAL_PRIORITY_CLASS_def IDLE_PRIORITY_CLASS_def)
qed

lemma sm_apply_demotes:
  assumes "sm_apply env op m = (m', effs)" and "e \<in> set effs" and "demoting e"
  shows "demotes env (smPid m) e \<and> smState m' \<noteq> StNormal"
  using assms(1)
proof (cases rule: sm_apply_cases)
  case still
  then show ?thesis using assms(2) by simp
next
  case (move s cpu k)
  then have e: "e \<in> set (snd (TransitionTo env s cpu k))" and m': "m' = fst (TransitionTo env s cpu k)"
    using assms(2) by (metis snd_conv, metis fst_conv)
  from TransitionTo_effects [OF e assms(3)] show ?thesis
    using move(3) by (simp add: m')
qed

lemma update_demotes:
  assumes "e \<in> set (snd (snd (sm_Update env cpu m)))" and "demoting e"
  shows "demotes env (smPid m) e"
proof -
  have "sm_apply env (OpUpdate cpu) m =
      (fst (snd (sm_Update env cpu m)), snd (snd (sm_Update env cpu m)))"
    by (simp add: sm_apply_def)
  from sm_apply_demotes [OF this assms] show ?thesis by simp
qed

lemma force_demotes:
  assumes "e \<in> set (snd (sm_ForceState env s cpu hold m))" and "demoting e"
  shows "demotes env (smPid m) e"
proof -
  have "sm_apply env (OpForceState s cpu hold) m =
      (fst (sm_ForceState env s cpu hold m), snd (sm_ForceState env s cpu hold m))"
    by (simp add: sm_apply_def)
  from sm_apply_demotes [OF this assms] show ?thesis by simp
qed

lemma recover_not_demoting:
  "e \<in> set (snd (ForceRecoverForShutdown env m)) \<Longrightarrow> \<not> demoting e"
  using sm_apply_demotes [of env OpForceRecover m "fst (ForceRecoverForShutdown env m)"
      "snd (ForceRecoverForShutdown env m)" e]
  by (auto simp: sm_apply_def)

definition managed_in :: "manager \<Rightarrow> dword \<Rightarrow> wstring \<Rightarrow> bool" where
  "managed_in mg pid name = (\<exists>m. mg_Find pid mg = Some m \<and> smName m = name)"

lemma managed_in_member:
  assumes "mg_inv ceq self mg" and "(pid, m) \<in> set (mgMachines mg)"
  shows "managed_in mg pid (smName m)" and "smPid m = pid"
    and "\<not> IsProtected ceq self mg (smName m) pid"
proof -
  have "map_of (mgMachines mg) pid = Some m"
    using assms by (simp add: mg_inv_def akeys_def)
  then show "managed_in mg pid (smName m)" by (simp add: managed_in_def mg_Find_def)
qed (use assms in \<open>auto simp: mg_inv_def entry_ok_def\<close>)

lemma mg_step_demotes:
  assumes "mg_step ceq self env mg mg' es" and "mg_inv ceq self mg" and "e \<in> set es" and "demoting e"
  shows "\<exists>pid name. demotes env pid e \<and> managed_in mg pid name \<and> \<not> IsProtected ceq self mg name pid"
  using assms(1)
proof (cases rule: mg_step.cases)
  case (protect names)
  then have "es = snd (SetProtectedProcessNames ceq self env names mg)" by simp
  with assms(3,4) recover_not_demoting show ?thesis
    by (auto simp: SetProtectedProcessNames_def Let_def split_beta drop_protected_effects)
next
  case (poll cpu ch)
  then have "es = snd (snd (UpdateAll env cpu mg))" by simp
  with assms(3) obtain pid m where m: "(pid, m) \<in> set (mgMachines mg)"
    and e: "e \<in> set (snd (snd (sm_Update env cpu m)))"
    by (auto simp: UpdateAll_def split_beta update_all_effects)
  have "demotes env (smPid m) e"
    using e assms(4) by (rule update_demotes)
  with managed_in_member [OF assms(2) m] show ?thesis by auto
next
  case shutdown
  then have "es = snd (ForceRecoverAllForShutdown env mg)" by simp
  with assms(3,4) recover_not_demoting show ?thesis
    by (auto simp: ForceRecoverAllForShutdown_def split_beta recover_all_effects)
next
  case (force pid s cpu hold ok)
  then obtain m where f: "mg_Find pid mg = Some m" and "es = snd (sm_ForceState env s cpu hold m)"
    using assms(3) by (auto simp: mg_ForceState_def split: option.splits prod.splits)
  then have d: "demotes env (smPid m) e"
    using force_demotes assms(3,4) by blast
  have "(pid, m) \<in> set (mgMachines mg)"
    using f by (auto simp: mg_Find_def dest: map_of_SomeD)
  from managed_in_member [OF assms(2) this] d show ?thesis by auto
qed (use assms(3) in simp_all)

end
