(* ===== verification/ThresholdTracker.thy ===== *)
theory ThresholdTracker
  imports ActuatorManager
begin

text \<open>
  \<open>src/telemetry/ThresholdTracker.h\<close>: the daemon's own streak counters, which only report.
  They are compared with the counters of a state machine fed the same samples: as long as the
  thresholds do not change, an event is reported on exactly the sample that makes the machine
  move; a reload that shortens the required streak below the current one breaks that.
\<close>

record tracker =
  trHigh :: int
  trCritical :: int
  trLow :: int

record fired =
  frType :: threshold_type
  frSamples :: int

definition new_tracker :: tracker where
  "new_tracker = \<lparr>trHigh = 0, trCritical = 0, trLow = 0\<rparr>"

definition tr_count :: "double \<Rightarrow> sm_config \<Rightarrow> tracker \<Rightarrow> tracker" where
  "tr_count percent cfg t =
     \<lparr>trHigh = (if percent \<ge> throttleThresholdPercent cfg then trHigh t + 1 else 0),
      trCritical = (if percent \<ge> escalateThresholdPercent cfg then trCritical t + 1 else 0),
      trLow = (if percent < recoverThresholdPercent cfg then trLow t + 1 else 0)\<rparr>"

definition tr_Add :: "double \<Rightarrow> sm_config \<Rightarrow> tracker \<Rightarrow> fired list \<times> tracker" where
  "tr_Add percent cfg t0 =
     (let t = tr_count percent cfg t0 in
      ((if trHigh t = throttleConsecutiveSamples cfg
        then [\<lparr>frType = ThHigh, frSamples = trHigh t\<rparr>] else []) @
       (if trCritical t = escalateConsecutiveSamples cfg
        then [\<lparr>frType = ThCritical, frSamples = trCritical t\<rparr>] else []) @
       (if trLow t = recoverConsecutiveSamples cfg
        then [\<lparr>frType = ThLow, frSamples = trLow t\<rparr>] else []), t))"

definition tr_Reset :: "tracker \<Rightarrow> tracker" where
  "tr_Reset t = \<lparr>trHigh = 0, trCritical = 0, trLow = 0\<rparr>"

text \<open>One poll of the daemon for one machine: report, update, reset when the machine moved.\<close>

definition poll_both :: "os_env \<Rightarrow> double \<Rightarrow> tracker \<times> machine
    \<Rightarrow> fired list \<times> bool \<times> tracker \<times> machine" where
  "poll_both env x tm =
     (let (fs, t) = tr_Add x (smConfig (snd tm)) (fst tm);
          (changed, m, effs) = sm_Update env x (snd tm)
      in (fs, changed, (if changed then tr_Reset t else t), m))"

definition in_step :: "tracker \<Rightarrow> machine \<Rightarrow> bool" where
  "in_step t m = (trHigh t = smHigh m \<and> trCritical t = smCritical m \<and> trLow t = smLow m)"

lemma in_step_new: "in_step new_tracker (new_machine env name pid cfg cb)"
  by (simp add: in_step_def new_tracker_def new_machine_def)

lemma in_step_count:
  "in_step t m \<Longrightarrow> in_step (tr_count x (smConfig m) t) (count_sample x m)"
  by (simp add: in_step_def tr_count_def count_sample_def)

lemma in_step_poll:
  assumes "in_step t m" and "poll_both env x (t, m) = (fs, changed, t', m')"
  shows "in_step t' m'"
proof (cases "smHold m")
  case True
  with assms(2) have "t' = tr_count x (smConfig m) t" "m' = count_sample x m"
    by (auto simp: poll_both_def sm_Update_held tr_Add_def Let_def)
  then show ?thesis using in_step_count [OF assms(1)] by simp
next
  case False
  with assms(2) show ?thesis
    using in_step_count [OF assms(1), of x]
    by (auto simp: poll_both_def sm_Update_free tr_Add_def Let_def tr_Reset_def in_step_def
        TransitionTo_machine split: if_splits)
qed

text \<open>
  Between polls the streak that would move the machine is still short of its length; every
  update restores this.
\<close>

definition streaks_short :: "machine \<Rightarrow> bool" where
  "streaks_short m = (case smState m of
      StNormal \<Rightarrow> smHigh m < throttleConsecutiveSamples (smConfig m)
    | StThrottled \<Rightarrow> smCritical m < escalateConsecutiveSamples (smConfig m) \<and>
        smLow m < recoverConsecutiveSamples (smConfig m)
    | StSuspended \<Rightarrow> smLow m < recoverConsecutiveSamples (smConfig m))"

lemma streaks_short_update:
  assumes "\<not> smHold m" and "positive_counts (smConfig m)"
  shows "streaks_short (fst (snd (sm_Update env x m)))"
proof (cases "next_state x m = smState m")
  case True
  then show ?thesis
    by (cases "smState m")
      (auto simp: sm_Update_free [OF assms(1)] Let_def streaks_short_def next_state_def
        split: if_splits)
next
  case False
  then show ?thesis using assms(2)
    by (cases "next_state x m")
      (auto simp: sm_Update_free [OF assms(1)] Let_def streaks_short_def TransitionTo_machine
        positive_counts_def)
qed

definition relevant_type :: "process_state \<Rightarrow> threshold_type \<Rightarrow> bool" where
  "relevant_type s ty = (case s of
      StNormal \<Rightarrow> ty = ThHigh
    | StThrottled \<Rightarrow> ty = ThCritical \<or> ty = ThLow
    | StSuspended \<Rightarrow> ty = ThLow)"

lemma tr_Add_types:
  "ThHigh \<in> frType ` set (fst (tr_Add x cfg t)) \<longleftrightarrow>
     trHigh (tr_count x cfg t) = throttleConsecutiveSamples cfg"
  "ThCritical \<in> frType ` set (fst (tr_Add x cfg t)) \<longleftrightarrow>
     trCritical (tr_count x cfg t) = escalateConsecutiveSamples cfg"
  "ThLow \<in> frType ` set (fst (tr_Add x cfg t)) \<longleftrightarrow>
     trLow (tr_count x cfg t) = recoverConsecutiveSamples cfg"
  by (auto simp: tr_Add_def Let_def)

lemma poll_lines_up:
  assumes "in_step t m" and "streaks_short m" and "\<not> smHold m" and "positive_counts (smConfig m)"
    and "poll_both env x (t, m) = (fs, changed, t', m')"
  shows "changed \<longleftrightarrow> (\<exists>ty \<in> frType ` set fs. relevant_type (smState m) ty)"
proof -
  let ?c = "smConfig m" and ?k = "count_sample x m"
  have fs: "fs = fst (tr_Add x ?c t)" and ch: "changed = (next_state x m \<noteq> smState m)"
    using assms(3,5) by (auto simp: poll_both_def sm_Update_free Let_def split: if_splits prod.splits)
  have k: "in_step (tr_count x ?c t) ?k" using assms(1) by (rule in_step_count)
  have hi: "smHigh ?k \<ge> throttleConsecutiveSamples ?c \<longleftrightarrow> smHigh ?k = throttleConsecutiveSamples ?c"
    if "smState m = StNormal"
    using that assms(2,4) by (auto simp: streaks_short_def count_sample_def positive_counts_def)
  have cr: "smCritical ?k \<ge> escalateConsecutiveSamples ?c \<longleftrightarrow> smCritical ?k = escalateConsecutiveSamples ?c"
    if "smState m = StThrottled"
    using that assms(2,4) by (auto simp: streaks_short_def count_sample_def positive_counts_def)
  have lo: "smLow ?k \<ge> recoverConsecutiveSamples ?c \<longleftrightarrow> smLow ?k = recoverConsecutiveSamples ?c"
    if "smState m \<noteq> StNormal"
    using that assms(2,4)
    by (cases "smState m") (auto simp: streaks_short_def count_sample_def positive_counts_def)
  have ex: "(\<exists>ty \<in> T. ty = a \<or> ty = b) = (a \<in> T \<or> b \<in> T)" for T and a b :: threshold_type
    by blast
  show ?thesis
  proof (cases "smState m")
    case StNormal
    with hi k show ?thesis
      by (simp add: ch fs next_state_def relevant_type_def Let_def tr_Add_types in_step_def
          del: image_iff)
  next
    case StThrottled
    with cr lo k show ?thesis
      by (simp add: ch fs next_state_def relevant_type_def Let_def tr_Add_types in_step_def ex
          del: image_iff)
  next
    case StSuspended
    with lo k show ?thesis
      by (simp add: ch fs next_state_def relevant_type_def Let_def tr_Add_types in_step_def
          del: image_iff)
  qed
qed

text \<open>
  After a reload that lowers the required length to the streak's length or below, the streak
  never reaches it again by equality, so a run of high samples is never reported.
\<close>

lemma tracker_misses:
  "trHigh t \<ge> throttleConsecutiveSamples cfg \<Longrightarrow> x \<ge> throttleThresholdPercent cfg \<Longrightarrow>
   ThHigh \<notin> frType ` set (fst (tr_Add x cfg t)) \<and>
   trHigh (snd (tr_Add x cfg t)) \<ge> throttleConsecutiveSamples cfg"
  by (auto simp: tr_Add_def tr_count_def Let_def)

end
