(* ===== verification/Actuator_Properties.thy ===== *)
theory Actuator_Properties
  imports Actuator_Safety ThresholdTracker
begin

text \<open>
  The properties of the actuator: the state machine refines its specification over any run, its
  operating-system calls balance, and the manager never demotes a protected process.
\<close>

section \<open>A concrete system for the witnesses\<close>

text \<open>Every call succeeds; threads 11 and 12 belong to process 7, thread 13 to process 9.\<close>

definition sample_env :: os_env where
  "sample_env = \<lparr>openErr = (\<lambda>_. None), signalled = (\<lambda>_. False), setClassErr = (\<lambda>_ _. None),
     threadSnap = Some [(11, 7), (12, 7), (13, 9)], openThreadErr = (\<lambda>_. None),
     suspendThread = (\<lambda>_. 0), resumeThread = (\<lambda>_. 1)\<rparr>"

definition sample_machine :: machine where
  "sample_machine = new_machine sample_env ''batch.exe'' 7 default_sm_config True"

lemma sample_env_fields [simp]:
  "openErr sample_env p = None" "signalled sample_env p = False" "setClassErr sample_env p c = None"
  "openThreadErr sample_env t = None" "suspendThread sample_env t = 0" "resumeThread sample_env t = 1"
  "EnumerateThreadIds sample_env 7 = [11, 12]"
  by (simp_all add: sample_env_def EnumerateThreadIds_def)

lemma sample_machine_fields [simp]:
  "smState sample_machine = StNormal" "smPid sample_machine = 7" "smHold sample_machine = False"
  "smConfig sample_machine = default_sm_config" "smHigh sample_machine = 0"
  "smCritical sample_machine = 0" "smLow sample_machine = 0" "smHandle sample_machine = True"
  "smCallback sample_machine = True" "smName sample_machine = ''batch.exe''"
  by (simp_all add: sample_machine_def new_machine_def)

lemma default_counts [simp]: "positive_counts default_sm_config"
  by (simp add: positive_counts_def default_sm_config_def)

lemma steady_sample: "steady 7 [11, 12] sample_env"
  by (simp add: steady_def)

section \<open>The state machine\<close>

text \<open>
  C6. Over any sequence of samples, with any answers of the operating system, a new machine is in
  the state its specification is in: it throttles exactly when the last N samples since the last
  transition are all at or above the throttle threshold, suspends when the last M since throttling
  are all at or above the critical one, and recovers when the last K are all below the recovery
  threshold.
\<close>

theorem state_machine_refines_spec:
  assumes "positive_counts cfg"
  shows "smState (fst (sm_run xs (new_machine env name pid cfg cb))) =
    spState (spec_run cfg (map snd xs) \<lparr>spState = StNormal, spHist = []\<rparr>)"
proof -
  let ?m = "new_machine env name pid cfg cb"
  have c: "smConfig ?m = cfg" and h: "\<not> smHold ?m" by (simp_all add: new_machine_def)
  have "sm_rel (fst (sm_run xs ?m)) (spec_run (smConfig ?m) (map snd xs) \<lparr>spState = StNormal, spHist = []\<rparr>)"
    using assms c h by (intro sm_run_rel sm_rel_new) simp_all
  then show ?thesis by (simp add: sm_rel_def c)
qed

theorem state_machine_refines_spec_witness:
  "positive_counts default_sm_config \<and>
   smState (fst (sm_run [(sample_env, 86), (sample_env, 85), (sample_env, 91)]
     (new_machine sample_env ''batch.exe'' 7 default_sm_config True))) = StThrottled"
proof -
  have "spState (spec_run default_sm_config [86, 85, 91] \<lparr>spState = StNormal, spHist = []\<rparr>) = StThrottled"
    by (simp add: spec_sample_def spec_target_def reached_def last_all_def default_sm_config_def)
  then show ?thesis
    using state_machine_refines_spec [OF default_counts,
      of "[(sample_env, 86), (sample_env, 85), (sample_env, 91)]" sample_env "''batch.exe''" 7 True]
    by simp
qed



text \<open>
  Hysteresis in time: after a transition, and for a new machine, the state cannot change
  before as many further samples have been taken as the shortest streak leading out of that state.
\<close>

lemma state_dwells:
  assumes "positive_counts (smConfig m)" and "\<not> smHold m"
    and "smHigh m = 0" and "smCritical m = 0" and "smLow m = 0"
    and "int (length xs) < min_dwell (smConfig m) (smState m)"
  shows "smState (fst (sm_run xs m)) = smState m"
proof -
  have "sm_rel m \<lparr>spState = smState m, spHist = []\<rparr>"
    using assms by (simp add: sm_rel_def)
  from sm_run_rel [OF this assms(1,2), of xs]
  have "smState (fst (sm_run xs m)) =
      spState (spec_run (smConfig m) (map snd xs) \<lparr>spState = smState m, spHist = []\<rparr>)"
    by (simp add: sm_rel_def)
  also have "\<dots> = smState m"
    using assms by (subst spec_run_dwell) simp_all
  finally show ?thesis .
qed

theorem state_dwells_witness:
  "smState (fst (sm_run [(sample_env, 100), (sample_env, 100)] sample_machine)) = StNormal"
proof -
  have "smState (fst (sm_run [(sample_env, 100), (sample_env, 100)] sample_machine)) =
      smState sample_machine"
    by (rule state_dwells) (simp_all add: min_dwell_def, simp add: default_sm_config_def)
  then show ?thesis by simp
qed

text \<open>
  A manual override holds: while a process is held, no sample changes its state and no call is
  made on it, whatever the pressure.
\<close>

lemma manual_hold_is_kept:
  assumes "sm_ForceState env s cpu True m = (m1, e1)" and "sm_run xs m1 = (m2, e2)"
  shows "smState m2 = s \<and> smHold m2 \<and> e2 = []"
proof -
  have held: "smHold k \<Longrightarrow> sm_run xs k = (k2, e) \<Longrightarrow> smState k2 = smState k \<and> smHold k2 \<and> e = []" for k k2 e
  proof (induction xs arbitrary: k k2 e)
    case Nil
    then show ?case by simp
  next
    case (Cons p xs)
    obtain env x where p: "p = (env, x)" by fastforce
    obtain k3 e3 where r: "sm_run xs (count_sample x k) = (k3, e3)" by fastforce
    have h: "smHold (count_sample x k)" using Cons.prems(1) by simp
    from Cons.IH [OF h r] Cons.prems show ?case
      by (simp add: p sm_Update_held r)
  qed
  have "smState m1 = s" "smHold m1"
    using assms(1) sm_ForceState_frame(1,2) [of env s cpu True m] by simp_all
  with held [OF _ assms(2)] show ?thesis by simp
qed

theorem manual_hold_is_kept_witness:
  "\<exists>m1 e1 m2 e2. sm_ForceState sample_env StThrottled 10 True sample_machine = (m1, e1) \<and>
     sm_run [(sample_env, 10), (sample_env, 99)] m1 = (m2, e2) \<and> smState m2 = StThrottled \<and> e2 = []"
proof -
  obtain m1 e1 where f: "sm_ForceState sample_env StThrottled 10 True sample_machine = (m1, e1)"
    by fastforce
  obtain m2 e2 where r: "sm_run [(sample_env, 10), (sample_env, 99)] m1 = (m2, e2)" by fastforce
  from manual_hold_is_kept [OF f r] f r show ?thesis by blast
qed

section \<open>The manager\<close>

text \<open>
  C3. Safety of the actuator: in every reachable state of the manager, under any operation and any
  answers of the system, each call that demotes (lowers a priority or suspends a thread) goes to a
  process that is managed at that moment and is protected neither by the built-in list, nor by the
  configured one, nor by being the daemon itself.
\<close>

theorem only_unprotected_processes_are_demoted:
  assumes "mg_reach ceq self mg" and "mg_step ceq self env mg mg' es" and "e \<in> set es" and "demoting e"
  shows "\<exists>pid name. demotes env pid e \<and> managed_in mg pid name \<and> pid \<noteq> self \<and>
    \<not> (\<exists>n \<in> set kAlwaysProtected \<union> set (mgProtected mg). ceq name n)"
  using mg_step_demotes [OF assms(2) mg_reach_inv [OF assms(1)] assms(3,4)]
  by (fastforce simp: IsProtected_def)

definition sample_manager :: manager where
  "sample_manager = snd (AddBatchProcess (=) 1 sample_env ''batch.exe'' 7
     (new_manager default_sm_config True))"

lemma sample_manager_eq:
  "sample_manager = (new_manager default_sm_config True)\<lparr>mgMachines := [(7, sample_machine)]\<rparr>"
  by (simp add: sample_manager_def AddBatchProcess_def IsProtected_def kAlwaysProtected_def
      new_manager_def amap_has_def sample_machine_def)

lemma sample_manager_reach: "mg_reach (=) 1 sample_manager"
proof -
  have "AddBatchProcess (=) 1 sample_env ''batch.exe'' 7 (new_manager default_sm_config True) =
      (True, sample_manager)"
    by (simp add: sample_manager_def AddBatchProcess_def IsProtected_def kAlwaysProtected_def
        new_manager_def amap_has_def)
  from mg_reach.step [OF mg_reach.start mg_step.add [OF this]] show ?thesis .
qed

theorem only_unprotected_processes_are_demoted_witness:
  "\<exists>mg' es e. mg_step (=) 1 sample_env sample_manager mg' es \<and> e \<in> set es \<and> demoting e \<and>
    (\<exists>pid name. demotes sample_env pid e \<and> managed_in sample_manager pid name \<and> pid \<noteq> 1 \<and>
      \<not> (\<exists>n \<in> set kAlwaysProtected \<union> set (mgProtected sample_manager). name = n))"
proof -
  let ?e = "Os (OsSetPriority 7 IDLE_PRIORITY_CLASS)"
  obtain ok mg' es where f: "mg_ForceState sample_env 7 StThrottled 50 True sample_manager = (ok, mg', es)"
    by (metis prod_cases3)
  then have s: "mg_step (=) 1 sample_env sample_manager mg' es" by (rule mg_step.force)
  have "?e \<in> set es"
    using f by (auto simp: mg_ForceState_def mg_Find_def sample_manager_eq sm_ForceState_def
        TransitionTo_def actuate_def SetProcessPriority_def HasExited_def ToWin32PriorityClass_def)
  moreover have "demoting ?e"
    by (simp add: demoting_def IDLE_PRIORITY_CLASS_def NORMAL_PRIORITY_CLASS_def)
  ultimately show ?thesis
    using only_unprotected_processes_are_demoted [OF sample_manager_reach s] s by blast
qed

text \<open>
  One poll updates every managed process that is still running exactly as its own machine would,
  drops every process that has exited, and reports a change exactly when some machine moved.
\<close>

lemma UpdateAll_is_pointwise:
  assumes "mg_inv ceq self mg" and "UpdateAll env cpu mg = (changed, mg', es)"
  shows "mg_Find pid mg' = (case mg_Find pid mg of
      None \<Rightarrow> None
    | Some m \<Rightarrow> if HasExited env m then None else Some (fst (snd (sm_Update env cpu m)))) \<and>
    (changed \<longleftrightarrow> (\<exists>p m. mg_Find p mg = Some m \<and> \<not> HasExited env m \<and>
      smState (fst (snd (sm_Update env cpu m))) \<noteq> smState m)) \<and> mg_inv ceq self mg'"
proof -
  have d: "distinct (map fst (mgMachines mg))"
    using assms(1) by (simp add: mg_inv_def akeys_def)
  have mg': "mgMachines mg' = map (\<lambda>(pid, m). (pid, fst (snd (sm_Update env cpu m))))
      (filter (\<lambda>p. \<not> HasExited env (snd p)) (mgMachines mg))"
    and ch: "changed = fst (update_all env cpu False (mgMachines mg))"
    using assms(2) by (auto simp: UpdateAll_def split_beta update_all_machines)
  have find: "mg_Find pid mg' = (case mg_Find pid mg of
      None \<Rightarrow> None
    | Some m \<Rightarrow> if HasExited env m then None else Some (fst (snd (sm_Update env cpu m))))"
    unfolding mg_Find_def mg' by (rule map_of_map_filter [OF d])
  have moved: "fst (sm_Update env cpu m) \<longleftrightarrow> smState (fst (snd (sm_Update env cpu m))) \<noteq> smState m" for m
    by (cases "smHold m") (auto simp: sm_Update_held sm_Update_free Let_def)
  have "changed \<longleftrightarrow> (\<exists>p \<in> set (mgMachines mg). \<not> HasExited env (snd p) \<and>
      smState (fst (snd (sm_Update env cpu (snd p)))) \<noteq> smState (snd p))"
    by (simp add: ch update_all_changed moved)
  also have "\<dots> \<longleftrightarrow> (\<exists>p m. mg_Find p mg = Some m \<and> \<not> HasExited env m \<and>
      smState (fst (snd (sm_Update env cpu m))) \<noteq> smState m)"
    using d by (force simp: mg_Find_def)
  finally have chg: "changed \<longleftrightarrow> (\<exists>p m. mg_Find p mg = Some m \<and> \<not> HasExited env m \<and>
      smState (fst (snd (sm_Update env cpu m))) \<noteq> smState m)" .
  have "mg_inv ceq self mg'"
    using mg_inv_UpdateAll [OF assms(1), of env cpu] assms(2) by simp
  with find chg show ?thesis by blast
qed

theorem UpdateAll_is_pointwise_witness:
  "\<exists>changed mg' es. UpdateAll sample_env 100 sample_manager = (changed, mg', es) \<and> \<not> changed \<and>
     mg_Find 7 mg' = Some (fst (snd (sm_Update sample_env 100 sample_machine)))"
proof -
  obtain changed mg' es where u: "UpdateAll sample_env 100 sample_manager = (changed, mg', es)"
    by (metis prod_cases3)
  have i: "mg_inv (=) 1 sample_manager" by (rule mg_reach_inv [OF sample_manager_reach])
  have f: "mg_Find p sample_manager = (if p = 7 then Some sample_machine else None)" for p
    by (simp add: mg_Find_def sample_manager_eq)
  have n: "smState (fst (snd (sm_Update sample_env 100 sample_machine))) = StNormal"
    by (simp add: sm_Update_free Let_def next_state_def count_sample_def default_sm_config_def)
  from UpdateAll_is_pointwise [OF i u, of 7] u n show ?thesis
    by (auto simp: f HasExited_def split: if_splits)
qed

section \<open>The reported events\<close>

fun poll_run :: "(os_env \<times> double) list \<Rightarrow> tracker \<times> machine \<Rightarrow> tracker \<times> machine" where
  "poll_run [] tm = tm"
| "poll_run (p # ps) tm = poll_run ps (snd (snd (poll_both (fst p) (snd p) tm)))"

lemma poll_run_inv:
  "in_step t m \<Longrightarrow> streaks_short m \<Longrightarrow> \<not> smHold m \<Longrightarrow> positive_counts (smConfig m) \<Longrightarrow>
   poll_run ps (t, m) = (t', m') \<Longrightarrow>
   in_step t' m' \<and> streaks_short m' \<and> \<not> smHold m' \<and> smConfig m' = smConfig m"
proof (induction ps arbitrary: t m)
  case Nil
  then show ?case by simp
next
  case (Cons p ps)
  obtain fs ch t1 m1 where b: "poll_both (fst p) (snd p) (t, m) = (fs, ch, t1, m1)"
    by (metis prod_cases4)
  then have m1: "m1 = fst (snd (sm_Update (fst p) (snd p) m))"
    by (auto simp: poll_both_def split: prod.splits)
  have r: "poll_run ps (t1, m1) = (t', m')" using Cons.prems(5) b by simp
  have "in_step t1 m1" by (rule in_step_poll [OF Cons.prems(1) b])
  moreover have "streaks_short m1" unfolding m1 by (rule streaks_short_update [OF Cons.prems(3,4)])
  moreover have "\<not> smHold m1" "smConfig m1 = smConfig m" using Cons.prems(3) by (simp_all add: m1)
  ultimately show ?case using Cons.IH [of t1 m1] Cons.prems(4) r by simp
qed

text \<open>
  C16. The log's threshold events line up with the actions: with unchanged thresholds, after any
  polls of a machine that is not held, the tracker reports the event that belongs to the machine's
  state on exactly the sample on which the machine moves, and the counters stay equal.
\<close>

theorem events_line_up_with_actions:
  assumes "positive_counts cfg"
    and "poll_run ps (new_tracker, new_machine env0 name pid cfg cb) = (t, m)"
    and "poll_both env x (t, m) = (fs, changed, t', m')"
  shows "(changed \<longleftrightarrow> (\<exists>ty \<in> frType ` set fs. relevant_type (smState m) ty)) \<and> in_step t' m'"
proof -
  let ?m0 = "new_machine env0 name pid cfg cb"
  have "in_step new_tracker ?m0" by (rule in_step_new)
  moreover have "streaks_short ?m0" "\<not> smHold ?m0" "smConfig ?m0 = cfg"
    using assms(1) by (simp_all add: new_machine_def streaks_short_def positive_counts_def)
  ultimately have i: "in_step t m \<and> streaks_short m \<and> \<not> smHold m \<and> smConfig m = cfg"
    using poll_run_inv [of new_tracker ?m0 ps t m] assms(1,2) by simp
  then have "in_step t' m'" using in_step_poll assms(3) by blast
  with i assms(1,3) show ?thesis using poll_lines_up [of t m env x fs changed t' m'] by simp
qed

theorem events_line_up_with_actions_witness:
  "\<exists>t m fs t' m'.
     poll_run [(sample_env, 90), (sample_env, 90)]
       (new_tracker, new_machine sample_env ''batch.exe'' 7 default_sm_config True) = (t, m) \<and>
     poll_both sample_env 90 (t, m) = (fs, True, t', m') \<and> ThHigh \<in> frType ` set fs"
proof -
  obtain t m where r: "poll_run [(sample_env, 90), (sample_env, 90)]
       (new_tracker, new_machine sample_env ''batch.exe'' 7 default_sm_config True) = (t, m)"
    by fastforce
  obtain fs ch t' m' where b: "poll_both sample_env 90 (t, m) = (fs, ch, t', m')"
    by (metis prod_cases4)
  have m: "smState m = StNormal" "t = \<lparr>trHigh = 2, trCritical = 2, trLow = 0\<rparr>"
    "smConfig m = default_sm_config"
    using r by (auto simp: poll_both_def new_machine_def new_tracker_def sm_Update_free Let_def
        tr_Add_def tr_count_def next_state_def count_sample_def default_sm_config_def)
  then have "ThHigh \<in> frType ` set fs"
    using b by (auto simp: poll_both_def tr_Add_def tr_count_def default_sm_config_def Let_def
        split: prod.splits)
  with events_line_up_with_actions [OF default_counts r b] r b m(1) show ?thesis
    by (auto simp: relevant_type_def)
qed

end
