(* ===== verification/AdaptiveThresholds.thy ===== *)
theory AdaptiveThresholds
  imports StateMachine
begin

text \<open>
  \<open>src/telemetry/AdaptiveThresholds.h/.cpp\<close>: a least-squares line through the last pressure
  readings lowers the throttle and escalate thresholds while load rises.  The deque is a list,
  oldest sample first.
\<close>

section \<open>Definitions\<close>

record adaptive_settings =
  adEnabled :: bool
  windowSamples :: int
  horizonSamples :: int
  maxAdjustPercent :: double

record adaptive =
  adSettings :: adaptive_settings
  adWindow :: "double list"

function pop_front_while :: "int \<Rightarrow> double list \<Rightarrow> double list" where
  "pop_front_while limit w =
     (if int (length w) > max limit 1 then pop_front_while limit (tl w) else w)"
  by pat_completeness auto
termination
  by (relation "measure (\<lambda>(limit, w). length w)") auto

declare pop_front_while.simps [simp del]

definition ad_SetSettings :: "adaptive_settings \<Rightarrow> adaptive \<Rightarrow> adaptive" where
  "ad_SetSettings s a =
     a\<lparr>adSettings := s, adWindow := pop_front_while (windowSamples s) (adWindow a)\<rparr>"

definition ad_AddSample :: "double \<Rightarrow> adaptive \<Rightarrow> adaptive" where
  "ad_AddSample pressurePercent a =
     a\<lparr>adWindow := pop_front_while (windowSamples (adSettings a)) (adWindow a @ [pressurePercent])\<rparr>"

definition ad_Reset :: "adaptive \<Rightarrow> adaptive" where
  "ad_Reset a = a\<lparr>adWindow := []\<rparr>"

text \<open>The four accumulators of \<open>Fit\<close>: \<open>sx\<close>, \<open>sy\<close>, \<open>sxx\<close>, \<open>sxy\<close>, from index \<open>i\<close> on.\<close>

fun fit_sums :: "nat \<Rightarrow> double list \<Rightarrow> double \<times> double \<times> double \<times> double
    \<Rightarrow> double \<times> double \<times> double \<times> double" where
  "fit_sums i [] acc = acc"
| "fit_sums i (y # ys) (sx, sy, sxx, sxy) =
     (let x = real i in fit_sums (Suc i) ys (sx + x, sy + y, sxx + x * x, sxy + x * y))"

definition Fit :: "double list \<Rightarrow> double \<times> double" where
  "Fit w =
     (let intercept = (if w = [] then 0 else last w); n = length w in
      if n < 3 then (0, intercept)
      else
        (let (sx, sy, sxx, sxy) = fit_sums 0 w (0, 0, 0, 0);
             denom = real n * sxx - sx * sx
         in if denom = 0 then (0, intercept)
            else (let slope = (real n * sxy - sx * sy) / denom
                  in (slope, (sy - slope * sx) / real n))))"

definition ad_Slope :: "adaptive \<Rightarrow> double" where
  "ad_Slope a = fst (Fit (adWindow a))"

definition ad_Forecast :: "adaptive \<Rightarrow> double" where
  "ad_Forecast a =
     (let (slope, intercept) = Fit (adWindow a) in
      if length (adWindow a) < 3 then intercept
      else (let lastX = real (length (adWindow a) - 1)
            in intercept + slope * (lastX + of_int (horizonSamples (adSettings a)))))"

definition clamp :: "double \<Rightarrow> double \<Rightarrow> double \<Rightarrow> double" where
  "clamp v lo hi = (if v < lo then lo else if hi < v then hi else v)"

definition ad_Offset :: "adaptive \<Rightarrow> sm_config \<Rightarrow> double \<Rightarrow> double" where
  "ad_Offset a base externalBias =
     (let offset0 = max externalBias 0;
          slope = ad_Slope a;
          offset = (if adEnabled (adSettings a) \<and> slope > 0 \<and>
                       ad_Forecast a \<ge> throttleThresholdPercent base
                    then offset0 + slope * of_int (horizonSamples (adSettings a)) else offset0);
          room = throttleThresholdPercent base - recoverThresholdPercent base - 1
      in clamp offset 0 (max 0 (min (maxAdjustPercent (adSettings a)) room)))"

definition ad_Adjust :: "adaptive \<Rightarrow> sm_config \<Rightarrow> double \<Rightarrow> sm_config" where
  "ad_Adjust a base externalBias =
     (let off = ad_Offset a base externalBias in
      base\<lparr>throttleThresholdPercent := throttleThresholdPercent base - off,
           escalateThresholdPercent := escalateThresholdPercent base - off\<rparr>)"

section \<open>The window\<close>

lemma pop_front_while_drop:
  "pop_front_while limit w = drop (length w - nat (max limit 1)) w"
proof (induction limit w rule: pop_front_while.induct)
  case (1 limit w)
  show ?case
  proof (cases "int (length w) > max limit 1")
    case True
    then have "nat (max limit 1) < length w" by linarith
    then have "length w - nat (max limit 1) = Suc (length (tl w) - nat (max limit 1))"
      by simp
    with 1 True show ?thesis
      by (subst pop_front_while.simps) (simp add: drop_Suc)
  next
    case False
    then have "length w \<le> nat (max limit 1)" by linarith
    with False show ?thesis by (subst pop_front_while.simps) auto
  qed
qed

lemma ad_AddSample_window:
  assumes "windowSamples (adSettings a) \<ge> 1"
  shows "adWindow (ad_AddSample x a) =
    drop (Suc (length (adWindow a)) - nat (windowSamples (adSettings a))) (adWindow a @ [x])"
  using assms by (simp add: ad_AddSample_def pop_front_while_drop max_def)

text \<open>After any number of samples the window is the latest \<open>windowSamples\<close> of them.\<close>

lemma ad_AddSample_latest:
  assumes "windowSamples (adSettings a) \<ge> 1"
    and "adWindow a = drop (length h - nat (windowSamples (adSettings a))) h"
  shows "adWindow (ad_AddSample x a) =
    drop (length (h @ [x]) - nat (windowSamples (adSettings a))) (h @ [x])"
proof -
  let ?n = "nat (windowSamples (adSettings a))"
  have "?n \<ge> 1" using assms(1) by simp
  then show ?thesis
    using assms by (cases "length h < ?n") (auto simp: ad_AddSample_window Suc_diff_le)
qed

section \<open>The fitted line\<close>

lemma fit_sums_eq:
  "fit_sums i ys (sx, sy, sxx, sxy) =
   (sx + (\<Sum>k = 0..<length ys. real (i + k)), sy + (\<Sum>k = 0..<length ys. ys ! k),
    sxx + (\<Sum>k = 0..<length ys. real (i + k) * real (i + k)),
    sxy + (\<Sum>k = 0..<length ys. real (i + k) * ys ! k))"
proof (induction ys arbitrary: i sx sy sxx sxy)
  case Nil
  then show ?case by simp
next
  case (Cons y ys)
  have shift: "(\<Sum>k = 0..<Suc n. f k) = f 0 + (\<Sum>k = 0..<n. f (Suc k))" for f :: "nat \<Rightarrow> real" and n
    by (subst sum.atLeast0_lessThan_Suc_shift) (simp add: comp_def)
  show ?case
    by (simp add: Cons.IH Let_def shift add_ac del: sum.op_ivl_Suc)
qed

lemma sum_index: "(\<Sum>k = 0..<n. real k) = real n * (real n - 1) / 2"
  by (induction n) (auto simp: field_simps)

lemma sum_index_sq: "(\<Sum>k = 0..<n. real k * real k) = real n * (real n - 1) * (2 * real n - 1) / 6"
  by (induction n) (auto simp: field_simps)

lemma denom_eq:
  "real n * (\<Sum>k = 0..<n. real k * real k) - (\<Sum>k = 0..<n. real k) * (\<Sum>k = 0..<n. real k) =
   real n * real n * (real n * real n - 1) / 12"
  by (simp add: sum_index sum_index_sq field_simps)

lemma denom_pos:
  assumes "3 \<le> n"
  shows "0 < real n * (\<Sum>k = 0..<n. real k * real k) - (\<Sum>k = 0..<n. real k) * (\<Sum>k = 0..<n. real k)"
proof -
  have "real n * real n > 1 * 1" using assms by (intro mult_strict_mono) auto
  then have "0 < real n * real n * (real n * real n - 1) / 12" using assms by simp
  then show ?thesis by (simp only: denom_eq)
qed

lemma Fit_long:
  fixes w :: "double list"
  defines "n \<equiv> length w"
  defines "sx \<equiv> \<Sum>k = 0..<n. real k" and "sy \<equiv> \<Sum>k = 0..<n. w ! k"
    and "sxx \<equiv> \<Sum>k = 0..<n. real k * real k" and "sxy \<equiv> \<Sum>k = 0..<n. real k * w ! k"
  assumes "3 \<le> length w"
  shows "Fit w = ((real n * sxy - sx * sy) / (real n * sxx - sx * sx),
    (sy - (real n * sxy - sx * sy) / (real n * sxx - sx * sx) * sx) / real n)"
proof -
  have "real n * sxx - sx * sx \<noteq> 0"
    using denom_pos [of n] assms(6) unfolding n_def sx_def sxx_def by simp
  then show ?thesis
    using assms(6)
    by (simp add: Fit_def fit_sums_eq Let_def n_def sx_def sy_def sxx_def sxy_def)
qed

text \<open>Readings that lie on a line are fitted exactly.\<close>

lemma Fit_line:
  assumes "3 \<le> n"
  shows "Fit (map (\<lambda>i. a + b * real i) [0..<n]) = (b, a)"
proof -
  let ?w = "map (\<lambda>i. a + b * real i) [0..<n]"
  let ?sx = "\<Sum>k = 0..<n. real k" and ?sxx = "\<Sum>k = 0..<n. real k * real k"
  have len: "length ?w = n" by simp
  have sy: "(\<Sum>k = 0..<n. ?w ! k) = real n * a + b * ?sx"
    by (simp add: sum.distrib sum_distrib_left)
  have sxy: "(\<Sum>k = 0..<n. real k * ?w ! k) = a * ?sx + b * ?sxx"
    by (simp add: sum.distrib sum_distrib_left algebra_simps)
  have d: "real n * ?sxx - ?sx * ?sx \<noteq> 0" using denom_pos [OF assms] by simp
  have num: "real n * (a * ?sx + b * ?sxx) - ?sx * (real n * a + b * ?sx) =
      b * (real n * ?sxx - ?sx * ?sx)"
    by (simp add: algebra_simps)
  have slope: "(real n * (a * ?sx + b * ?sxx) - ?sx * (real n * a + b * ?sx)) /
      (real n * ?sxx - ?sx * ?sx) = b"
    unfolding num by (rule nonzero_mult_div_cancel_right [OF d])
  have "Fit ?w = (b, (real n * a + b * ?sx - b * ?sx) / real n)"
    using Fit_long [of ?w] assms unfolding len sy sxy slope by simp
  then show ?thesis using assms by simp
qed

text \<open>Flat or falling readings never give a rising slope.\<close>

lemma Slope_falling:
  assumes "sorted_wrt (\<ge>) w"
  shows "fst (Fit w) \<le> 0"
proof (cases "length w < 3")
  case True
  then show ?thesis by (simp add: Fit_def Let_def)
next
  case False
  let ?n = "length w"
  have "real ?n * (\<Sum>k = 0..<?n. real k * w ! k) \<le> (\<Sum>k = 0..<?n. real k) * (\<Sum>k = 0..<?n. w ! k)"
    using assms by (intro Chebyshev_sum_upper) (auto simp: sorted_wrt_iff_nth_less le_less)
  then have "real ?n * (\<Sum>k = 0..<?n. real k * w ! k) - (\<Sum>k = 0..<?n. real k) * (\<Sum>k = 0..<?n. w ! k) \<le> 0"
    by simp
  moreover have "0 < real ?n * (\<Sum>k = 0..<?n. real k * real k) - (\<Sum>k = 0..<?n. real k) * (\<Sum>k = 0..<?n. real k)"
    using denom_pos [of ?n] False by simp
  ultimately show ?thesis
    using False by (simp add: Fit_long divide_nonpos_pos)
qed

section \<open>The adjusted thresholds\<close>

lemma ad_Offset_bounds:
  "0 \<le> ad_Offset a base bias"
  "ad_Offset a base bias \<le> max 0 (maxAdjustPercent (adSettings a))"
  "ad_Offset a base bias \<le> max 0 (throttleThresholdPercent base - recoverThresholdPercent base - 1)"
  by (auto simp: ad_Offset_def Let_def clamp_def max_def min_def)

lemma ad_Adjust_fields [simp]:
  "recoverThresholdPercent (ad_Adjust a base bias) = recoverThresholdPercent base"
  "throttleConsecutiveSamples (ad_Adjust a base bias) = throttleConsecutiveSamples base"
  "escalateConsecutiveSamples (ad_Adjust a base bias) = escalateConsecutiveSamples base"
  "recoverConsecutiveSamples (ad_Adjust a base bias) = recoverConsecutiveSamples base"
  "throttleThresholdPercent (ad_Adjust a base bias) = throttleThresholdPercent base - ad_Offset a base bias"
  "escalateThresholdPercent (ad_Adjust a base bias) = escalateThresholdPercent base - ad_Offset a base bias"
  by (simp_all add: ad_Adjust_def Let_def)

lemma ad_Adjust_hysteresis:
  assumes "recoverThresholdPercent base < throttleThresholdPercent base"
  shows "recoverThresholdPercent base < throttleThresholdPercent (ad_Adjust a base bias)"
    and "throttleThresholdPercent (ad_Adjust a base bias) - recoverThresholdPercent base
      \<ge> min 1 (throttleThresholdPercent base - recoverThresholdPercent base)"
  using assms ad_Offset_bounds(3) [of a base bias] by (auto simp: max_def min_def split: if_splits)

lemma ad_Adjust_idle:
  assumes "\<not> adEnabled (adSettings a) \<or> ad_Slope a \<le> 0 \<or> ad_Forecast a < throttleThresholdPercent base"
    and "bias \<le> 0"
  shows "ad_Adjust a base bias = base"
proof -
  have "ad_Offset a base bias = 0"
    using assms by (auto simp: ad_Offset_def Let_def clamp_def)
  then show ?thesis by (simp add: ad_Adjust_def)
qed

end
