(* ===== verification/CpuMath.thy ===== *)
theory CpuMath
  imports AdaptiveThresholds
begin

unbundle bit_operations_syntax

text \<open>
  \<open>src/telemetry/CpuMath.h/.cpp\<close>: 64-bit tick counts and the CPU percentage of a process.
\<close>

record filetime =
  dwLowDateTime :: dword
  dwHighDateTime :: dword

datatype cpu_normalization = PerCore | TotalSystem

definition FileTimeToUint64 :: "filetime \<Rightarrow> u64" where
  "FileTimeToUint64 ft =
     (push_bit 32 (ucast (dwHighDateTime ft) :: u64)) OR (ucast (dwLowDateTime ft) :: u64)"

definition CpuPercentFromTicks :: "u64 \<Rightarrow> u64 \<Rightarrow> dword \<Rightarrow> cpu_normalization \<Rightarrow> double" where
  "CpuPercentFromTicks processTicksDelta wallTicksDelta logicalCores normalization =
     (if wallTicksDelta = 0 then 0
      else
        (let cores = (if logicalCores = 0 then 1 else logicalCores);
             perCore = 100 * real (unat processTicksDelta) / real (unat wallTicksDelta)
         in case normalization of
              TotalSystem \<Rightarrow> clamp (perCore / real (unat cores)) 0 100
            | PerCore \<Rightarrow> clamp perCore 0 (100 * real (unat cores))))"

lemma FileTimeToUint64_value:
  "unat (FileTimeToUint64 ft) = unat (dwHighDateTime ft) * 2 ^ 32 + unat (dwLowDateTime ft)"
proof -
  let ?h = "dwHighDateTime ft" and ?l = "dwLowDateTime ft"
  have disj: "push_bit 32 (ucast ?h :: u64) AND (ucast ?l :: u64) = 0"
    by (intro bit_eqI) (auto simp: bit_simps dest: bit_imp_le_length)
  then have plus: "FileTimeToUint64 ft = push_bit 32 (ucast ?h) + ucast ?l"
    by (simp add: FileTimeToUint64_def disjunctive_add_eq_or)
  have h: "unat ?h < 2 ^ 32" and l: "unat ?l < 2 ^ 32"
    using unsigned_less [where 'a = nat and 'b = 32, of ?h] unsigned_less [where 'a = nat and 'b = 32, of ?l] by simp_all
  have "unat (push_bit 32 (ucast ?h :: u64)) = unat ?h * 2 ^ 32"
    using h by (simp add: push_bit_eq_mult unat_word_ariths unsigned_ucast_eq take_bit_eq_mod)
  moreover have "unat (ucast ?l :: u64) = unat ?l"
    using l by (simp add: unsigned_ucast_eq take_bit_eq_mod)
  ultimately show ?thesis
    using h l by (simp add: plus unat_word_ariths)
qed

lemma CpuPercent_bounds:
  "0 \<le> CpuPercentFromTicks p w c nz"
  "nz = TotalSystem \<Longrightarrow> CpuPercentFromTicks p w c nz \<le> 100"
  "nz = PerCore \<Longrightarrow> CpuPercentFromTicks p w c nz \<le> 100 * max 1 (real (unat c))"
  by (auto simp: CpuPercentFromTicks_def clamp_def Let_def max_def unat_eq_zero
      simp del: of_nat_unat split: cpu_normalization.splits)

end
