(* ===== verification/ProcessIdentity.thy ===== *)
theory ProcessIdentity
  imports CpuMath
begin

text \<open>
  \<open>src/telemetry/ProcessIdentity.h/.cpp\<close>: executable names may be pinned to a path and a
  publisher; processes that carry the name without matching are filtered out of the snapshot.
  What Windows answers during one call (may the process be opened, its times and image, does a
  file's signature verify, the signer's name) is the record \<open>id_env\<close>.
\<close>

section \<open>Definitions\<close>

record process_entry =
  peName :: wstring
  pePid :: dword

record expected_identity =
  eiPath :: wstring
  eiPublisher :: wstring

record observed_identity =
  oiPath :: wstring
  oiPublisher :: wstring

record rejection =
  rjEntry :: process_entry
  rjObserved :: observed_identity
  rjReason :: string

record cached =
  caStartTime :: u64
  caOk :: bool

record identity_filter =
  ifExpected :: "(wstring \<times> expected_identity) list"
  ifCache :: "(dword \<times> cached) list"

record id_env =
  ieOpen :: "dword \<Rightarrow> bool"
  ieTimes :: "dword \<Rightarrow> filetime option"
  ieImage :: "dword \<Rightarrow> wstring option"
  ieVerifies :: "wstring \<Rightarrow> bool"
  ieSigner :: "wstring \<Rightarrow> wstring option"

text \<open>\<open>std::towlower\<close> in the C locale (the program never calls \<open>setlocale\<close>).\<close>

definition towlower :: "char \<Rightarrow> char" where
  "towlower c = (if 65 \<le> (of_char c :: nat) \<and> (of_char c :: nat) \<le> 90 then char_of (of_char c + 32 :: nat) else c)"

definition Lower :: "wstring \<Rightarrow> wstring" where
  "Lower s = map towlower s"

definition StartTime :: "id_env \<Rightarrow> dword \<Rightarrow> u64" where
  "StartTime env pid =
     (if \<not> ieOpen env pid then 0
      else (case ieTimes env pid of
          None \<Rightarrow> 0
        | Some created \<Rightarrow>
            (push_bit 32 (ucast (dwHighDateTime created) :: u64)) OR (ucast (dwLowDateTime created))))"

definition ProcessImagePath :: "id_env \<Rightarrow> dword \<Rightarrow> wstring" where
  "ProcessImagePath env pid =
     (if \<not> ieOpen env pid then [] else (case ieImage env pid of None \<Rightarrow> [] | Some p \<Rightarrow> p))"

definition FilePublisher :: "id_env \<Rightarrow> wstring \<Rightarrow> wstring" where
  "FilePublisher env path =
     (if path = [] then []
      else if ieVerifies env path then (case ieSigner env path of None \<Rightarrow> [] | Some n \<Rightarrow> n)
      else [])"

definition IdentityMismatch :: "name_eq \<Rightarrow> expected_identity \<Rightarrow> observed_identity \<Rightarrow> string" where
  "IdentityMismatch ceq want got =
     (if eiPath want \<noteq> [] \<and> oiPath got = [] then ''image path could not be read''
      else if eiPath want \<noteq> [] \<and> \<not> ceq (eiPath want) (oiPath got) then
        ''runs from '' @ oiPath got @ '', expected '' @ eiPath want
      else if eiPublisher want \<noteq> [] \<and> oiPublisher got = [] then
        ''not signed by a trusted publisher''
      else if eiPublisher want \<noteq> [] \<and> \<not> ceq (eiPublisher want) (oiPublisher got) then
        ''signed by '' @ oiPublisher got @ '', expected '' @ eiPublisher want
      else [])"

definition if_SetExpected ::
  "(wstring \<times> expected_identity) list \<Rightarrow> identity_filter \<Rightarrow> identity_filter" where
  "if_SetExpected expected f =
     f\<lparr>ifExpected := foldl (\<lambda>m (name, i). amap_put (Lower name) i m) [] expected, ifCache := []\<rparr>"

definition if_Empty :: "identity_filter \<Rightarrow> bool" where
  "if_Empty f = (ifExpected f = [])"

definition observe :: "id_env \<Rightarrow> expected_identity \<Rightarrow> dword \<Rightarrow> observed_identity" where
  "observe env want pid =
     (let path = ProcessImagePath env pid in
      \<lparr>oiPath = path, oiPublisher = (if eiPublisher want \<noteq> [] then FilePublisher env path else [])\<rparr>)"

record filter_loop =
  flCache :: "(dword \<times> cached) list"
  flSeen :: "(dword \<times> cached) list"
  flOut :: "process_entry list"
  flRejected :: "rejection list"

definition filter_step ::
  "name_eq \<Rightarrow> id_env \<Rightarrow> (wstring \<times> expected_identity) list \<Rightarrow> process_entry \<Rightarrow> filter_loop \<Rightarrow> filter_loop" where
  "filter_step ceq env expected e s =
     (case map_of expected (Lower (peName e)) of
        None \<Rightarrow> s\<lparr>flOut := flOut s @ [e]\<rparr>
      | Some want \<Rightarrow>
          (let start = StartTime env (pePid e);
               hit = (case map_of (flCache s) (pePid e) of
                   None \<Rightarrow> None
                 | Some c \<Rightarrow> if caStartTime c \<noteq> start then None else Some c);
               got = observe env want (pePid e);
               reason = IdentityMismatch ceq want got;
               c = (case hit of Some c \<Rightarrow> c | None \<Rightarrow> \<lparr>caStartTime = start, caOk = (reason = [])\<rparr>);
               s1 = (case hit of
                   Some _ \<Rightarrow> s
                 | None \<Rightarrow> s\<lparr>flCache := amap_put (pePid e) c (flCache s),
                     flRejected := (if \<not> caOk c
                       then flRejected s @ [\<lparr>rjEntry = e, rjObserved = got, rjReason = reason\<rparr>]
                       else flRejected s)\<rparr>)
           in s1\<lparr>flSeen := amap_put (pePid e) c (flSeen s),
                 flOut := (if caOk c then flOut s @ [e] else flOut s)\<rparr>))"

definition if_Filter ::
  "name_eq \<Rightarrow> id_env \<Rightarrow> process_entry list \<Rightarrow> identity_filter
     \<Rightarrow> process_entry list \<times> rejection list \<times> identity_filter" where
  "if_Filter ceq env snapshot f =
     (if ifExpected f = [] then (snapshot, [], f)
      else
        (let s = fold (filter_step ceq env (ifExpected f)) snapshot
               \<lparr>flCache = ifCache f, flSeen = [], flOut = [], flRejected = []\<rparr>
         in (flOut s, flRejected s, f\<lparr>ifCache := flSeen s\<rparr>)))"

section \<open>The filter without its cache\<close>

definition passes ::
  "name_eq \<Rightarrow> id_env \<Rightarrow> (wstring \<times> expected_identity) list \<Rightarrow> process_entry \<Rightarrow> bool" where
  "passes ceq env expected e =
     (case map_of expected (Lower (peName e)) of
        None \<Rightarrow> True
      | Some want \<Rightarrow> IdentityMismatch ceq want (observe env want (pePid e)) = [])"

definition cache_hit :: "id_env \<Rightarrow> (dword \<times> cached) list \<Rightarrow> process_entry \<Rightarrow> bool" where
  "cache_hit env cache e =
     (\<exists>c. map_of cache (pePid e) = Some c \<and> caStartTime c = StartTime env (pePid e))"

text \<open>
  A snapshot taken while \<open>env\<close> held.  A process is its identifier together with its creation time:
  Windows reuses identifiers, but not with the same creation time, and a process keeps its image
  for life.
\<close>

type_synonym poll = "id_env \<times> process_entry list"

definition same_process :: "poll \<Rightarrow> poll \<Rightarrow> bool" where
  "same_process p q = (\<forall>e \<in> set (snd p). \<forall>e' \<in> set (snd q).
     pePid e = pePid e' \<and> StartTime (fst p) (pePid e) = StartTime (fst q) (pePid e) \<longrightarrow>
     Lower (peName e) = Lower (peName e') \<and>
     ProcessImagePath (fst p) (pePid e) = ProcessImagePath (fst q) (pePid e) \<and>
     FilePublisher (fst p) (ProcessImagePath (fst p) (pePid e)) =
       FilePublisher (fst q) (ProcessImagePath (fst q) (pePid e)))"

lemma same_process_passes:
  assumes "same_process p q" and "e \<in> set (snd p)" and "e' \<in> set (snd q)" and "pePid e = pePid e'"
    and "StartTime (fst p) (pePid e) = StartTime (fst q) (pePid e')"
  shows "passes ceq (fst p) expected e = passes ceq (fst q) expected e'"
proof -
  have "Lower (peName e) = Lower (peName e')"
    "ProcessImagePath (fst p) (pePid e) = ProcessImagePath (fst q) (pePid e')"
    "FilePublisher (fst p) (ProcessImagePath (fst p) (pePid e)) =
       FilePublisher (fst q) (ProcessImagePath (fst q) (pePid e'))"
    using assms unfolding same_process_def by metis+
  then show ?thesis by (simp add: passes_def observe_def Let_def split: option.splits)
qed

text \<open>What the cache promises about the processes of a later poll.\<close>

definition cache_sound ::
  "name_eq \<Rightarrow> (wstring \<times> expected_identity) list \<Rightarrow> poll \<Rightarrow> (dword \<times> cached) list \<Rightarrow> bool" where
  "cache_sound ceq expected p cache = (\<forall>e \<in> set (snd p). \<forall>c.
     map_of cache (pePid e) = Some c \<and> caStartTime c = StartTime (fst p) (pePid e) \<longrightarrow>
     caOk c = passes ceq (fst p) expected e)"

lemma filter_step_fields:
  assumes "\<forall>c. map_of (flCache s) (pePid e) = Some c \<and> caStartTime c = StartTime env (pePid e) \<longrightarrow>
    caOk c = passes ceq env expected e"
  shows "flOut (filter_step ceq env expected e s) =
      flOut s @ (if passes ceq env expected e then [e] else [])"
    and "map_of (flCache (filter_step ceq env expected e s)) =
      (if map_of expected (Lower (peName e)) = None \<or> cache_hit env (flCache s) e
       then map_of (flCache s)
       else (map_of (flCache s))(pePid e \<mapsto>
         \<lparr>caStartTime = StartTime env (pePid e), caOk = passes ceq env expected e\<rparr>))"
    and "map_of (flSeen (filter_step ceq env expected e s)) =
      (if map_of expected (Lower (peName e)) = None then map_of (flSeen s)
       else (map_of (flSeen s))(pePid e \<mapsto>
         \<lparr>caStartTime = StartTime env (pePid e), caOk = passes ceq env expected e\<rparr>))"
    and "map rjEntry (flRejected (filter_step ceq env expected e s)) =
      map rjEntry (flRejected s) @
      (if passes ceq env expected e \<or> cache_hit env (flCache s) e then [] else [e])"
  using assms
  by (auto simp: filter_step_def passes_def cache_hit_def Let_def amap.lookup_put map_of_amap_put
      split: option.splits if_splits)

definition pinned :: "(wstring \<times> expected_identity) list \<Rightarrow> process_entry \<Rightarrow> bool" where
  "pinned expected e = (map_of expected (Lower (peName e)) \<noteq> None)"

text \<open>What running a list of distinct entries through the loop adds to each of its lists.\<close>

definition filtered ::
  "name_eq \<Rightarrow> id_env \<Rightarrow> (wstring \<times> expected_identity) list \<Rightarrow> process_entry list \<Rightarrow> filter_loop \<Rightarrow> filter_loop \<Rightarrow> bool" where
  "filtered ceq env expected snap s t \<longleftrightarrow>
     flOut t = flOut s @ filter (passes ceq env expected) snap \<and>
     map rjEntry (flRejected t) = map rjEntry (flRejected s) @
       filter (\<lambda>e. \<not> passes ceq env expected e \<and> \<not> cache_hit env (flCache s) e) snap \<and>
     (\<forall>pid. (\<forall>e \<in> set snap. pePid e \<noteq> pid) \<longrightarrow> map_of (flSeen t) pid = map_of (flSeen s) pid) \<and>
     (\<forall>e \<in> set snap. map_of (flSeen t) (pePid e) =
       (if pinned expected e
        then Some \<lparr>caStartTime = StartTime env (pePid e), caOk = passes ceq env expected e\<rparr>
        else map_of (flSeen s) (pePid e)))"

lemma filteredD:
  assumes "filtered ceq env expected snap s t"
  shows "flOut t = flOut s @ filter (passes ceq env expected) snap"
    and "map rjEntry (flRejected t) = map rjEntry (flRejected s) @
      filter (\<lambda>e. \<not> passes ceq env expected e \<and> \<not> cache_hit env (flCache s) e) snap"
    and "\<forall>e \<in> set snap. pePid e \<noteq> pid \<Longrightarrow> map_of (flSeen t) pid = map_of (flSeen s) pid"
    and "e \<in> set snap \<Longrightarrow> map_of (flSeen t) (pePid e) =
      (if pinned expected e
       then Some \<lparr>caStartTime = StartTime env (pePid e), caOk = passes ceq env expected e\<rparr>
       else map_of (flSeen s) (pePid e))"
  using assms by (auto simp: filtered_def)

lemma filter_fold:
  assumes "distinct (map pePid snap)"
    and "\<forall>e \<in> set snap. \<forall>c. map_of (flCache s) (pePid e) = Some c \<and>
      caStartTime c = StartTime env (pePid e) \<longrightarrow> caOk c = passes ceq env expected e"
  shows "filtered ceq env expected snap s (fold (filter_step ceq env expected) snap s)"
  using assms
proof (induction snap arbitrary: s)
  case Nil
  then show ?case by (simp add: filtered_def)
next
  case (Cons x xs)
  let ?t = "filter_step ceq env expected x s"
  have hx: "\<forall>c. map_of (flCache s) (pePid x) = Some c \<and> caStartTime c = StartTime env (pePid x) \<longrightarrow>
      caOk c = passes ceq env expected x"
    using Cons.prems(2) by simp
  note f = filter_step_fields [OF hx]
  have dx: "\<forall>e \<in> set xs. pePid e \<noteq> pePid x"
    using Cons.prems(1) by (metis distinct.simps(2) image_eqI list.simps(9) set_map)
  have keep: "map_of (flCache ?t) (pePid e) = map_of (flCache s) (pePid e)" if "e \<in> set xs" for e
    using that dx by (simp add: f(2))
  then have flt: "filter (\<lambda>e. \<not> passes ceq env expected e \<and> \<not> cache_hit env (flCache ?t) e) xs =
      filter (\<lambda>e. \<not> passes ceq env expected e \<and> \<not> cache_hit env (flCache s) e) xs"
    by (intro filter_cong) (simp_all add: cache_hit_def)
  have "\<forall>e \<in> set xs. \<forall>c. map_of (flCache ?t) (pePid e) = Some c \<and>
      caStartTime c = StartTime env (pePid e) \<longrightarrow> caOk c = passes ceq env expected e"
    using Cons.prems(2) keep by simp
  with Cons.IH [of ?t] Cons.prems(1) have ih: "filtered ceq env expected xs ?t (fold (filter_step ceq env expected) xs ?t)"
    by simp
  show ?case
    unfolding filtered_def
  proof (intro conjI allI impI ballI)
    fix pid assume "\<forall>e \<in> set (x # xs). pePid e \<noteq> pid"
    then show "map_of (flSeen (fold (filter_step ceq env expected) (x # xs) s)) pid = map_of (flSeen s) pid"
      using ih by (auto simp: filtered_def f(3))
  next
    fix e assume "e \<in> set (x # xs)"
    then show "map_of (flSeen (fold (filter_step ceq env expected) (x # xs) s)) (pePid e) =
      (if pinned expected e
       then Some \<lparr>caStartTime = StartTime env (pePid e), caOk = passes ceq env expected e\<rparr>
       else map_of (flSeen s) (pePid e))"
      using ih dx by (auto simp: filtered_def f(3) pinned_def)
  qed (use ih in \<open>simp_all add: filtered_def f(1,4) flt\<close>)
qed

text \<open>One call, for a cache that is sound for its processes.\<close>

lemma Filter_spec:
  assumes "distinct (map pePid snap)" and "cache_sound ceq (ifExpected f) (env, snap) (ifCache f)"
    and "if_Filter ceq env snap f = (out, rejected, f')"
  shows "out = filter (passes ceq env (ifExpected f)) snap"
    and "map rjEntry rejected =
      filter (\<lambda>e. \<not> passes ceq env (ifExpected f) e \<and> \<not> cache_hit env (ifCache f) e) snap"
    and "ifExpected f' = ifExpected f"
    and "ifExpected f \<noteq> [] \<Longrightarrow> map_of (ifCache f') pid = Some c \<Longrightarrow>
      \<exists>e \<in> set snap. pePid e = pid \<and> caStartTime c = StartTime env pid \<and>
        caOk c = passes ceq env (ifExpected f) e"
    and "ifExpected f \<noteq> [] \<Longrightarrow> e \<in> set snap \<Longrightarrow> pinned (ifExpected f) e \<Longrightarrow> cache_hit env (ifCache f') e"
proof -
  let ?s = "\<lparr>flCache = ifCache f, flSeen = [], flOut = [], flRejected = []\<rparr>"
  have c: "\<forall>e \<in> set snap. \<forall>c. map_of (flCache ?s) (pePid e) = Some c \<and>
      caStartTime c = StartTime env (pePid e) \<longrightarrow> caOk c = passes ceq env (ifExpected f) e"
    using assms(2) by (auto simp: cache_sound_def)
  note ff = filteredD [OF filter_fold [OF assms(1) c]]
  show "out = filter (passes ceq env (ifExpected f)) snap"
    using assms(3) ff(1)
    by (auto simp: if_Filter_def Let_def passes_def filter_True split: if_splits)
  show "map rjEntry rejected =
      filter (\<lambda>e. \<not> passes ceq env (ifExpected f) e \<and> \<not> cache_hit env (ifCache f) e) snap"
    using assms(3) ff(2)
    by (auto simp: if_Filter_def Let_def passes_def filter_False split: if_splits)
  show "ifExpected f' = ifExpected f"
    using assms(3) by (auto simp: if_Filter_def Let_def split: if_splits)
  assume ne: "ifExpected f \<noteq> []"
  then have f': "ifCache f' = flSeen (fold (filter_step ceq env (ifExpected f)) snap ?s)"
    using assms(3) by (auto simp: if_Filter_def Let_def)
  show "\<exists>e \<in> set snap. pePid e = pid \<and> caStartTime c = StartTime env pid \<and>
        caOk c = passes ceq env (ifExpected f) e" if m: "map_of (ifCache f') pid = Some c"
  proof (cases "\<exists>e \<in> set snap. pePid e = pid")
    case True
    then obtain e where e: "e \<in> set snap" "pePid e = pid" by blast
    then show ?thesis
      using that ff(4) [OF e(1)] by (intro bexI [OF _ e(1)]) (auto simp: f' split: if_splits)
  next
    case False
    then show ?thesis using that ff(3) [of pid] by (auto simp: f')
  qed
  assume e: "e \<in> set snap" and pin: "pinned (ifExpected f) e"
  show "cache_hit env (ifCache f') e"
    using pin ff(4) [OF e] by (simp add: f' cache_hit_def)
qed

section \<open>A run of polls\<close>

fun filter_run ::
  "name_eq \<Rightarrow> poll list \<Rightarrow> identity_filter \<Rightarrow> (process_entry list \<times> rejection list) list" where
  "filter_run ceq [] f = []"
| "filter_run ceq (p # ps) f =
     (let (out, rejected, f') = if_Filter ceq (fst p) (snd p) f
      in (out, rejected) # filter_run ceq ps f')"

definition polls_ok :: "poll list \<Rightarrow> bool" where
  "polls_ok ps = ((\<forall>p \<in> set ps. distinct (map pePid (snd p))) \<and>
     (\<forall>p \<in> set ps. \<forall>q \<in> set ps. same_process p q))"

lemma Filter_keeps_sound:
  assumes "distinct (map pePid (snd p))" and "cache_sound ceq (ifExpected f) p (ifCache f)"
    and "if_Filter ceq (fst p) (snd p) f = (out, rejected, f')" and "same_process p q"
  shows "ifExpected f = [] \<or> cache_sound ceq (ifExpected f) q (ifCache f')"
proof (cases "ifExpected f = []")
  case False
  have p: "cache_sound ceq (ifExpected f) (fst p, snd p) (ifCache f)" using assms(2) by simp
  have "caOk c = passes ceq (fst q) (ifExpected f) e'"
    if e': "e' \<in> set (snd q)" and m: "map_of (ifCache f') (pePid e') = Some c"
      and st: "caStartTime c = StartTime (fst q) (pePid e')" for e' c
  proof -
    obtain e where e: "e \<in> set (snd p)" "pePid e = pePid e'"
        "caStartTime c = StartTime (fst p) (pePid e')" "caOk c = passes ceq (fst p) (ifExpected f) e"
      using Filter_spec(4) [OF assms(1) p assms(3) False m] by blast
    then show ?thesis
      using same_process_passes [OF assms(4) e(1) e' e(2)] e st by simp
  qed
  then show ?thesis by (auto simp: cache_sound_def)
qed simp

lemma filter_run_spec:
  assumes "polls_ok ps" and "ifExpected f \<noteq> []" and "\<forall>p \<in> set ps. cache_sound ceq (ifExpected f) p (ifCache f)"
  shows "map fst (filter_run ceq ps f) = map (\<lambda>p. filter (passes ceq (fst p) (ifExpected f)) (snd p)) ps"
  using assms
proof (induction ps arbitrary: f)
  case Nil
  then show ?case by simp
next
  case (Cons p ps)
  obtain out rejected f' where r: "if_Filter ceq (fst p) (snd p) f = (out, rejected, f')"
    by (metis prod_cases3)
  have d: "distinct (map pePid (snd p))" and s: "cache_sound ceq (ifExpected f) p (ifCache f)"
    using Cons.prems by (auto simp: polls_ok_def)
  then have s': "cache_sound ceq (ifExpected f) (fst p, snd p) (ifCache f)" by simp
  have e: "ifExpected f' = ifExpected f" by (rule Filter_spec(3) [OF d s' r])
  have "\<forall>q \<in> set ps. cache_sound ceq (ifExpected f') q (ifCache f')"
    using Filter_keeps_sound [OF d s r] Cons.prems(1,2) by (auto simp: polls_ok_def e)
  moreover have "polls_ok ps" using Cons.prems(1) by (auto simp: polls_ok_def)
  ultimately show ?case
    using Cons.IH [of f'] Cons.prems(2) Filter_spec(1) [OF d s' r] by (simp add: r e)
qed

text \<open>A process that was present in the previous poll is not reported again.\<close>

lemma Filter_reports_once:
  assumes "distinct (map pePid (snd p))" "distinct (map pePid (snd q))"
    and "cache_sound ceq (ifExpected f) p (ifCache f)" and "ifExpected f \<noteq> []" and "same_process p q"
    and "if_Filter ceq (fst p) (snd p) f = (out, rejected, f')"
    and "if_Filter ceq (fst q) (snd q) f' = (out', rejected', f'')"
    and "r \<in> set rejected'" and "e \<in> set (snd p)" and "pePid e = pePid (rjEntry r)"
  shows "StartTime (fst p) (pePid e) \<noteq> StartTime (fst q) (pePid e)"
proof
  assume st: "StartTime (fst p) (pePid e) = StartTime (fst q) (pePid e)"
  have p: "cache_sound ceq (ifExpected f) (fst p, snd p) (ifCache f)" using assms(3) by simp
  have ex: "ifExpected f' = ifExpected f" by (rule Filter_spec(3) [OF assms(1) p assms(6)])
  have q: "cache_sound ceq (ifExpected f') (fst q, snd q) (ifCache f')"
    using Filter_keeps_sound [OF assms(1,3,6,5)] assms(4) by (simp add: ex)
  have "rjEntry r \<in> set (map rjEntry rejected')" using assms(8) by simp
  then have r: "rjEntry r \<in> set (snd q)" "\<not> passes ceq (fst q) (ifExpected f') (rjEntry r)"
      "\<not> cache_hit (fst q) (ifCache f') (rjEntry r)"
    using Filter_spec(2) [OF assms(2) q assms(7)] by auto
  then have "pinned (ifExpected f) (rjEntry r)" by (auto simp: passes_def pinned_def ex split: option.splits)
  moreover have "Lower (peName e) = Lower (peName (rjEntry r))"
    using assms(5,9,10) r(1) st unfolding same_process_def by blast
  ultimately have "pinned (ifExpected f) e" by (simp add: pinned_def)
  then have "cache_hit (fst p) (ifCache f') e"
    using Filter_spec(5) [OF assms(1) p assms(6) assms(4) assms(9)] by simp
  then show False using r(3) st assms(10) by (auto simp: cache_hit_def)
qed

end
