(* ===== verification/ProcessMonitor.thy ===== *)
theory ProcessMonitor
  imports ProcessIdentity "HOL-Library.Multiset"
begin

text \<open>
  \<open>src/telemetry/ProcessMonitor.h/.cpp\<close>: one executable name is followed through the processes
  that carry it.  A handle is a number the operating system hands out; what it answers during one
  poll is the record \<open>mon_env\<close>, and the handles opened and closed are recorded as a list.
\<close>

section \<open>Definitions\<close>

type_synonym handle = nat

record process_sample =
  psName :: wstring
  psPid :: dword
  psValid :: bool
  psCpuPercent :: double
  psWorkingSetMb :: double
  psIoMbPerSec :: double

datatype lifecycle_kind = LkAcquired | LkExited | LkCrashed | LkRestarted | LkAccessDenied

record lifecycle_event =
  leKind :: lifecycle_kind
  leName :: wstring
  lePid :: dword
  lePreviousPid :: dword
  leExitCode :: dword

record inst =
  inHandle :: handle
  inLastCpuTicks :: u64
  inLastWallTicks :: u64
  inLastIoBytes :: u64
  inPrimed :: bool

record tracked =
  tkName :: wstring
  tkNormalization :: cpu_normalization
  tkCores :: dword
  tkInstances :: "(dword \<times> inst) list"
  tkDenied :: "(dword \<times> bool) list"
  tkLastExitedPid :: dword

record mon_env =
  meSignalled :: "handle \<Rightarrow> bool"
  meExitCode :: "handle \<Rightarrow> dword"
  meOpen :: "dword \<Rightarrow> handle option"
  meDenied :: "dword \<Rightarrow> bool"
  meTimes :: "handle \<Rightarrow> (filetime \<times> filetime) option"
  meNow :: "handle \<Rightarrow> filetime"
  meIo :: "handle \<Rightarrow> (u64 \<times> u64 \<times> u64) option"
  meWorkingSet :: "handle \<Rightarrow> u64 option"

datatype handle_op = HOpen handle | HClose handle

definition kMb :: double where
  "kMb = 1024 * 1024"

text \<open>The Toolhelp snapshot; \<open>None\<close> when it cannot be taken.\<close>

definition SnapshotProcesses :: "(wstring \<times> dword) list option \<Rightarrow> process_entry list" where
  "SnapshotProcesses snap = (case snap of
      None \<Rightarrow> [] | Some es \<Rightarrow> map (\<lambda>(exe, pid). \<lparr>peName = exe, pePid = pid\<rparr>) es)"

definition FindByName :: "name_eq \<Rightarrow> process_entry list \<Rightarrow> wstring \<Rightarrow> dword list" where
  "FindByName ceq snapshot name = map pePid (filter (\<lambda>e. ceq (peName e) name) snapshot)"

definition new_tracked :: "wstring \<Rightarrow> cpu_normalization \<Rightarrow> dword \<Rightarrow> tracked" where
  "new_tracked name n cores = \<lparr>tkName = name, tkNormalization = n, tkCores = cores,
     tkInstances = [], tkDenied = [], tkLastExitedPid = 0\<rparr>"

definition tk_SetNormalization :: "cpu_normalization \<Rightarrow> tracked \<Rightarrow> tracked" where
  "tk_SetNormalization n t = t\<lparr>tkNormalization := n\<rparr>"

text \<open>The destructor closes the handles still held.\<close>

definition tk_destroy :: "tracked \<Rightarrow> handle_op list" where
  "tk_destroy t = map (\<lambda>(pid, i). HClose (inHandle i)) (tkInstances t)"

definition exit_event :: "mon_env \<Rightarrow> wstring \<Rightarrow> dword \<Rightarrow> inst \<Rightarrow> lifecycle_event" where
  "exit_event env name pid i =
     (let code = meExitCode env (inHandle i) in
      \<lparr>leKind = (if code = 0 then LkExited else LkCrashed), leName = name, lePid = pid,
       lePreviousPid = 0, leExitCode = code\<rparr>)"

fun drop_exited ::
  "mon_env \<Rightarrow> wstring \<Rightarrow> (dword \<times> inst) list \<Rightarrow> dword
     \<Rightarrow> (dword \<times> inst) list \<times> lifecycle_event list \<times> handle_op list \<times> dword" where
  "drop_exited env name [] lastPid = ([], [], [], lastPid)"
| "drop_exited env name ((pid, i) # is) lastPid =
     (if meSignalled env (inHandle i) then
        (let (kept, evs, ops, l) = drop_exited env name is pid
         in (kept, exit_event env name pid i # evs, HClose (inHandle i) # ops, l))
      else
        (let (kept, evs, ops, l) = drop_exited env name is lastPid in ((pid, i) # kept, evs, ops, l)))"

definition acquire :: "mon_env \<Rightarrow> dword \<Rightarrow> tracked \<Rightarrow> tracked \<times> lifecycle_event list \<times> handle_op list" where
  "acquire env pid t =
     (if amap_has pid (tkInstances t) then (t, [], [])
      else (case meOpen env pid of
          None \<Rightarrow>
            if meDenied env pid then
              (if map_of (tkDenied t) pid = Some True then (t, [], [])
               else (t\<lparr>tkDenied := omap_put pid True (tkDenied t)\<rparr>,
                     [\<lparr>leKind = LkAccessDenied, leName = tkName t, lePid = pid, lePreviousPid = 0,
                       leExitCode = 0\<rparr>], []))
            else (t, [], [])
        | Some h \<Rightarrow>
            (let restart = (tkInstances t = [] \<and> tkLastExitedPid t \<noteq> 0 \<and> tkLastExitedPid t \<noteq> pid) in
             (t\<lparr>tkDenied := amap_erase pid (tkDenied t), tkLastExitedPid := 0,
                tkInstances := omap_put pid \<lparr>inHandle = h, inLastCpuTicks = 0, inLastWallTicks = 0,
                  inLastIoBytes = 0, inPrimed = False\<rparr> (tkInstances t)\<rparr>,
              [\<lparr>leKind = (if restart then LkRestarted else LkAcquired), leName = tkName t, lePid = pid,
                lePreviousPid = (if restart then tkLastExitedPid t else 0), leExitCode = 0\<rparr>],
              [HOpen h]))))"

fun acquire_all ::
  "mon_env \<Rightarrow> dword list \<Rightarrow> tracked \<Rightarrow> tracked \<times> lifecycle_event list \<times> handle_op list" where
  "acquire_all env [] t = (t, [], [])"
| "acquire_all env (pid # pids) t =
     (let (t1, evs1, ops1) = acquire env pid t; (t2, evs2, ops2) = acquire_all env pids t1
      in (t2, evs1 @ evs2, ops1 @ ops2))"

definition SampleInstance ::
  "mon_env \<Rightarrow> dword \<Rightarrow> cpu_normalization \<Rightarrow> inst \<Rightarrow> process_sample \<Rightarrow> (inst \<times> process_sample) option" where
  "SampleInstance env cores nz i out =
     (case meTimes env (inHandle i) of
        None \<Rightarrow> None
      | Some (kernelT, user) \<Rightarrow>
          (let cpu = FileTimeToUint64 kernelT + FileTimeToUint64 user;
               wall = FileTimeToUint64 (meNow env (inHandle i));
               ioBytes = (case meIo env (inHandle i) of None \<Rightarrow> 0 | Some (r, w, x) \<Rightarrow> r + w + x);
               out1 = (case meWorkingSet env (inHandle i) of
                   None \<Rightarrow> out | Some b \<Rightarrow> out\<lparr>psWorkingSetMb := real (unat b) / kMb\<rparr>);
               wallDelta = wall - inLastWallTicks i;
               out2 = (if inPrimed i \<and> wall > inLastWallTicks i then
                   out1\<lparr>psCpuPercent := CpuPercentFromTicks (cpu - inLastCpuTicks i) wallDelta cores nz,
                     psIoMbPerSec := (if ioBytes \<ge> inLastIoBytes i
                       then real (unat (ioBytes - inLastIoBytes i)) / kMb / (real (unat wallDelta) / 10 ^ 7)
                       else 0),
                     psValid := True\<rparr>
                 else out1)
           in Some (i\<lparr>inLastCpuTicks := cpu, inLastWallTicks := wall, inLastIoBytes := ioBytes,
                      inPrimed := True\<rparr>, out2)))"

fun sample_all ::
  "mon_env \<Rightarrow> tracked \<Rightarrow> (dword \<times> inst) list \<Rightarrow> (dword \<times> inst) list \<times> process_sample list" where
  "sample_all env t [] = ([], [])"
| "sample_all env t ((pid, i) # is) =
     (let (is', samples) = sample_all env t is;
          s = \<lparr>psName = tkName t, psPid = pid, psValid = False, psCpuPercent = 0,
               psWorkingSetMb = 0, psIoMbPerSec = 0\<rparr>
      in case SampleInstance env (tkCores t) (tkNormalization t) i s of
           None \<Rightarrow> ((pid, i) # is', samples)
         | Some (i', s') \<Rightarrow> ((pid, i') # is', s' # samples))"

definition tk_Poll ::
  "name_eq \<Rightarrow> mon_env \<Rightarrow> process_entry list \<Rightarrow> tracked
     \<Rightarrow> process_sample list \<times> lifecycle_event list \<times> handle_op list \<times> tracked" where
  "tk_Poll ceq env snapshot t0 =
     (let (kept, evs1, ops1, l) = drop_exited env (tkName t0) (tkInstances t0) (tkLastExitedPid t0);
          t1 = t0\<lparr>tkInstances := kept, tkLastExitedPid := l\<rparr>;
          (t2, evs2, ops2) = acquire_all env (FindByName ceq snapshot (tkName t1)) t1;
          (is', samples) = sample_all env t2 (tkInstances t2)
      in (samples, evs1 @ evs2, ops1 @ ops2, t2\<lparr>tkInstances := is'\<rparr>))"

text \<open>The daemon's own footprint, measured the same way.\<close>

record self_monitor =
  sfLastCpu :: u64
  sfLastWall :: u64

definition SystemMemoryLoadPercent :: "dword option \<Rightarrow> double" where
  "SystemMemoryLoadPercent load = (case load of None \<Rightarrow> 0 | Some l \<Rightarrow> real (unat l))"

definition self_Sample :: "filetime \<Rightarrow> filetime \<Rightarrow> filetime \<Rightarrow> self_monitor \<Rightarrow> double \<times> self_monitor" where
  "self_Sample kernelT user now m =
     (let cpu = FileTimeToUint64 kernelT + FileTimeToUint64 user; wall = FileTimeToUint64 now
      in (if sfLastWall m = 0 then 0
          else CpuPercentFromTicks (cpu - sfLastCpu m) (wall - sfLastWall m) 1 PerCore,
          \<lparr>sfLastCpu = cpu, sfLastWall = wall\<rparr>))"

text \<open>The constructor takes a first sample and discards it, so that the next one has a span to measure.\<close>

definition new_self_monitor :: "filetime \<Rightarrow> filetime \<Rightarrow> filetime \<Rightarrow> self_monitor" where
  "new_self_monitor kernelT user now = snd (self_Sample kernelT user now \<lparr>sfLastCpu = 0, sfLastWall = 0\<rparr>)"

lemma first_self_sample:
  "fst (self_Sample k u now (new_self_monitor k0 u0 now0)) =
     (if FileTimeToUint64 now0 = 0 then 0
      else CpuPercentFromTicks (FileTimeToUint64 k + FileTimeToUint64 u - (FileTimeToUint64 k0 + FileTimeToUint64 u0))
        (FileTimeToUint64 now - FileTimeToUint64 now0) 1 PerCore)"
  by (simp add: self_Sample_def new_self_monitor_def Let_def)

section \<open>Handles\<close>

definition held :: "tracked \<Rightarrow> handle multiset" where
  "held t = mset (map (inHandle \<circ> snd) (tkInstances t))"

definition opened :: "handle_op list \<Rightarrow> handle multiset" where
  "opened ops = mset (List.map_filter (\<lambda>e. case e of HOpen h \<Rightarrow> Some h | _ \<Rightarrow> None) ops)"

definition closed :: "handle_op list \<Rightarrow> handle multiset" where
  "closed ops = mset (List.map_filter (\<lambda>e. case e of HClose h \<Rightarrow> Some h | _ \<Rightarrow> None) ops)"

lemma opened_simps [simp]:
  "opened [] = {#}" "opened (HOpen h # ops) = add_mset h (opened ops)"
  "opened (HClose h # ops) = opened ops" "opened (ops @ ops') = opened ops + opened ops'"
  by (simp_all add: opened_def List.map_filter_def)

lemma closed_simps [simp]:
  "closed [] = {#}" "closed (HOpen h # ops) = closed ops"
  "closed (HClose h # ops) = add_mset h (closed ops)" "closed (ops @ ops') = closed ops + closed ops'"
  by (simp_all add: closed_def List.map_filter_def)

lemma drop_exited_handles:
  "drop_exited env name is l = (kept, evs, ops, l') \<Longrightarrow>
   mset (map (inHandle \<circ> snd) is) + opened ops = mset (map (inHandle \<circ> snd) kept) + closed ops"
  by (induction env name "is" l arbitrary: kept evs ops l' rule: drop_exited.induct)
    (auto simp: Let_def split: if_splits prod.splits)

lemma omap_put_new_mset:
  "map_of m k = None \<Longrightarrow> mset (map f (omap_put k v m)) = add_mset (f (k, v)) (mset (map f m))"
  by (induction m) (auto split: if_splits)

lemma acquire_handles:
  "acquire env pid t = (t', evs, ops) \<Longrightarrow> held t + opened ops = held t' + closed ops"
  by (auto simp: acquire_def held_def Let_def amap_has_def omap_put_new_mset
      split: if_splits option.splits simp del: mset_map)

lemma acquire_all_handles:
  "acquire_all env pids t = (t', evs, ops) \<Longrightarrow> held t + opened ops = held t' + closed ops"
proof (induction pids arbitrary: t evs ops)
  case Nil
  then show ?case by simp
next
  case (Cons pid pids)
  obtain t1 e1 o1 where a: "acquire env pid t = (t1, e1, o1)" by (metis prod_cases3)
  obtain e2 o2 where b: "acquire_all env pids t1 = (t', e2, o2)" "ops = o1 @ o2"
    using Cons.prems by (auto simp: a Let_def split: prod.splits)
  have "held t + opened o1 + opened o2 = held t' + (closed o1 + closed o2)"
    using acquire_handles [OF a] Cons.IH [OF b(1)] by (metis add.assoc add.commute)
  then show ?case by (simp add: b(2) add.assoc)
qed

lemma SampleInstance_handle:
  "SampleInstance env cores nz i s = Some (i', s') \<Longrightarrow> inHandle i' = inHandle i"
  by (auto simp: SampleInstance_def Let_def split: option.splits)

lemma sample_all_handles:
  "map (inHandle \<circ> snd) (fst (sample_all env t is)) = map (inHandle \<circ> snd) is"
  by (induction "is") (auto simp: split_beta SampleInstance_handle split: option.splits)

lemma sample_all_keys: "map fst (fst (sample_all env t is)) = map fst is"
  by (induction "is") (auto simp: split_beta split: option.splits)

lemma Poll_handles:
  assumes "tk_Poll ceq env snap t = (samples, evs, ops, t')"
  shows "held t + opened ops = held t' + closed ops"
proof -
  obtain kept e1 o1 l where d: "drop_exited env (tkName t) (tkInstances t) (tkLastExitedPid t) = (kept, e1, o1, l)"
    by (metis prod_cases4)
  define t1 where "t1 = t\<lparr>tkInstances := kept, tkLastExitedPid := l\<rparr>"
  obtain t2 e2 o2 where a: "acquire_all env (FindByName ceq snap (tkName t)) t1 = (t2, e2, o2)"
    by (metis prod_cases3)
  have t': "t' = t2\<lparr>tkInstances := fst (sample_all env t2 (tkInstances t2))\<rparr>" "ops = o1 @ o2"
    using assms by (simp_all add: tk_Poll_def Let_def split_beta d a flip: t1_def)
  have "held t + opened o1 = held t1 + closed o1"
    using drop_exited_handles [OF d] by (simp add: held_def t1_def)
  moreover have "held t1 + opened o2 = held t2 + closed o2" by (rule acquire_all_handles [OF a])
  moreover have "held t' = held t2" by (simp add: t'(1) held_def sample_all_handles)
  ultimately show ?thesis by (simp add: t'(2)) (metis add.assoc add.commute)
qed

section \<open>The life of a process, as its events tell it\<close>

text \<open>
  An observer of the events alone: the processes it believes alive, and the one that ended last if
  none has started since (0 otherwise).  \<open>None\<close> is a sequence of events that makes no sense.
\<close>

fun life_step :: "lifecycle_event \<Rightarrow> dword set \<times> dword \<Rightarrow> (dword set \<times> dword) option" where
  "life_step e (live, lastPid) =
     (let restart = (live = {} \<and> lastPid \<noteq> 0 \<and> lastPid \<noteq> lePid e) in
      case leKind e of
        LkAccessDenied \<Rightarrow> if lePid e \<in> live then None else Some (live, lastPid)
      | LkAcquired \<Rightarrow>
          if lePid e \<in> live \<or> restart then None else Some (insert (lePid e) live, 0)
      | LkRestarted \<Rightarrow>
          if lePid e \<in> live \<or> \<not> restart \<or> lePreviousPid e \<noteq> lastPid then None
          else Some (insert (lePid e) live, 0)
      | LkExited \<Rightarrow>
          if lePid e \<in> live \<and> leExitCode e = 0 then Some (live - {lePid e}, lePid e) else None
      | LkCrashed \<Rightarrow>
          if lePid e \<in> live \<and> leExitCode e \<noteq> 0 then Some (live - {lePid e}, lePid e) else None)"

fun life_run :: "lifecycle_event list \<Rightarrow> dword set \<times> dword \<Rightarrow> (dword set \<times> dword) option" where
  "life_run [] s = Some s"
| "life_run (e # es) s = (case life_step e s of None \<Rightarrow> None | Some s' \<Rightarrow> life_run es s')"

lemma life_run_append:
  "life_run (es @ es') s = (case life_run es s of None \<Rightarrow> None | Some s' \<Rightarrow> life_run es' s')"
  by (induction es arbitrary: s) (auto split: option.splits)

definition live :: "tracked \<Rightarrow> dword set \<times> dword" where
  "live t = (fst ` set (tkInstances t), tkLastExitedPid t)"

lemma drop_exited_life:
  "drop_exited env name is l = (kept, evs, ops, l') \<Longrightarrow> distinct (map fst is) \<Longrightarrow>
   fst ` set is \<inter> X = {} \<Longrightarrow>
   life_run evs (fst ` set is \<union> X, l) = Some (fst ` set kept \<union> X, l')"
proof (induction env name "is" l arbitrary: kept evs ops l' X rule: drop_exited.induct)
  case (1 env name l)
  then show ?case by simp
next
  case (2 env name pid i "is" l)
  show ?case
  proof (cases "meSignalled env (inHandle i)")
    case True
    obtain k e o1 m where r: "drop_exited env name is pid = (k, e, o1, m)" by (metis prod_cases4)
    have res: "kept = k" "evs = exit_event env name pid i # e" "l' = m"
      using "2.prems"(1) True r by simp_all
    have "insert pid (fst ` set is \<union> X) - {pid} = fst ` set is \<union> X"
      using "2.prems"(2,3) by auto
    then have "life_step (exit_event env name pid i) (fst ` set ((pid, i) # is) \<union> X, l) =
        Some (fst ` set is \<union> X, pid)"
      by (simp add: exit_event_def Let_def)
    moreover have "life_run e (fst ` set is \<union> X, pid) = Some (fst ` set k \<union> X, m)"
      using "2.IH"(1) [OF True r] "2.prems"(2,3) by simp
    ultimately show ?thesis by (simp add: res)
  next
    case False
    obtain k e o1 m where r: "drop_exited env name is l = (k, e, o1, m)" by (metis prod_cases4)
    have res: "kept = (pid, i) # k" "evs = e" "l' = m"
      using "2.prems"(1) False r by simp_all
    have "life_run e (fst ` set is \<union> insert pid X, l) = Some (fst ` set k \<union> insert pid X, m)"
      using "2.IH"(2) [OF False r, of "insert pid X"] "2.prems"(2,3) by auto
    then show ?thesis by (simp add: res)
  qed
qed

lemma drop_exited_keys:
  "drop_exited env name is l = (kept, evs, ops, l') \<Longrightarrow> okeys is \<Longrightarrow> okeys kept"
proof -
  assume "drop_exited env name is l = (kept, evs, ops, l')"
  then have "kept = filter (\<lambda>p. \<not> meSignalled env (inHandle (snd p))) is"
    by (induction env name "is" l arbitrary: kept evs ops l' rule: drop_exited.induct)
      (auto split: if_splits prod.splits)
  then show "okeys is \<Longrightarrow> okeys kept"
    by (induction "is" arbitrary: kept) (auto simp: okeys_def split: if_splits)
qed

lemma amap_has_iff: "amap_has k m \<longleftrightarrow> k \<in> fst ` set m"
  by (simp add: amap_has_def map_of_eq_None_iff)

lemma okeys_single [simp]: "okeys [p]"
  by (simp add: okeys_def)

lemma acquire_life:
  assumes "acquire env pid t = (t', evs, ops)"
  shows "life_run evs (live t) = Some (live t')"
    and "okeys (tkInstances t) \<Longrightarrow> okeys (tkInstances t')"
    and "tkName t' = tkName t"
  using assms
  by (auto simp: acquire_def live_def Let_def amap_has_iff keys_omap_put okeys_omap_put
      split: if_splits option.splits)

lemma acquire_all_life:
  "acquire_all env pids t = (t', evs, ops) \<Longrightarrow>
   life_run evs (live t) = Some (live t') \<and>
   (okeys (tkInstances t) \<longrightarrow> okeys (tkInstances t')) \<and> tkName t' = tkName t"
proof (induction pids arbitrary: t evs ops)
  case Nil
  then show ?case by simp
next
  case (Cons pid pids)
  obtain t1 e1 o1 where a: "acquire env pid t = (t1, e1, o1)" by (metis prod_cases3)
  obtain e2 o2 where b: "acquire_all env pids t1 = (t', e2, o2)" "evs = e1 @ e2"
    using Cons.prems by (auto simp: a Let_def split: prod.splits)
  then show ?case
    using acquire_life [OF a] Cons.IH [OF b(1)] by (simp add: life_run_append)
qed

lemma Poll_life:
  assumes "tk_Poll ceq env snap t = (samples, evs, ops, t')" and "okeys (tkInstances t)"
  shows "life_run evs (live t) = Some (live t')" and "okeys (tkInstances t')"
proof -
  obtain kept e1 o1 l where d: "drop_exited env (tkName t) (tkInstances t) (tkLastExitedPid t) = (kept, e1, o1, l)"
    by (metis prod_cases4)
  define t1 where "t1 = t\<lparr>tkInstances := kept, tkLastExitedPid := l\<rparr>"
  obtain t2 e2 o2 where a: "acquire_all env (FindByName ceq snap (tkName t)) t1 = (t2, e2, o2)"
    by (metis prod_cases3)
  have t': "t' = t2\<lparr>tkInstances := fst (sample_all env t2 (tkInstances t2))\<rparr>" "evs = e1 @ e2"
    using assms(1) by (simp_all add: tk_Poll_def Let_def split_beta d a flip: t1_def)
  have k: "map fst (tkInstances t') = map fst (tkInstances t2)"
    by (simp add: t'(1) sample_all_keys)
  then have "fst ` set (tkInstances t') = fst ` set (tkInstances t2)" by (metis set_map)
  then have l2: "live t' = live t2" by (simp add: live_def) (simp add: t'(1))
  have "life_run e1 (live t) = Some (live t1)"
    using drop_exited_life [OF d, of "{}"] okeys_distinct [OF assms(2)] by (simp add: live_def t1_def)
  then show "life_run evs (live t) = Some (live t')"
    using acquire_all_life [OF a] by (simp add: t'(2) life_run_append l2)
  show "okeys (tkInstances t')"
    using drop_exited_keys [OF d assms(2)] acquire_all_life [OF a] k by (simp add: t1_def okeys_def)
qed

fun tk_run :: "name_eq \<Rightarrow> (mon_env \<times> process_entry list) list \<Rightarrow> tracked
    \<Rightarrow> lifecycle_event list \<times> handle_op list \<times> tracked" where
  "tk_run ceq [] t = ([], [], t)"
| "tk_run ceq (p # ps) t =
     (let (samples, evs, ops, t1) = tk_Poll ceq (fst p) (snd p) t;
          (evs', ops', t2) = tk_run ceq ps t1
      in (evs @ evs', ops @ ops', t2))"

lemma tk_run_life:
  "tk_run ceq ps t = (evs, ops, t') \<Longrightarrow> okeys (tkInstances t) \<Longrightarrow>
   life_run evs (live t) = Some (live t') \<and> okeys (tkInstances t') \<and>
   held t + opened ops = held t' + closed ops"
proof (induction ps arbitrary: t evs ops)
  case Nil
  then show ?case by simp
next
  case (Cons p ps)
  obtain sa e1 o1 t1 where a: "tk_Poll ceq (fst p) (snd p) t = (sa, e1, o1, t1)" by (metis prod_cases4)
  obtain e2 o2 where b: "tk_run ceq ps t1 = (e2, o2, t')" "evs = e1 @ e2" "ops = o1 @ o2"
    using Cons.prems by (auto simp: a Let_def split: prod.splits)
  note pl = Poll_life [OF a Cons.prems(2)]
  have ih: "life_run e2 (live t1) = Some (live t')" "okeys (tkInstances t')"
      "held t1 + opened o2 = held t' + closed o2"
    using Cons.IH [OF b(1) pl(2)] by blast+
  have "held t + opened o1 + opened o2 = held t' + (closed o1 + closed o2)"
    using Poll_handles [OF a] ih(3) by (metis add.assoc add.commute)
  then show ?case using ih pl(1) by (simp add: b(2,3) life_run_append add.assoc)
qed

lemma closed_destroy: "closed (tk_destroy t) = held t"
proof -
  have "closed (map (\<lambda>(pid, i). HClose (inHandle i)) is) = mset (map (inHandle \<circ> snd) is)" for "is"
    by (induction "is") auto
  then show ?thesis by (simp add: tk_destroy_def held_def)
qed

lemma opened_destroy: "opened (tk_destroy t) = {#}"
proof -
  have "opened (map (\<lambda>(pid, i). HClose (inHandle i)) is) = {#}" for "is" :: "(dword \<times> inst) list"
    by (induction "is") auto
  then show ?thesis by (simp add: tk_destroy_def)
qed

text \<open>A sample is valid only from an instance that has been sampled before.\<close>

lemma SampleInstance_valid:
  assumes "SampleInstance env cores nz i s = Some (i', s')" and "\<not> psValid s"
  shows "psValid s' \<longleftrightarrow> inPrimed i \<and> inLastWallTicks i < inLastWallTicks i'"
    and "inPrimed i'"
    and "\<not> psValid s' \<Longrightarrow> psCpuPercent s' = psCpuPercent s"
    and "psValid s' \<Longrightarrow> 0 \<le> psCpuPercent s' \<and> 0 \<le> psIoMbPerSec s'"
    and "psValid s' \<Longrightarrow> nz = TotalSystem \<Longrightarrow> psCpuPercent s' \<le> 100"
  using assms CpuPercent_bounds
  by (auto simp: SampleInstance_def Let_def kMb_def simp del: of_nat_unat split: option.splits if_splits)

end
