(* ===== verification/ProcessSafety.thy ===== *)
theory ProcessSafety
  imports Prelude
begin

text \<open>
  \<open>src/telemetry/ProcessSafety.h/.cpp\<close>: how risky it is to manage a process.  What Windows says
  about a process (may it be opened, its image, its token's user, its session) is the record
  \<open>proc_env\<close>; security identifiers are opaque strings compared by \<open>EqualSid\<close>, here equality.
\<close>

section \<open>Definitions\<close>

datatype process_safety = SfNormal | SfService | SfSystem | SfEssential

text \<open>The enumerators' order, by which the daemon keeps the worst level.\<close>

fun safety_rank :: "process_safety \<Rightarrow> nat" where
  "safety_rank SfNormal = 0"
| "safety_rank SfService = 1"
| "safety_rank SfSystem = 2"
| "safety_rank SfEssential = 3"

lemma safety_rank_inject [simp]: "safety_rank a = safety_rank b \<longleftrightarrow> a = b"
  by (cases a; cases b) simp_all

instantiation process_safety :: linorder
begin

definition less_eq_process_safety :: "process_safety \<Rightarrow> process_safety \<Rightarrow> bool" where
  "less_eq_process_safety a b = (safety_rank a \<le> safety_rank b)"

definition less_process_safety :: "process_safety \<Rightarrow> process_safety \<Rightarrow> bool" where
  "less_process_safety a b = (safety_rank a < safety_rank b)"

instance
  by standard (auto simp: less_eq_process_safety_def less_process_safety_def)

end

lemma SfEssential_top [simp]: "s \<le> SfEssential"
  by (cases s) (simp_all add: less_eq_process_safety_def)

lemma SfNormal_bot [simp]: "SfNormal \<le> s"
  by (cases s) (simp_all add: less_eq_process_safety_def)

record safety_info =
  siLevel :: process_safety
  siReason :: wstring
  siImagePath :: wstring

definition no_info :: safety_info where
  "no_info = \<lparr>siLevel = SfNormal, siReason = [], siImagePath = []\<rparr>"

definition SafetyName :: "process_safety \<Rightarrow> string" where
  "SafetyName level = (case level of
      SfNormal \<Rightarrow> ''normal'' | SfService \<Rightarrow> ''service''
    | SfSystem \<Rightarrow> ''system'' | SfEssential \<Rightarrow> ''essential'')"

datatype well_known_sid = WinLocalSystemSid | WinLocalServiceSid | WinNetworkServiceSid
  | WinWorldSid | WinBuiltinUsersSid | WinAuthenticatedUserSid | WinInteractiveSid

record proc_env =
  peSelf :: dword
  peWindowsDir :: "wstring option"
  peOpen :: "dword \<Rightarrow> bool"
  peImagePath :: "dword \<Rightarrow> wstring option"
  peToken :: "dword \<Rightarrow> bool"
  peTokenUser :: "dword \<Rightarrow> string option"
  peWellKnown :: "well_known_sid \<Rightarrow> string option"
  peSession :: "dword \<Rightarrow> dword option"

definition WindowsDirectory :: "proc_env \<Rightarrow> wstring" where
  "WindowsDirectory env = (case peWindowsDir env of None \<Rightarrow> ''C:'' @ [CHR 0x5C] @ ''Windows'' | Some d \<Rightarrow> d)"

definition known_accounts :: "(well_known_sid \<times> wstring) list" where
  "known_accounts = [(WinLocalSystemSid, ''SYSTEM''), (WinLocalServiceSid, ''LOCAL SERVICE''),
     (WinNetworkServiceSid, ''NETWORK SERVICE'')]"

fun first_known :: "proc_env \<Rightarrow> string \<Rightarrow> (well_known_sid \<times> wstring) list \<Rightarrow> wstring" where
  "first_known env sid [] = []"
| "first_known env sid (k # ks) =
     (if peWellKnown env (fst k) = Some sid then snd k else first_known env sid ks)"

definition ServiceAccount :: "proc_env \<Rightarrow> dword \<Rightarrow> wstring" where
  "ServiceAccount env pid =
     (if \<not> peToken env pid then []
      else (case peTokenUser env pid of
          None \<Rightarrow> []
        | Some sid \<Rightarrow> first_known env sid known_accounts))"

definition backslash :: char where "backslash = CHR 0x5C"
definition slash :: char where "slash = CHR ''/''"

definition PathIsUnder :: "name_eq \<Rightarrow> wstring \<Rightarrow> wstring \<Rightarrow> bool" where
  "PathIsUnder ceq path dir =
     (if dir = [] \<or> length path \<le> length dir then False
      else (let base = (if last dir \<noteq> backslash \<and> last dir \<noteq> slash then dir @ [backslash] else dir)
            in if length path < length base then False
               else ceq (take (length base) path) base))"

definition ClassifyProcess ::
  "name_eq \<Rightarrow> proc_env \<Rightarrow> dword \<Rightarrow> wstring \<Rightarrow> wstring list \<Rightarrow> safety_info" where
  "ClassifyProcess ceq env pid name essentialNames =
     (if pid \<le> 4 then
        no_info\<lparr>siLevel := SfEssential, siReason := ''Windows kernel process.''\<rparr>
      else if pid = peSelf env then
        no_info\<lparr>siLevel := SfEssential, siReason := ''This is the ThreadHaul service itself.''\<rparr>
      else if \<exists>essential \<in> set essentialNames. ceq name essential then
        no_info\<lparr>siLevel := SfEssential,
          siReason := ''Essential to Windows: pausing or slowing it can freeze or crash the system.''\<rparr>
      else if \<not> peOpen env pid then
        no_info\<lparr>siLevel := SfSystem,
          siReason := ''Windows restricts access to this process; it is usually a protected system or '' @
            ''security component.''\<rparr>
      else
        (let info = (case peImagePath env pid of None \<Rightarrow> no_info | Some p \<Rightarrow> no_info\<lparr>siImagePath := p\<rparr>);
             account = ServiceAccount env pid
         in if siImagePath info \<noteq> [] \<and> PathIsUnder ceq (siImagePath info) (WindowsDirectory env) then
              info\<lparr>siLevel := SfSystem,
                siReason := ''Part of Windows ('' @ siImagePath info @
                  ''). Slowing or pausing it can make the desktop or other programs unstable.''\<rparr>
            else if account \<noteq> [] then
              info\<lparr>siLevel := SfService,
                siReason := ''Background service running as '' @ account @
                  ''. Other programs or Windows features may depend on it.''\<rparr>
            else if peSession env pid = Some 0 then
              info\<lparr>siLevel := SfService,
                siReason := ''Runs in the Windows services session. Other programs may depend on it.''\<rparr>
            else info))"

section \<open>Facts\<close>

lemma PathIsUnder_exact:
  assumes "last dir \<noteq> backslash" and "last dir \<noteq> slash"
  shows "PathIsUnder (=) path dir \<longleftrightarrow> dir \<noteq> [] \<and> (\<exists>rest. path = dir @ backslash # rest)"
proof
  assume *: "PathIsUnder (=) path dir"
  then have "dir \<noteq> []" and t: "take (Suc (length dir)) path = dir @ [backslash]"
    using assms by (auto simp: PathIsUnder_def split: if_splits)
  have "path = (dir @ [backslash]) @ drop (Suc (length dir)) path"
    by (metis t append_take_drop_id)
  with \<open>dir \<noteq> []\<close> show "dir \<noteq> [] \<and> (\<exists>rest. path = dir @ backslash # rest)" by auto
qed (use assms in \<open>auto simp: PathIsUnder_def\<close>)

lemma Classify_essential:
  "siLevel (ClassifyProcess ceq env pid name ess) = SfEssential \<longleftrightarrow>
   pid \<le> 4 \<or> pid = peSelf env \<or> (\<exists>e \<in> set ess. ceq name e)"
  by (auto simp: ClassifyProcess_def no_info_def Let_def split: option.splits)

lemma first_known_empty:
  "first_known env sid known_accounts = [] \<longleftrightarrow>
   (\<forall>w \<in> {WinLocalSystemSid, WinLocalServiceSid, WinNetworkServiceSid}. peWellKnown env w \<noteq> Some sid)"
  by (auto simp: known_accounts_def)

lemma Classify_normal:
  "siLevel (ClassifyProcess ceq env pid name ess) = SfNormal \<longleftrightarrow>
   \<not> (pid \<le> 4 \<or> pid = peSelf env \<or> (\<exists>e \<in> set ess. ceq name e)) \<and> peOpen env pid \<and>
   \<not> (\<exists>p. peImagePath env pid = Some p \<and> p \<noteq> [] \<and> PathIsUnder ceq p (WindowsDirectory env)) \<and>
   ServiceAccount env pid = [] \<and> peSession env pid \<noteq> Some 0"
  by (auto simp: ClassifyProcess_def no_info_def Let_def split: option.splits)

end
