(* ===== verification/ProcessTable.thy ===== *)
theory ProcessTable
  imports ProcessMonitor ProcessSafety
begin

text \<open>
  \<open>src/telemetry/ProcessTable.h/.cpp\<close>: one sample of the whole machine for the dashboard's process
  picker.  \<open>table_env\<close> holds what Windows answers during one sample.
\<close>

section \<open>Definitions\<close>

record table_row =
  rwPid :: dword
  rwName :: wstring
  rwCpuPercent :: double
  rwWorkingSetMb :: double
  rwAccessible :: bool
  rwSafety :: safety_info

record system_info =
  syCpuPercent :: double
  syMemoryLoadPercent :: double
  syMemoryTotalGb :: double
  syMemoryUsedGb :: double
  syLogicalCores :: dword
  syProcessCount :: dword

definition default_system :: system_info where
  "default_system = \<lparr>syCpuPercent = 0, syMemoryLoadPercent = 0, syMemoryTotalGb = 0,
     syMemoryUsedGb = 0, syLogicalCores = 1, syProcessCount = 0\<rparr>"

record prev_sample =
  pvCpu :: u64
  pvWall :: u64

record process_table =
  ptPrev :: "(dword \<times> prev_sample) list"
  ptEssential :: "wstring list"
  ptLastIdle :: u64
  ptLastTotal :: u64

record table_env =
  teCores :: dword
  teSystemTimes :: "(filetime \<times> filetime \<times> filetime) option"
  teMemory :: "(dword \<times> u64 \<times> u64) option"
  teNow :: filetime
  teSnapshot :: "process_entry list"
  teProc :: proc_env
  teOpen :: "dword \<Rightarrow> bool"
  teTimes :: "dword \<Rightarrow> (filetime \<times> filetime) option"
  teWorkingSet :: "dword \<Rightarrow> u64 option"

definition new_table :: process_table where
  "new_table = \<lparr>ptPrev = [], ptEssential = [], ptLastIdle = 0, ptLastTotal = 0\<rparr>"

definition SetEssentialNames :: "wstring list \<Rightarrow> process_table \<Rightarrow> process_table" where
  "SetEssentialNames names t = t\<lparr>ptEssential := names\<rparr>"

definition kGb :: double where
  "kGb = 1024 * 1024 * 1024"

definition busy_percent :: "double \<Rightarrow> double" where
  "busy_percent busy = (if busy < 0 then 0 else if busy > 1 then 100 else busy * 100)"

definition sample_system_cpu :: "table_env \<Rightarrow> process_table \<times> system_info \<Rightarrow> process_table \<times> system_info" where
  "sample_system_cpu env s =
     (case teSystemTimes env of
        None \<Rightarrow> s
      | Some (idleT, kernelT, userT) \<Rightarrow>
          (let t = fst s; idle = FileTimeToUint64 idleT;
               totalB = FileTimeToUint64 kernelT + FileTimeToUint64 userT;
               busy = 1 - real (unat (idle - ptLastIdle t)) / real (unat (totalB - ptLastTotal t));
               sys = (if ptLastTotal t \<noteq> 0 \<and> totalB > ptLastTotal t
                      then (snd s)\<lparr>syCpuPercent := busy_percent busy\<rparr>
                      else snd s)
           in (t\<lparr>ptLastIdle := idle, ptLastTotal := totalB\<rparr>, sys)))"

definition sample_memory :: "table_env \<Rightarrow> system_info \<Rightarrow> system_info" where
  "sample_memory env sys =
     (case teMemory env of
        None \<Rightarrow> sys
      | Some (load, totalB, avail) \<Rightarrow>
          sys\<lparr>syMemoryLoadPercent := real (unat load), syMemoryTotalGb := real (unat totalB) / kGb,
            syMemoryUsedGb := real (unat (totalB - avail)) / kGb\<rparr>)"

definition table_row_of ::
  "name_eq \<Rightarrow> table_env \<Rightarrow> dword \<Rightarrow> u64 \<Rightarrow> process_table \<Rightarrow> process_entry
     \<Rightarrow> table_row \<times> (dword \<times> prev_sample) option" where
  "table_row_of ceq env cores now t e =
     (let pid = pePid e;
          r = \<lparr>rwPid = pid, rwName = peName e, rwCpuPercent = 0, rwWorkingSetMb = 0, rwAccessible = True,
               rwSafety = ClassifyProcess ceq (teProc env) pid (peName e) (ptEssential t)\<rparr>
      in if \<not> teOpen env pid then (r\<lparr>rwAccessible := False\<rparr>, None)
         else
           (let (r1, next) = (case teTimes env pid of
                None \<Rightarrow> (r, None)
              | Some (k, u) \<Rightarrow>
                  (let cpu = FileTimeToUint64 k + FileTimeToUint64 u;
                       r1 = (case map_of (ptPrev t) pid of
                           None \<Rightarrow> r
                         | Some p \<Rightarrow>
                             if now > pvWall p \<and> cpu \<ge> pvCpu p
                             then r\<lparr>rwCpuPercent := CpuPercentFromTicks (cpu - pvCpu p) (now - pvWall p) cores PerCore\<rparr>
                             else r)
                   in (r1, Some (pid, \<lparr>pvCpu = cpu, pvWall = now\<rparr>))))
            in (case teWorkingSet env pid of
                  None \<Rightarrow> r1 | Some b \<Rightarrow> r1\<lparr>rwWorkingSetMb := real (unat b) / kMb\<rparr>, next)))"

fun table_rows ::
  "name_eq \<Rightarrow> table_env \<Rightarrow> dword \<Rightarrow> u64 \<Rightarrow> process_table \<Rightarrow> process_entry list
     \<Rightarrow> (dword \<times> prev_sample) list \<Rightarrow> table_row list \<times> (dword \<times> prev_sample) list" where
  "table_rows ceq env cores now t [] next = ([], next)"
| "table_rows ceq env cores now t (e # es) next =
     (if pePid e = 0 then table_rows ceq env cores now t es next
      else
        (let (r, p) = table_row_of ceq env cores now t e;
             next' = (case p of None \<Rightarrow> next | Some (pid, v) \<Rightarrow> omap_put pid v next);
             (rs, out) = table_rows ceq env cores now t es next'
         in (r # rs, out)))"

definition pt_Sample ::
  "name_eq \<Rightarrow> table_env \<Rightarrow> process_table \<times> system_info \<Rightarrow> table_row list \<times> process_table \<times> system_info" where
  "pt_Sample ceq env s0 =
     (let sys0 = (snd s0)\<lparr>syLogicalCores := teCores env\<rparr>;
          (t1, sys1) = sample_system_cpu env (fst s0, sys0);
          sys2 = sample_memory env sys1;
          now = FileTimeToUint64 (teNow env);
          (rows, next) = table_rows ceq env (syLogicalCores sys2) now t1 (teSnapshot env) []
      in (rows, t1\<lparr>ptPrev := next\<rparr>, sys2\<lparr>syProcessCount := of_nat (length rows)\<rparr>))"

section \<open>Facts\<close>

lemma table_row_of_pid [simp]: "rwPid (fst (table_row_of ceq env cores now t e)) = pePid e"
  "rwName (fst (table_row_of ceq env cores now t e)) = peName e"
  by (auto simp: table_row_of_def Let_def split: option.splits prod.splits)

lemma table_row_of_safety [simp]:
  "rwSafety (fst (table_row_of ceq env cores now t e)) =
     ClassifyProcess ceq (teProc env) (pePid e) (peName e) (ptEssential t)"
  "rwAccessible (fst (table_row_of ceq env cores now t e)) = teOpen env (pePid e)"
  by (auto simp: table_row_of_def Let_def split: option.splits prod.splits)

lemma table_row_of_next:
  "snd (table_row_of ceq env cores now t e) = Some (pid, v) \<Longrightarrow> pid = pePid e \<and> pvWall v = now"
  by (auto simp: table_row_of_def Let_def split: option.splits prod.splits if_splits)

lemma table_row_of_cpu:
  "0 \<le> rwCpuPercent (fst (table_row_of ceq env cores now t e)) \<and>
   rwCpuPercent (fst (table_row_of ceq env cores now t e)) \<le> 100 * max 1 (real (unat cores)) \<and>
   (map_of (ptPrev t) (pePid e) = None \<longrightarrow> rwCpuPercent (fst (table_row_of ceq env cores now t e)) = 0)"
proof -
  have b: "0 \<le> CpuPercentFromTicks p w cores PerCore"
    "CpuPercentFromTicks p w cores PerCore \<le> 100 * max 1 (real (unat cores))" for p w
    using CpuPercent_bounds(1) CpuPercent_bounds(3) [OF refl] by blast+
  have z: "0 \<le> 100 * max 1 (real (unat cores))" by (simp del: of_nat_unat)
  show ?thesis
    using b z
    by (auto simp: table_row_of_def Let_def simp del: of_nat_unat
        split: option.splits prod.splits if_splits)
qed

lemma table_rows_spec:
  "map rwPid (fst (table_rows ceq env cores now t es next)) = filter (\<lambda>p. p \<noteq> 0) (map pePid es)"
  "r \<in> set (fst (table_rows ceq env cores now t es next)) \<Longrightarrow>
     \<exists>e \<in> set es. pePid e \<noteq> 0 \<and> r = fst (table_row_of ceq env cores now t e)"
proof (induction es arbitrary: "next")
  case (Cons e es)
  case 1
  show ?case using Cons(1) by (simp add: split_beta Let_def)
  case 2
  then show ?case using Cons(2) by (fastforce simp: split_beta Let_def split: if_splits)
qed auto

lemma table_rows_next:
  "okeys next \<Longrightarrow> (\<forall>p v. map_of next p = Some v \<longrightarrow> pvWall v = now) \<Longrightarrow>
   okeys (snd (table_rows ceq env cores now t es next)) \<and>
   (\<forall>p v. map_of (snd (table_rows ceq env cores now t es next)) p = Some v \<longrightarrow>
     pvWall v = now \<and> (map_of next p = Some v \<or> p \<in> pePid ` set es))"
proof (induction es arbitrary: "next")
  case Nil
  then show ?case by simp
next
  case (Cons e es)
  show ?case
  proof (cases "pePid e = 0 \<or> snd (table_row_of ceq env cores now t e) = None")
    case True
    then have "snd (table_rows ceq env cores now t (e # es) next) = snd (table_rows ceq env cores now t es next)"
      by (auto simp: split_beta Let_def)
    then show ?thesis using Cons.IH [OF Cons.prems] by simp blast
  next
    case False
    then obtain p v where p: "snd (table_row_of ceq env cores now t e) = Some (p, v)" by auto
    have pv: "p = pePid e" "pvWall v = now" using table_row_of_next [OF p] by auto
    have ok: "okeys (omap_put p v next)" by (rule okeys_omap_put [OF Cons.prems(1)])
    have "\<forall>q w. map_of (omap_put p v next) q = Some w \<longrightarrow> pvWall w = now"
      using Cons.prems pv by (auto simp: map_of_omap_put)
    note ih = Cons.IH [OF ok this]
    then show ?thesis
      using False p pv by (auto simp: split_beta Let_def map_of_omap_put [OF Cons.prems(1)] split: if_splits)
  qed
qed

lemma busy_bounds:
  shows "0 \<le> busy_percent b" and "busy_percent b \<le> 100"
  by (simp_all add: busy_percent_def)

lemma Sample_system_cpu_bounds:
  assumes "0 \<le> syCpuPercent (snd s)" and "syCpuPercent (snd s) \<le> 100"
  shows "0 \<le> syCpuPercent (snd (sample_system_cpu env s)) \<and>
    syCpuPercent (snd (sample_system_cpu env s)) \<le> 100"
  using assms busy_bounds
  by (cases "teSystemTimes env") (simp_all add: sample_system_cpu_def Let_def split_beta)

lemma sample_memory_cpu [simp]: "syCpuPercent (sample_memory env s) = syCpuPercent s"
  "syLogicalCores (sample_memory env s) = syLogicalCores s"
  by (auto simp: sample_memory_def split: option.splits prod.splits)

lemma sample_system_cpu_fields [simp]:
  "ptPrev (fst (sample_system_cpu env s)) = ptPrev (fst s)"
  "ptEssential (fst (sample_system_cpu env s)) = ptEssential (fst s)"
  "syLogicalCores (snd (sample_system_cpu env s)) = syLogicalCores (snd s)"
  by (auto simp: sample_system_cpu_def Let_def split: option.splits prod.splits)

lemma Sample_rows:
  assumes "r \<in> set (fst (pt_Sample ceq env (t, sys)))"
  shows "\<exists>e \<in> set (teSnapshot env). pePid e \<noteq> 0 \<and> rwPid r = pePid e \<and> rwName r = peName e \<and>
    rwAccessible r = teOpen env (pePid e) \<and>
    rwSafety r = ClassifyProcess ceq (teProc env) (pePid e) (peName e) (ptEssential t)"
proof -
  let ?t1 = "fst (sample_system_cpu env (t, sys\<lparr>syLogicalCores := teCores env\<rparr>))"
  have "r \<in> set (fst (table_rows ceq env (teCores env) (FileTimeToUint64 (teNow env)) ?t1 (teSnapshot env) []))"
    using assms by (simp add: pt_Sample_def Let_def split_beta)
  then show ?thesis using table_rows_spec(2) by fastforce
qed

lemma Sample_keeps_essential: "ptEssential (fst (snd (pt_Sample ceq env (t, sys)))) = ptEssential t"
  by (simp add: pt_Sample_def Let_def split_beta)

end
