(* ===== verification/AutoProtectPolicy.thy ===== *)
theory AutoProtectPolicy
  imports ThresholdTracker CpuMath "HOL-Library.Product_Lexorder" "HOL-Library.Multiset"
begin

text \<open>
  \<open>src/telemetry/AutoProtectPolicy.h\<close>: the consecutive-sample machine on whole-system CPU and the
  choice of the processes to lower.  \<open>std::sort\<close> is a stable insertion sort on the comparator's
  key (CPU descending, process identifier ascending); process identifiers are distinct in a
  snapshot, so the order it produces is the only one.
\<close>

section \<open>The level machine\<close>

record auto_settings =
  apEnabled :: bool
  apThrottlePercent :: double
  apThrottleSamples :: int
  apUseIdle :: bool
  apIdlePercent :: double
  apIdleSamples :: int
  apRecoverPercent :: double
  apRecoverSamples :: int
  apMaxProcesses :: int
  apMinProcessCpuPercent :: double

definition default_auto_settings :: auto_settings where
  "default_auto_settings = \<lparr>apEnabled = True, apThrottlePercent = 90, apThrottleSamples = 5,
     apUseIdle = True, apIdlePercent = 97, apIdleSamples = 10, apRecoverPercent = 75,
     apRecoverSamples = 10, apMaxProcesses = 3, apMinProcessCpuPercent = 50\<rparr>"

datatype auto_level = AlNormal | AlThrottle | AlIdle

definition AutoLevelName :: "auto_level \<Rightarrow> string" where
  "AutoLevelName level = (case level of
      AlNormal \<Rightarrow> ''normal'' | AlThrottle \<Rightarrow> ''throttling'' | AlIdle \<Rightarrow> ''idle'')"

record auto_state =
  asLevel :: auto_level
  asHigh :: int
  asExtreme :: int
  asLow :: int

definition new_auto_state :: auto_state where
  "new_auto_state = \<lparr>asLevel = AlNormal, asHigh = 0, asExtreme = 0, asLow = 0\<rparr>"

definition as_count :: "double \<Rightarrow> auto_settings \<Rightarrow> auto_state \<Rightarrow> auto_state" where
  "as_count cpu s a = a\<lparr>
     asHigh := (if cpu \<ge> apThrottlePercent s then asHigh a + 1 else 0),
     asExtreme := (if cpu \<ge> apIdlePercent s then asExtreme a + 1 else 0),
     asLow := (if cpu < apRecoverPercent s then asLow a + 1 else 0)\<rparr>"

definition as_Update :: "double \<Rightarrow> auto_settings \<Rightarrow> auto_state \<Rightarrow> auto_level \<times> auto_state" where
  "as_Update cpu s a0 =
     (let a = as_count cpu s a0;
          level = (if asLevel a = AlNormal \<and> asHigh a \<ge> apThrottleSamples s then AlThrottle
                   else if asLevel a = AlThrottle \<and> apUseIdle s \<and> asExtreme a \<ge> apIdleSamples s
                   then AlIdle
                   else if asLevel a \<noteq> AlNormal \<and> asLow a \<ge> apRecoverSamples s then AlNormal
                   else asLevel a)
      in (level, a\<lparr>asLevel := level\<rparr>))"

definition as_Reset :: "auto_state \<Rightarrow> auto_state" where
  "as_Reset a = \<lparr>asLevel = AlNormal, asHigh = 0, asExtreme = 0, asLow = 0\<rparr>"

fun as_run :: "auto_settings \<Rightarrow> double list \<Rightarrow> auto_state \<Rightarrow> auto_state" where
  "as_run s [] a = a"
| "as_run s (x # xs) a = as_run s xs (snd (as_Update x s a))"

text \<open>Unlike the process machine, the counters keep running over a change of level.\<close>

definition as_rel :: "auto_settings \<Rightarrow> auto_state \<Rightarrow> double list \<Rightarrow> bool" where
  "as_rel s a h = (asHigh a = streak (\<lambda>x. x \<ge> apThrottlePercent s) h \<and>
     asExtreme a = streak (\<lambda>x. x \<ge> apIdlePercent s) h \<and>
     asLow a = streak (\<lambda>x. x < apRecoverPercent s) h)"

definition auto_target :: "auto_settings \<Rightarrow> auto_level \<Rightarrow> double list \<Rightarrow> auto_level" where
  "auto_target s level h = (case level of
      AlNormal \<Rightarrow>
        if last_all (\<lambda>x. x \<ge> apThrottlePercent s) (nat (apThrottleSamples s)) h
        then AlThrottle else AlNormal
    | AlThrottle \<Rightarrow>
        if apUseIdle s \<and> last_all (\<lambda>x. x \<ge> apIdlePercent s) (nat (apIdleSamples s)) h then AlIdle
        else if last_all (\<lambda>x. x < apRecoverPercent s) (nat (apRecoverSamples s)) h
        then AlNormal else AlThrottle
    | AlIdle \<Rightarrow>
        if last_all (\<lambda>x. x < apRecoverPercent s) (nat (apRecoverSamples s)) h
        then AlNormal else AlIdle)"

fun auto_spec :: "auto_settings \<Rightarrow> double list \<Rightarrow> auto_level \<times> double list \<Rightarrow> auto_level \<times> double list" where
  "auto_spec s [] p = p"
| "auto_spec s (x # xs) (l, h) = auto_spec s xs (auto_target s l (h @ [x]), h @ [x])"

definition auto_counts_ok :: "auto_settings \<Rightarrow> bool" where
  "auto_counts_ok s = (apThrottleSamples s \<ge> 1 \<and> apIdleSamples s \<ge> 1 \<and> apRecoverSamples s \<ge> 1)"

lemma as_Update_rel:
  assumes "as_rel s a h" and "auto_counts_ok s"
  shows "as_rel s (snd (as_Update x s a)) (h @ [x])"
    and "fst (as_Update x s a) = auto_target s (asLevel a) (h @ [x])"
    and "asLevel (snd (as_Update x s a)) = fst (as_Update x s a)"
proof -
  have k: "as_rel s (as_count x s a) (h @ [x])"
    using assms(1) by (simp add: as_rel_def as_count_def)
  then show "as_rel s (snd (as_Update x s a)) (h @ [x])"
    by (simp add: as_Update_def Let_def as_rel_def)
  have ge: "n \<le> streak P (h @ [x]) \<longleftrightarrow> last_all P (nat n) (h @ [x])" if "n \<ge> 1" for n P
    using that streak_ge_iff [of "nat n" P "h @ [x]"] by simp
  have lv: "asLevel (as_count x s a) = asLevel a" by (simp add: as_count_def)
  have e: "asHigh (as_count x s a) = streak (\<lambda>y. y \<ge> apThrottlePercent s) (h @ [x])"
    "asExtreme (as_count x s a) = streak (\<lambda>y. y \<ge> apIdlePercent s) (h @ [x])"
    "asLow (as_count x s a) = streak (\<lambda>y. y < apRecoverPercent s) (h @ [x])"
    using k unfolding as_rel_def by blast+
  show "fst (as_Update x s a) = auto_target s (asLevel a) (h @ [x])"
    using assms(2)
    by (cases "asLevel a")
      (simp_all add: as_Update_def auto_target_def Let_def auto_counts_ok_def ge lv e
        del: streak_simps)
  show "asLevel (snd (as_Update x s a)) = fst (as_Update x s a)"
    by (simp add: as_Update_def Let_def)
qed

lemma as_run_spec:
  "as_rel s a h \<Longrightarrow> auto_counts_ok s \<Longrightarrow>
   asLevel (as_run s xs a) = fst (auto_spec s xs (asLevel a, h))"
proof (induction xs arbitrary: a h)
  case Nil
  then show ?case by simp
next
  case (Cons x xs)
  show ?case
    using Cons.IH [OF as_Update_rel(1) [OF Cons.prems, of x] Cons.prems(2)]
      as_Update_rel(2,3) [OF Cons.prems, of x]
    by simp
qed

section \<open>Selecting the targets\<close>

record auto_candidate =
  acPid :: dword
  acName :: wstring
  acCpu :: double

definition ac_key :: "auto_candidate \<Rightarrow> double \<times> dword" where
  "ac_key c = (- acCpu c, acPid c)"

definition SelectAutoTargets :: "auto_candidate list \<Rightarrow> double \<Rightarrow> nat \<Rightarrow> auto_candidate list" where
  "SelectAutoTargets eligible minCpu slots =
     (let kept = filter (\<lambda>c. \<not> acCpu c < minCpu) eligible; sorted = sort_key ac_key kept
      in if length sorted > slots then take slots sorted else sorted)"

lemma SelectAutoTargets_take:
  "SelectAutoTargets eligible minCpu slots =
   take slots (sort_key ac_key (filter (\<lambda>c. \<not> acCpu c < minCpu) eligible))"
  by (simp add: SelectAutoTargets_def Let_def)

lemma Select_members:
  assumes "c \<in> set (SelectAutoTargets eligible minCpu slots)"
  shows "c \<in> set eligible" and "acCpu c \<ge> minCpu"
  using assms set_take_subset
  by (fastforce simp: SelectAutoTargets_take)+

lemma Select_length: "length (SelectAutoTargets eligible minCpu slots) \<le> slots"
  by (simp add: SelectAutoTargets_take)

text \<open>Nobody left out, though heavy enough, is heavier than anybody chosen.\<close>

lemma Select_heaviest:
  assumes c: "c \<in> set (SelectAutoTargets eligible minCpu slots)"
    and d: "d \<in> set eligible" "acCpu d \<ge> minCpu" "d \<notin> set (SelectAutoTargets eligible minCpu slots)"
  shows "acCpu d \<le> acCpu c" and "slots \<le> length (SelectAutoTargets eligible minCpu slots)"
proof -
  let ?s = "sort_key ac_key (filter (\<lambda>c. \<not> acCpu c < minCpu) eligible)"
  have sorted: "sorted (map ac_key ?s)" by simp
  have "d \<in> set ?s" using d(1,2) by simp
  then have "d \<in> set (take slots ?s) \<union> set (drop slots ?s)"
    by (metis append_take_drop_id set_append)
  then have dd: "d \<in> set (drop slots ?s)" using d(3) by (simp add: SelectAutoTargets_take)
  have "sorted (map ac_key (take slots ?s) @ map ac_key (drop slots ?s))"
    using sorted by (simp flip: map_append)
  then have "ac_key c \<le> ac_key d"
    using c dd by (auto simp: sorted_append SelectAutoTargets_take)
  then show "acCpu d \<le> acCpu c" by (auto simp: ac_key_def less_eq_prod_def)
  have "slots < length ?s" using dd by (cases "slots < length ?s") auto
  then show "slots \<le> length (SelectAutoTargets eligible minCpu slots)"
    by (simp add: SelectAutoTargets_take)
qed

lemma Select_distinct:
  assumes "distinct (map acPid eligible)"
  shows "distinct (map acPid (SelectAutoTargets eligible minCpu slots))"
proof -
  let ?s = "sort_key ac_key (filter (\<lambda>c. \<not> acCpu c < minCpu) eligible)"
  have "mset (map acPid ?s) = mset (map acPid (filter (\<lambda>c. \<not> acCpu c < minCpu) eligible))"
    by simp
  then have "distinct (map acPid ?s)"
    using assms by (metis distinct_map_filter mset_eq_imp_distinct_iff)
  then show ?thesis
    by (simp add: SelectAutoTargets_take flip: take_map)
qed

end
