(* ===== verification/AutoProtect.thy ===== *)
theory AutoProtect
  imports ProcessTable AutoProtectPolicy
begin

text \<open>
  \<open>src/service/AutoProtect.h/.cpp\<close>: the policy applied to real processes.

  The priority class of every process is a function from identifiers to classes that the operations
  thread through: a handle is held on every lowered process, so an identifier names one process for
  as long as the protector has it in its table.  \<open>ap_env\<close> holds what Windows answers during one
  operation; \<open>ap_effect\<close> lists the calls and log records in order.
\<close>

section \<open>Definitions\<close>

definition ABOVE_NORMAL_PRIORITY_CLASS :: dword where "ABOVE_NORMAL_PRIORITY_CLASS = 0x8000"
definition HIGH_PRIORITY_CLASS :: dword where "HIGH_PRIORITY_CLASS = 0x80"
definition REALTIME_PRIORITY_CLASS :: dword where "REALTIME_PRIORITY_CLASS = 0x100"

lemmas priority_class_defs = IDLE_PRIORITY_CLASS_def BELOW_NORMAL_PRIORITY_CLASS_def
  NORMAL_PRIORITY_CLASS_def ABOVE_NORMAL_PRIORITY_CLASS_def HIGH_PRIORITY_CLASS_def
  REALTIME_PRIORITY_CLASS_def

definition Rank :: "dword \<Rightarrow> nat" where
  "Rank cls =
     (if cls = IDLE_PRIORITY_CLASS then 0
      else if cls = BELOW_NORMAL_PRIORITY_CLASS then 1
      else if cls = NORMAL_PRIORITY_CLASS then 2
      else if cls = ABOVE_NORMAL_PRIORITY_CLASS then 3
      else if cls = HIGH_PRIORITY_CLASS then 4
      else if cls = REALTIME_PRIORITY_CLASS then 5
      else 2)"

definition PriorityClassName :: "dword \<Rightarrow> string" where
  "PriorityClassName cls =
     (if cls = IDLE_PRIORITY_CLASS then ''idle''
      else if cls = BELOW_NORMAL_PRIORITY_CLASS then ''below normal''
      else if cls = NORMAL_PRIORITY_CLASS then ''normal''
      else if cls = ABOVE_NORMAL_PRIORITY_CLASS then ''above normal''
      else if cls = HIGH_PRIORITY_CLASS then ''high''
      else if cls = REALTIME_PRIORITY_CLASS then ''realtime''
      else ''unknown'')"

record ap_entry =
  enPid :: dword
  enName :: wstring
  enHandle :: handle
  enOriginalClass :: dword
  enCurrentClass :: dword
  enCpuAtAction :: double
  enSinceTick :: u64

record protector =
  ppSettings :: auto_settings
  ppState :: auto_state
  ppTable :: process_table
  ppThrottled :: "(dword \<times> ap_entry) list"
  ppExempt :: "dword list"
  ppLastIdle :: u64
  ppLastTotal :: u64
  ppSystemCpu :: double

record ap_env =
  aeSystemTimes :: "(filetime \<times> filetime \<times> filetime) option"
  aeExited :: "dword \<Rightarrow> bool"
  aeOpen :: "dword \<Rightarrow> handle option"
  aeSetOk :: "dword \<Rightarrow> dword \<Rightarrow> bool"
  aeTick :: u64
  aeTable :: table_env

datatype ap_effect =
    ApClose handle
  | ApOpen handle
  | ApSet dword dword
  | ApLog string "ap_entry option" dword dword string

type_synonym priorities = "dword \<Rightarrow> dword"

text \<open>\<open>std::to_string(static_cast<int>(x + 0.5))\<close>, and without the rounding.\<close>

definition rounded :: "double \<Rightarrow> string" where
  "rounded x = int_to_string (trunc (x + 1 / 2))"

definition truncated :: "double \<Rightarrow> string" where
  "truncated x = int_to_string (trunc x)"

definition ap_SampleSystemCpu :: "ap_env \<Rightarrow> protector \<Rightarrow> protector" where
  "ap_SampleSystemCpu env p =
     (case aeSystemTimes env of
        None \<Rightarrow> p
      | Some (idleT, kernelT, userT) \<Rightarrow>
          (let idle = FileTimeToUint64 idleT;
               totalB = FileTimeToUint64 kernelT + FileTimeToUint64 userT;
               busy = 1 - real (unat (idle - ppLastIdle p)) / real (unat (totalB - ppLastTotal p));
               p1 = (if ppLastTotal p \<noteq> 0 \<and> totalB > ppLastTotal p
                     then p\<lparr>ppSystemCpu := busy_percent busy\<rparr> else p)
           in p1\<lparr>ppLastIdle := idle, ppLastTotal := totalB\<rparr>))"

definition new_protector :: "ap_env \<Rightarrow> protector" where
  "new_protector env = ap_SampleSystemCpu env
     \<lparr>ppSettings = default_auto_settings, ppState = new_auto_state, ppTable = new_table,
      ppThrottled = [], ppExempt = [], ppLastIdle = 0, ppLastTotal = 0, ppSystemCpu = 0\<rparr>"

text \<open>\<open>Restore\<close> on one table entry; the caller erases it.\<close>

definition restore_entry ::
  "ap_env \<Rightarrow> string \<Rightarrow> dword \<times> ap_entry \<Rightarrow> priorities \<Rightarrow> priorities \<times> ap_effect list" where
  "restore_entry env reason kv pr =
     (let pid = fst kv; e = snd kv in
      if \<not> aeExited env pid then
        (if aeSetOk env pid (enOriginalClass e) then pr(pid := enOriginalClass e) else pr,
         [ApSet pid (enOriginalClass e),
          ApLog ''restored'' (Some e) (enCurrentClass e) (enOriginalClass e) reason,
          ApClose (enHandle e)])
      else (pr, [ApClose (enHandle e)]))"

definition Restore ::
  "ap_env \<Rightarrow> string \<Rightarrow> dword \<times> ap_entry \<Rightarrow> protector \<times> priorities
     \<Rightarrow> (protector \<times> priorities) \<times> ap_effect list" where
  "Restore env reason kv s =
     (let (pr, eff) = restore_entry env reason kv (snd s)
      in (((fst s)\<lparr>ppThrottled := amap_erase (fst kv) (ppThrottled (fst s))\<rparr>, pr), eff))"

fun restore_entries ::
  "ap_env \<Rightarrow> string \<Rightarrow> (dword \<times> ap_entry) list \<Rightarrow> priorities \<Rightarrow> priorities \<times> ap_effect list" where
  "restore_entries env reason [] pr = (pr, [])"
| "restore_entries env reason (kv # kvs) pr =
     (let (pr1, eff1) = restore_entry env reason kv pr;
          (pr2, eff2) = restore_entries env reason kvs pr1
      in (pr2, eff1 @ eff2))"

definition RestoreAll ::
  "ap_env \<Rightarrow> string \<Rightarrow> protector \<times> priorities \<Rightarrow> (protector \<times> priorities) \<times> ap_effect list" where
  "RestoreAll env reason s =
     (let (pr, eff) = restore_entries env reason (ppThrottled (fst s)) (snd s)
      in (((fst s)\<lparr>ppThrottled := []\<rparr>, pr), eff))"

text \<open>The destructor, and what it finds to do after a shutdown has restored everything.\<close>

definition AutoProtector_end ::
  "ap_env \<Rightarrow> protector \<times> priorities \<Rightarrow> (protector \<times> priorities) \<times> ap_effect list" where
  "AutoProtector_end env s = RestoreAll env ''service stopping'' s"

lemma AutoProtector_end_restored: "ppThrottled (fst s) = [] \<Longrightarrow> AutoProtector_end env s = (s, [])"
  by (cases s) (simp add: AutoProtector_end_def RestoreAll_def)

definition ap_Configure ::
  "ap_env \<Rightarrow> auto_settings \<Rightarrow> wstring list \<Rightarrow> protector \<times> priorities
     \<Rightarrow> (protector \<times> priorities) \<times> ap_effect list" where
  "ap_Configure env settings essential s =
     (let p1 = (fst s)\<lparr>ppSettings := settings, ppTable := SetEssentialNames essential (ppTable (fst s))\<rparr>
      in if \<not> apEnabled settings then
           (let (s1, eff) = RestoreAll env ''auto-protect disabled'' (p1, snd s)
            in (((fst s1)\<lparr>ppState := as_Reset (ppState (fst s1))\<rparr>, snd s1), eff))
         else ((p1, snd s), []))"

text \<open>The steps of \<open>Tick\<close>.\<close>

definition forget_exited :: "ap_env \<Rightarrow> protector \<Rightarrow> protector \<times> ap_effect list" where
  "forget_exited env p =
     (p\<lparr>ppThrottled := filter (\<lambda>kv. \<not> aeExited env (fst kv)) (ppThrottled p)\<rparr>,
      map (\<lambda>kv. ApClose (enHandle (snd kv))) (filter (\<lambda>kv. aeExited env (fst kv)) (ppThrottled p)))"

fun escalate_entries ::
  "ap_env \<Rightarrow> double \<Rightarrow> dword \<Rightarrow> (dword \<times> ap_entry) list \<Rightarrow> priorities
     \<Rightarrow> (dword \<times> ap_entry) list \<times> priorities \<times> ap_effect list" where
  "escalate_entries env idleP target [] pr = ([], pr, [])"
| "escalate_entries env idleP target ((pid, e) # kvs) pr =
     (if Rank (enCurrentClass e) > Rank target \<and> aeSetOk env pid target then
        (let (kvs', pr', eff) = escalate_entries env idleP target kvs (pr(pid := target))
         in ((pid, e\<lparr>enCurrentClass := target\<rparr>) # kvs', pr',
             ApSet pid target #
             ApLog ''lowered_to_idle'' (Some e) (enCurrentClass e) target
               (''system CPU stayed at or above '' @ truncated idleP @ ''%'') # eff))
      else
        (let (kvs', pr', eff) = escalate_entries env idleP target kvs pr
         in ((pid, e) # kvs', pr', eff)))"

definition ap_Lower ::
  "ap_env \<Rightarrow> table_row \<Rightarrow> dword \<Rightarrow> protector \<times> priorities \<Rightarrow> (protector \<times> priorities) \<times> ap_effect list" where
  "ap_Lower env row targetClass s =
     (let p = fst s; pr = snd s; pid = rwPid row in
      case aeOpen env pid of
        None \<Rightarrow> (s, [])
      | Some h \<Rightarrow>
          (let original = pr pid in
           if original = 0 \<or> Rank original \<le> Rank targetClass \<or> \<not> aeSetOk env pid targetClass
           then (s, [ApOpen h, ApClose h])
           else
             (let e = \<lparr>enPid = pid, enName = rwName row, enHandle = h, enOriginalClass = original,
                       enCurrentClass = targetClass, enCpuAtAction = rwCpuPercent row,
                       enSinceTick = aeTick env\<rparr>;
                  stored = (case map_of (ppThrottled p) pid of Some old \<Rightarrow> old | None \<Rightarrow> e);
                  table = (if amap_has pid (ppThrottled p) then ppThrottled p
                           else omap_put pid e (ppThrottled p))
              in ((p\<lparr>ppThrottled := table\<rparr>, pr(pid := targetClass)),
                  [ApOpen h, ApSet pid targetClass,
                   ApLog ''throttled'' (Some stored) original targetClass
                     (''using '' @ rounded (rwCpuPercent row) @ ''% CPU while the system was at '' @
                      rounded (ppSystemCpu p) @ ''%'')]))))"

definition eligible_rows ::
  "(wstring \<Rightarrow> dword \<Rightarrow> bool) \<Rightarrow> protector \<Rightarrow> table_row list \<Rightarrow> table_row list" where
  "eligible_rows exclude p rows = filter (\<lambda>r.
     rwAccessible r \<and> siLevel (rwSafety r) = SfNormal \<and>
     \<not> amap_has (rwPid r) (ppThrottled p) \<and> rwPid r \<notin> set (ppExempt p) \<and>
     \<not> exclude (rwName r) (rwPid r)) rows"

fun lower_all ::
  "ap_env \<Rightarrow> table_row list \<Rightarrow> dword \<Rightarrow> auto_candidate list \<Rightarrow> protector \<times> priorities
     \<Rightarrow> (protector \<times> priorities) \<times> ap_effect list" where
  "lower_all env rows target [] s = (s, [])"
| "lower_all env rows target (c # cs) s =
     (let (s1, eff1) = (case find (\<lambda>r. rwPid r = acPid c) rows of
            None \<Rightarrow> (s, [])
          | Some r \<Rightarrow> ap_Lower env r target s);
          (s2, eff2) = lower_all env rows target cs s1
      in (s2, eff1 @ eff2))"

definition select_and_lower ::
  "ap_env \<Rightarrow> (wstring \<Rightarrow> dword \<Rightarrow> bool) \<Rightarrow> table_row list \<Rightarrow> dword \<Rightarrow> protector \<times> priorities
     \<Rightarrow> (protector \<times> priorities) \<times> ap_effect list" where
  "select_and_lower env exclude rows target s =
     (let p = fst s; n = length (ppThrottled p) in
      if int n < apMaxProcesses (ppSettings p) then
        (let eligible = map (\<lambda>r. \<lparr>acPid = rwPid r, acName = rwName r, acCpu = rwCpuPercent r\<rparr>)
               (eligible_rows exclude p rows);
             chosen = SelectAutoTargets eligible (apMinProcessCpuPercent (ppSettings p))
               (nat (apMaxProcesses (ppSettings p)) - n)
         in lower_all env rows target chosen s)
      else (s, []))"

definition level_detail :: "auto_level \<Rightarrow> auto_level \<Rightarrow> double \<Rightarrow> string" where
  "level_detail before level cpu = AutoLevelName before @ '' -> '' @ AutoLevelName level @
     '' at '' @ rounded cpu @ ''% system CPU''"

definition tick_elevated ::
  "name_eq \<Rightarrow> ap_env \<Rightarrow> (wstring \<Rightarrow> dword \<Rightarrow> bool) \<Rightarrow> auto_level \<Rightarrow> protector \<times> priorities
     \<Rightarrow> (protector \<times> priorities) \<times> ap_effect list" where
  "tick_elevated ceq env exclude level s =
     (let p = fst s;
          (rows, table, sys) = pt_Sample ceq (aeTable env) (ppTable p, default_system);
          p1 = p\<lparr>ppTable := table,
                 ppExempt := filter (\<lambda>x. \<exists>r \<in> set rows. rwPid r = x) (ppExempt p)\<rparr>;
          target = (if level = AlIdle then IDLE_PRIORITY_CLASS else BELOW_NORMAL_PRIORITY_CLASS);
          (kvs, pr, eff1) = escalate_entries env (apIdlePercent (ppSettings p1)) target
            (ppThrottled p1) (snd s);
          (s2, eff2) = select_and_lower env exclude rows target (p1\<lparr>ppThrottled := kvs\<rparr>, pr)
      in (s2, eff1 @ eff2))"

definition tick_normal ::
  "name_eq \<Rightarrow> ap_env \<Rightarrow> double \<Rightarrow> protector \<times> priorities
     \<Rightarrow> (protector \<times> priorities) \<times> ap_effect list" where
  "tick_normal ceq env cpu s =
     (let recover = apRecoverPercent (ppSettings (fst s));
          (s1, eff) = RestoreAll env (''system CPU back below '' @ truncated recover @ ''%'') s;
          p1 = fst s1
      in if cpu \<ge> recover then
           ((p1\<lparr>ppTable := fst (snd (pt_Sample ceq (aeTable env) (ppTable p1, default_system)))\<rparr>,
             snd s1), eff)
         else (s1, eff))"

definition Tick ::
  "name_eq \<Rightarrow> ap_env \<Rightarrow> (wstring \<Rightarrow> dword \<Rightarrow> bool) \<Rightarrow> protector \<times> priorities
     \<Rightarrow> (protector \<times> priorities) \<times> ap_effect list" where
  "Tick ceq env exclude s =
     (let p0 = ap_SampleSystemCpu env (fst s); cpu = ppSystemCpu p0 in
      if \<not> apEnabled (ppSettings p0) then ((p0, snd s), [])
      else
        (let (p1, eff1) = forget_exited env p0;
             before = asLevel (ppState p1);
             (level, st) = as_Update cpu (ppSettings p1) (ppState p1);
             p2 = p1\<lparr>ppState := st\<rparr>;
             eff2 = (if level \<noteq> before then [ApLog ''level'' None 0 0 (level_detail before level cpu)] else []);
             (s3, eff3) = (if level = AlNormal then tick_normal ceq env cpu (p2, snd s)
                           else tick_elevated ceq env exclude level (p2, snd s))
         in (s3, eff1 @ eff2 @ eff3)))"

definition Exempt ::
  "ap_env \<Rightarrow> dword \<Rightarrow> wstring \<Rightarrow> protector \<times> priorities
     \<Rightarrow> bool \<times> (protector \<times> priorities) \<times> ap_effect list" where
  "Exempt env pid name s =
     (let (s1, eff) = (case map_of (ppThrottled (fst s)) pid of
            None \<Rightarrow> (s, [])
          | Some e \<Rightarrow> Restore env ''restored and exempted by an administrator'' (pid, e) s);
          p1 = fst s1;
          e = \<lparr>enPid = pid, enName = name, enHandle = 0, enOriginalClass = NORMAL_PRIORITY_CLASS,
               enCurrentClass = NORMAL_PRIORITY_CLASS, enCpuAtAction = 0, enSinceTick = 0\<rparr>
      in (True,
          (p1\<lparr>ppExempt := (if pid \<in> set (ppExempt p1) then ppExempt p1 else insort pid (ppExempt p1))\<rparr>, snd s1),
          eff @ [ApLog ''exempted'' (Some e) 0 0 ''excluded from auto-protect until it exits'']))"

definition IsAutoManaged :: "protector \<Rightarrow> dword \<Rightarrow> bool" where
  "IsAutoManaged p pid = amap_has pid (ppThrottled p)"

definition ap_States :: "protector \<Rightarrow> (dword \<times> string) list" where
  "ap_States p = map (\<lambda>(pid, e). (pid, ''auto: '' @ PriorityClassName (enCurrentClass e))) (ppThrottled p)"

section \<open>The class every process is meant to have\<close>

type_synonym ap_world = "protector \<times> priorities"

text \<open>What a process had before it was lowered: its own class if it is not lowered.\<close>

definition own_class :: "ap_world \<Rightarrow> dword \<Rightarrow> dword" where
  "own_class s pid = (case map_of (ppThrottled (fst s)) pid of
      Some e \<Rightarrow> enOriginalClass e | None \<Rightarrow> snd s pid)"

definition lowered_ok :: "dword \<times> ap_entry \<Rightarrow> bool" where
  "lowered_ok kv = (Rank (enCurrentClass (snd kv)) \<le> Rank (enOriginalClass (snd kv)))"

definition ap_inv :: "ap_world \<Rightarrow> bool" where
  "ap_inv s = (okeys (ppThrottled (fst s)) \<and> (\<forall>kv \<in> set (ppThrottled (fst s)). lowered_ok kv))"

text \<open>Windows lets the protector put \<open>pid\<close> back, and \<open>pid\<close> is running.\<close>

definition restorable :: "ap_env \<Rightarrow> ap_world \<Rightarrow> dword \<Rightarrow> bool" where
  "restorable env s pid = (\<not> aeExited env pid \<and> aeSetOk env pid (own_class s pid))"

lemma map_of_filter_key:
  "map_of (filter (\<lambda>kv. P (fst kv)) m) k = (if P k then map_of m k else None)"
  by (induction m) auto

lemma okeys_filter: "okeys m \<Longrightarrow> okeys (filter P m)"
  unfolding okeys_def by (induction m) auto

lemma ap_SampleSystemCpu_fields [simp]:
  "ppThrottled (ap_SampleSystemCpu env p) = ppThrottled p"
  "ppSettings (ap_SampleSystemCpu env p) = ppSettings p"
  "ppState (ap_SampleSystemCpu env p) = ppState p"
  "ppTable (ap_SampleSystemCpu env p) = ppTable p"
  "ppExempt (ap_SampleSystemCpu env p) = ppExempt p"
  by (auto simp: ap_SampleSystemCpu_def Let_def split: option.splits prod.splits)

lemma SampleSystemCpu_range:
  "0 \<le> ppSystemCpu p \<Longrightarrow> ppSystemCpu p \<le> 100 \<Longrightarrow>
   0 \<le> ppSystemCpu (ap_SampleSystemCpu env p) \<and> ppSystemCpu (ap_SampleSystemCpu env p) \<le> 100"
  by (cases "aeSystemTimes env") (simp_all add: ap_SampleSystemCpu_def Let_def split_beta busy_bounds)

subsection \<open>Restoring\<close>

lemma restore_entry_other:
  "q \<noteq> fst kv \<Longrightarrow> fst (restore_entry env reason kv pr) q = pr q"
  by (simp add: restore_entry_def Let_def)

lemma restore_entry_same:
  "\<not> aeExited env (fst kv) \<Longrightarrow> aeSetOk env (fst kv) (enOriginalClass (snd kv)) \<Longrightarrow>
   fst (restore_entry env reason kv pr) (fst kv) = enOriginalClass (snd kv)"
  by (simp add: restore_entry_def Let_def)

lemma restore_entries_prio:
  "distinct (map fst kvs) \<Longrightarrow>
   fst (restore_entries env reason kvs pr) q = (case map_of kvs q of
     None \<Rightarrow> pr q
   | Some e \<Rightarrow> fst (restore_entry env reason (q, e) pr) q)"
proof (induction kvs arbitrary: pr)
  case Nil
  then show ?case by simp
next
  case (Cons kv kvs)
  then have n: "map_of kvs (fst kv) = None" by (simp add: map_of_eq_None_iff)
  have same: "fst (restore_entry env reason (q, e) (fst (restore_entry env reason kv pr))) q =
      fst (restore_entry env reason (q, e) pr) q" if "q \<noteq> fst kv" for e
    using that by (simp add: restore_entry_def Let_def)
  show ?case
  proof (cases "q = fst kv")
    case True
    then show ?thesis using Cons n by (simp add: split_beta)
  next
    case False
    then show ?thesis
      using Cons same by (simp add: split_beta restore_entry_other split: option.splits)
  qed
qed

lemma RestoreAll_base:
  assumes "ap_inv s" and "RestoreAll env reason s = (s', eff)"
  shows "restorable env s pid \<Longrightarrow> own_class s' pid = own_class s pid \<and> snd s' pid = own_class s pid"
    and "ppThrottled (fst s') = []"
proof -
  let ?kvs = "ppThrottled (fst s)"
  have d: "distinct (map fst ?kvs)" using assms(1) okeys_distinct unfolding ap_inv_def by blast
  have s': "snd s' = fst (restore_entries env reason ?kvs (snd s))" and e: "ppThrottled (fst s') = []"
    using assms(2) by (auto simp: RestoreAll_def split_beta)
  show "ppThrottled (fst s') = []" by (rule e)
  assume r: "restorable env s pid"
  have "snd s' pid = own_class s pid"
  proof (cases "map_of ?kvs pid")
    case None
    then show ?thesis by (simp add: s' restore_entries_prio [OF d] own_class_def)
  next
    case (Some x)
    then show ?thesis
      using r restore_entry_same [of env "(pid, x)" reason "snd s"]
      by (simp add: s' restore_entries_prio [OF d] own_class_def restorable_def)
  qed
  then show "own_class s' pid = own_class s pid \<and> snd s' pid = own_class s pid"
    by (simp add: own_class_def e)
qed

lemma restore_entries_sets:
  "ApSet q c \<in> set (snd (restore_entries env reason kvs pr)) \<Longrightarrow> \<exists>e. (q, e) \<in> set kvs \<and> c = enOriginalClass e"
proof (induction kvs arbitrary: pr)
  case Nil
  then show ?case by simp
next
  case (Cons kv kvs)
  then show ?case
    by (cases kv) (fastforce simp: split_beta restore_entry_def Let_def split: if_splits)
qed

subsection \<open>Lowering\<close>

lemma escalate_entries_spec:
  "escalate_entries env idleP target kvs pr = (kvs', pr', eff) \<Longrightarrow>
   map fst kvs' = map fst kvs \<and>
   map (\<lambda>kv. enOriginalClass (snd kv)) kvs' = map (\<lambda>kv. enOriginalClass (snd kv)) kvs \<and>
   (\<forall>q. q \<notin> fst ` set kvs \<longrightarrow> pr' q = pr q) \<and>
   ((\<forall>kv \<in> set kvs. lowered_ok kv) \<longrightarrow> (\<forall>kv \<in> set kvs'. lowered_ok kv)) \<and>
   (\<forall>q c. ApSet q c \<in> set eff \<longrightarrow> c = target \<and> (\<exists>e. (q, e) \<in> set kvs \<and> Rank target < Rank (enCurrentClass e)))"
proof (induction kvs arbitrary: pr kvs' pr' eff)
  case Nil
  then show ?case by simp
next
  case (Cons kv kvs)
  obtain pid e where kv: "kv = (pid, e)" by fastforce
  show ?case
  proof (cases "Rank (enCurrentClass e) > Rank target \<and> aeSetOk env pid target")
    case True
    obtain k p f where r: "escalate_entries env idleP target kvs (pr(pid := target)) = (k, p, f)"
      by (metis prod_cases3)
    have res: "kvs' = (pid, e\<lparr>enCurrentClass := target\<rparr>) # k" "pr' = p"
      and eff: "\<forall>q c. ApSet q c \<in> set eff \<longrightarrow> (q = pid \<and> c = target) \<or> ApSet q c \<in> set f"
      using Cons.prems True r by (auto simp: kv)
    note ih = Cons.IH [OF r]
    have "\<forall>q c. ApSet q c \<in> set eff \<longrightarrow> c = target \<and>
        (\<exists>e. (q, e) \<in> set (kv # kvs) \<and> Rank target < Rank (enCurrentClass e))"
      using eff ih True by (simp add: kv) blast
    moreover have "(\<forall>kv \<in> set (kv # kvs). lowered_ok kv) \<longrightarrow> (\<forall>kv \<in> set kvs'. lowered_ok kv)"
      using ih True by (simp add: res kv lowered_ok_def)
    moreover have "\<forall>q. q \<notin> fst ` set (kv # kvs) \<longrightarrow> pr' q = pr q"
      using ih by (simp add: res kv)
    moreover have "map fst kvs' = map fst (kv # kvs)"
      "map (\<lambda>kv. enOriginalClass (snd kv)) kvs' = map (\<lambda>kv. enOriginalClass (snd kv)) (kv # kvs)"
      using ih by (simp_all add: res kv)
    ultimately show ?thesis by blast
  next
    case False
    obtain k p f where r: "escalate_entries env idleP target kvs pr = (k, p, f)"
      by (metis prod_cases3)
    then have res: "kvs' = (pid, e) # k" "pr' = p" "eff = f"
      using Cons.prems False by (auto simp: kv)
    note ih = Cons.IH [OF r]
    have "\<forall>q c. ApSet q c \<in> set eff \<longrightarrow> c = target \<and>
        (\<exists>e. (q, e) \<in> set (kv # kvs) \<and> Rank target < Rank (enCurrentClass e))"
      using ih unfolding res by (metis list.set_intros(2))
    moreover have "map fst kvs' = map fst (kv # kvs)"
      "map (\<lambda>kv. enOriginalClass (snd kv)) kvs' = map (\<lambda>kv. enOriginalClass (snd kv)) (kv # kvs)"
      "(\<forall>kv \<in> set (kv # kvs). lowered_ok kv) \<longrightarrow> (\<forall>kv \<in> set kvs'. lowered_ok kv)"
      "\<forall>q. q \<notin> fst ` set (kv # kvs) \<longrightarrow> pr' q = pr q"
      using ih by (simp_all add: res kv)
    ultimately show ?thesis by blast
  qed
qed

lemma map_of_same_keys:
  "map fst kvs' = map fst kvs \<Longrightarrow> map (\<lambda>kv. f (snd kv)) kvs' = map (\<lambda>kv. f (snd kv)) kvs \<Longrightarrow>
   map_option f (map_of kvs' k) = map_option f (map_of kvs k)"
proof (induction kvs arbitrary: kvs')
  case (Cons a kvs)
  obtain b l where l: "kvs' = b # l" "fst b = fst a" "f (snd b) = f (snd a)"
      "map fst l = map fst kvs" "map (\<lambda>kv. f (snd kv)) l = map (\<lambda>kv. f (snd kv)) kvs"
    using Cons.prems by (cases kvs') simp_all
  show ?case
    using Cons.IH [OF l(4,5)] l(1,2,3) by (cases a; cases b) simp
qed simp

lemma own_class_option:
  "own_class s pid = (case map_option enOriginalClass (map_of (ppThrottled (fst s)) pid) of
     Some c \<Rightarrow> c | None \<Rightarrow> snd s pid)"
  by (simp add: own_class_def split: option.splits)

lemma escalate_base:
  assumes "escalate_entries env idleP target (ppThrottled p) pr = (kvs, pr', eff)"
  shows "own_class (p'\<lparr>ppThrottled := kvs\<rparr>, pr') pid = own_class (p, pr) pid"
proof -
  note e = escalate_entries_spec [OF assms]
  have "map_option enOriginalClass (map_of kvs pid) = map_option enOriginalClass (map_of (ppThrottled p) pid)"
    using e by (intro map_of_same_keys) auto
  moreover have "pr' pid = pr pid" if "map_of (ppThrottled p) pid = None"
    using e that by (simp add: map_of_eq_None_iff)
  ultimately show ?thesis by (auto simp: own_class_option split: option.splits)
qed

lemma Lower_spec:
  assumes "ap_Lower env row target s = (s', eff)" and "ap_inv s"
  shows "own_class s' = own_class s" and "ap_inv s'"
    and "ppSettings (fst s') = ppSettings (fst s)"
    and "length (ppThrottled (fst s')) \<le> Suc (length (ppThrottled (fst s)))"
    and "ApSet q c \<in> set eff \<Longrightarrow> q = rwPid row \<and> c = target \<and> Rank c < Rank (snd s q)"
    and "snd s' q = snd s q \<or> q = rwPid row \<and> snd s' q = target"
    and "q \<noteq> rwPid row \<Longrightarrow> map_of (ppThrottled (fst s')) q = map_of (ppThrottled (fst s)) q"
proof -
  have len: "length (omap_put k v m) \<le> Suc (length m)" for k :: dword and v :: ap_entry and m
    by (induction m) auto
  have ok: "okeys (ppThrottled (fst s))" using assms(2) by (simp add: ap_inv_def)
  show "own_class s' = own_class s"
    using assms(1) ok
    by (auto simp: ap_Lower_def Let_def own_class_def amap_has_def map_of_omap_put fun_eq_iff
        split: option.splits if_splits)
  show "ap_inv s'"
    using assms ok omap.set_put [OF ok]
    by (auto simp: ap_Lower_def Let_def ap_inv_def amap_has_def okeys_omap_put lowered_ok_def
        split: option.splits if_splits)
  show "ppSettings (fst s') = ppSettings (fst s)"
    and "length (ppThrottled (fst s')) \<le> Suc (length (ppThrottled (fst s)))"
    and "ApSet q c \<in> set eff \<Longrightarrow> q = rwPid row \<and> c = target \<and> Rank c < Rank (snd s q)"
    and "snd s' q = snd s q \<or> q = rwPid row \<and> snd s' q = target"
    and "q \<noteq> rwPid row \<Longrightarrow> map_of (ppThrottled (fst s')) q = map_of (ppThrottled (fst s)) q"
    using assms(1) len ok
    by (auto simp: ap_Lower_def Let_def map_of_omap_put split: option.splits if_splits)
qed

lemma lower_all_spec:
  "lower_all env rows target cs s = (s', eff) \<Longrightarrow> ap_inv s \<Longrightarrow>
   own_class s' = own_class s \<and> ap_inv s' \<and> ppSettings (fst s') = ppSettings (fst s) \<and>
   length (ppThrottled (fst s')) \<le> length (ppThrottled (fst s)) + length cs"
proof (induction cs arbitrary: s s' eff)
  case Nil
  then show ?case by simp
next
  case (Cons c cs)
  show ?case
  proof (cases "find (\<lambda>r. rwPid r = acPid c) rows")
    case None
    then show ?thesis using Cons by (fastforce simp: split_beta)
  next
    case (Some r)
    obtain s1 e1 where l: "ap_Lower env r target s = (s1, e1)" by fastforce
    obtain s2 e2 where r: "lower_all env rows target cs s1 = (s2, e2)" by fastforce
    have "s' = s2" using Cons.prems(1) Some l r by simp
    then show ?thesis
      using Cons.IH [OF r Lower_spec(2) [OF l Cons.prems(2)]] Lower_spec [OF l Cons.prems(2)] by auto
  qed
qed

text \<open>A candidate's row is the first with its identifier; lowering spares everything else.\<close>

lemma lower_all_sets:
  "lower_all env rows target cs s = (s', eff) \<Longrightarrow> ap_inv s \<Longrightarrow> ApSet q c \<in> set eff \<Longrightarrow>
   c = target \<and> q \<in> acPid ` set cs \<and> Rank c < Rank (snd s q)"
proof (induction cs arbitrary: s s' eff)
  case Nil
  then show ?case by simp
next
  case (Cons d cs)
  show ?case
  proof (cases "find (\<lambda>r. rwPid r = acPid d) rows")
    case None
    then show ?thesis using Cons by (fastforce simp: split_beta)
  next
    case (Some r)
    obtain s1 e1 where l: "ap_Lower env r target s = (s1, e1)" by fastforce
    obtain s2 e2 where r: "lower_all env rows target cs s1 = (s2, e2)" by fastforce
    have pid: "rwPid r = acPid d" using Some by (auto simp: find_Some_iff)
    have "ApSet q c \<in> set e1 \<or> ApSet q c \<in> set e2" using Cons.prems(1,3) Some l r by auto
    then show ?thesis
    proof
      assume e1: "ApSet q c \<in> set e1"
      show ?thesis using Lower_spec(5) [OF l Cons.prems(2) e1] pid by auto
    next
      assume "ApSet q c \<in> set e2"
      then show ?thesis
        using Cons.IH [OF r Lower_spec(2) [OF l Cons.prems(2)]]
          Lower_spec(6) [OF l Cons.prems(2), of q] by auto
    qed
  qed
qed

section \<open>One tick\<close>

lemma ap_inv_cong [simp]:
  "ap_inv (p\<lparr>ppState := st\<rparr>, pr) = ap_inv (p, pr)" "ap_inv (p\<lparr>ppTable := t\<rparr>, pr) = ap_inv (p, pr)"
  "ap_inv (p\<lparr>ppExempt := x\<rparr>, pr) = ap_inv (p, pr)" "ap_inv (p\<lparr>ppSettings := se\<rparr>, pr) = ap_inv (p, pr)"
  "ap_inv (ap_SampleSystemCpu env p, pr) = ap_inv (p, pr)"
  by (simp_all add: ap_inv_def)

lemma own_class_cong [simp]:
  "own_class (p\<lparr>ppState := st\<rparr>, pr) = own_class (p, pr)" "own_class (p\<lparr>ppTable := t\<rparr>, pr) = own_class (p, pr)"
  "own_class (p\<lparr>ppExempt := x\<rparr>, pr) = own_class (p, pr)" "own_class (p\<lparr>ppSettings := se\<rparr>, pr) = own_class (p, pr)"
  "own_class (ap_SampleSystemCpu env p, pr) = own_class (p, pr)"
  by (simp_all add: own_class_def fun_eq_iff split: option.split)

lemma forget_exited_base:
  "\<not> aeExited env pid \<Longrightarrow> own_class (fst (forget_exited env p), pr) pid = own_class (p, pr) pid"
  by (simp add: forget_exited_def own_class_def map_of_filter_key [where P = "\<lambda>k. \<not> aeExited env k"] split: option.split)

lemma forget_exited_inv:
  "ap_inv (p, pr) \<Longrightarrow> ap_inv (fst (forget_exited env p), pr)"
  by (simp add: forget_exited_def ap_inv_def okeys_filter)

lemma forget_exited_fields [simp]:
  "ppSettings (fst (forget_exited env p)) = ppSettings p" "ppState (fst (forget_exited env p)) = ppState p"
  "ppTable (fst (forget_exited env p)) = ppTable p" "ppExempt (fst (forget_exited env p)) = ppExempt p"
  by (simp_all add: forget_exited_def)

lemma forget_exited_length: "length (ppThrottled (fst (forget_exited env p))) \<le> length (ppThrottled p)"
  by (simp add: forget_exited_def)

lemma forget_exited_sets: "ApSet q c \<notin> set (snd (forget_exited env p))"
  by (auto simp: forget_exited_def)

text \<open>Which processes may be chosen at a tick.\<close>

definition may_lower ::
  "name_eq \<Rightarrow> ap_env \<Rightarrow> (wstring \<Rightarrow> dword \<Rightarrow> bool) \<Rightarrow> protector \<Rightarrow> dword \<Rightarrow> bool" where
  "may_lower ceq env exclude p q = (\<exists>e \<in> set (teSnapshot (aeTable env)).
     pePid e = q \<and> q \<noteq> 0 \<and> teOpen (aeTable env) q \<and> \<not> exclude (peName e) q \<and> q \<notin> set (ppExempt p) \<and>
     siLevel (ClassifyProcess ceq (teProc (aeTable env)) q (peName e) (ptEssential (ppTable p))) = SfNormal)"

lemma chosen_eligible:
  assumes "q \<in> acPid ` set (SelectAutoTargets
      (map (\<lambda>r. \<lparr>acPid = rwPid r, acName = rwName r, acCpu = rwCpuPercent r\<rparr>) rs) m k)"
  shows "\<exists>r \<in> set rs. rwPid r = q"
proof -
  obtain c where c: "c \<in> set (SelectAutoTargets
      (map (\<lambda>r. \<lparr>acPid = rwPid r, acName = rwName r, acCpu = rwCpuPercent r\<rparr>) rs) m k)" "q = acPid c"
    using assms by blast
  from Select_members(1) [OF c(1)] c(2) show ?thesis by auto
qed

lemma select_and_lower_spec:
  assumes "select_and_lower env exclude rows target s = (s', eff)" and "ap_inv s"
  shows "own_class s' = own_class s" and "ap_inv s'"
    and "int (length (ppThrottled (fst s'))) \<le>
      max (int (length (ppThrottled (fst s)))) (apMaxProcesses (ppSettings (fst s)))"
    and "ApSet q c \<in> set eff \<Longrightarrow> c = target \<and> Rank c < Rank (own_class s q) \<and>
      (\<exists>r \<in> set (eligible_rows exclude (fst s) rows). rwPid r = q)"
proof -
  define el where "el = eligible_rows exclude (fst s) rows"
  define chosen where "chosen = SelectAutoTargets
    (map (\<lambda>r. \<lparr>acPid = rwPid r, acName = rwName r, acCpu = rwCpuPercent r\<rparr>) el)
    (apMinProcessCpuPercent (ppSettings (fst s)))
    (nat (apMaxProcesses (ppSettings (fst s))) - length (ppThrottled (fst s)))"
  let ?room = "int (length (ppThrottled (fst s))) < apMaxProcesses (ppSettings (fst s))"
  have la: "if ?room then lower_all env rows target chosen s = (s', eff) else s' = s \<and> eff = []"
    using assms(1) by (auto simp: select_and_lower_def Let_def chosen_def el_def split: if_splits)
  have lc: "length chosen \<le> nat (apMaxProcesses (ppSettings (fst s))) - length (ppThrottled (fst s))"
    unfolding chosen_def by (rule Select_length)
  show "own_class s' = own_class s" and "ap_inv s'"
    using lower_all_spec [OF _ assms(2)] la assms(2) by (auto split: if_splits)
  show "int (length (ppThrottled (fst s'))) \<le>
      max (int (length (ppThrottled (fst s)))) (apMaxProcesses (ppSettings (fst s)))"
    using lower_all_spec [OF _ assms(2)] la lc by (cases ?room) fastforce+
  assume e: "ApSet q c \<in> set eff"
  then have l: "lower_all env rows target chosen s = (s', eff)" using la by (auto split: if_splits)
  note ls = lower_all_sets [OF l assms(2) e]
  then obtain r where r: "r \<in> set el" "rwPid r = q" using chosen_eligible unfolding chosen_def by blast
  then have "own_class s q = snd s q" by (simp add: el_def eligible_rows_def own_class_def amap_has_def)
  then show "c = target \<and> Rank c < Rank (own_class s q) \<and>
      (\<exists>r \<in> set (eligible_rows exclude (fst s) rows). rwPid r = q)"
    using ls r by (auto simp: el_def)
qed

text \<open>An eligible row is one that may be lowered: its exemption is among those kept.\<close>

lemma eligible_may_lower:
  assumes "r \<in> set (eligible_rows exclude p1 rows)"
    and "pt_Sample ceq (aeTable env) (ppTable p, sys0) = (rows, table, sys)"
    and "ppExempt p1 = filter (\<lambda>x. \<exists>r \<in> set rows. rwPid r = x) (ppExempt p)"
  shows "may_lower ceq env exclude p (rwPid r)"
proof -
  have "r \<in> set (fst (pt_Sample ceq (aeTable env) (ppTable p, sys0)))"
    using assms(1,2) by (simp add: eligible_rows_def)
  moreover have "rwPid r \<notin> set (ppExempt p)" using assms(1,3) by (auto simp: eligible_rows_def)
  ultimately show ?thesis
    using assms(1) Sample_rows by (fastforce simp: may_lower_def eligible_rows_def)
qed

lemma escalated_facts:
  assumes "escalate_entries env idleP target (ppThrottled p) pr = (kvs, pr', eff)" and "ap_inv (p, pr)"
  shows "length kvs = length (ppThrottled p)" and "ap_inv (p'\<lparr>ppThrottled := kvs\<rparr>, pr')"
    and "ApSet q c \<in> set eff \<Longrightarrow> c = target \<and> Rank c < Rank (own_class (p, pr) q) \<and> amap_has q (ppThrottled p)"
proof -
  note e = escalate_entries_spec [OF assms(1)]
  have keys: "map fst kvs = map fst (ppThrottled p)" using e by simp
  then show "length kvs = length (ppThrottled p)" by (rule map_eq_imp_length_eq)
  show "ap_inv (p'\<lparr>ppThrottled := kvs\<rparr>, pr')" using assms(2) e keys by (simp add: ap_inv_def okeys_def)
  assume "ApSet q c \<in> set eff"
  then obtain x where x: "c = target" "(q, x) \<in> set (ppThrottled p)" "Rank target < Rank (enCurrentClass x)"
    using e by metis
  have "okeys (ppThrottled p)" and ok: "lowered_ok (q, x)" using assms(2) x(2) unfolding ap_inv_def by auto
  then have "map_of (ppThrottled p) q = Some x" using x(2) omap.member_iff [of "ppThrottled p" q x] by simp
  then show "c = target \<and> Rank c < Rank (own_class (p, pr) q) \<and> amap_has q (ppThrottled p)"
    using x ok by (auto simp: own_class_def amap_has_def lowered_ok_def)
qed

lemma tick_elevated_spec:
  assumes "tick_elevated ceq env exclude level s = (s', eff)" and "ap_inv s"
  shows "own_class s' = own_class s" and "ap_inv s'"
    and "int (length (ppThrottled (fst s'))) \<le>
      max (int (length (ppThrottled (fst s)))) (apMaxProcesses (ppSettings (fst s)))"
    and "ApSet q c \<in> set eff \<Longrightarrow> c \<in> {IDLE_PRIORITY_CLASS, BELOW_NORMAL_PRIORITY_CLASS} \<and>
      Rank c < Rank (own_class s q) \<and>
      (amap_has q (ppThrottled (fst s)) \<or> may_lower ceq env exclude (fst s) q)"
proof -
  let ?p = "fst s"
  obtain rows table sys where sm: "pt_Sample ceq (aeTable env) (ppTable ?p, default_system) = (rows, table, sys)"
    by (metis prod_cases3)
  define p1 where "p1 = ?p\<lparr>ppTable := table,
    ppExempt := filter (\<lambda>x. \<exists>r \<in> set rows. rwPid r = x) (ppExempt ?p)\<rparr>"
  define target where "target = (if level = AlIdle then IDLE_PRIORITY_CLASS else BELOW_NORMAL_PRIORITY_CLASS)"
  obtain kvs pr eff1 where es: "escalate_entries env (apIdlePercent (ppSettings ?p)) target
      (ppThrottled ?p) (snd s) = (kvs, pr, eff1)" by (metis prod_cases3)
  define s1 where "s1 = (p1\<lparr>ppThrottled := kvs\<rparr>, pr)"
  obtain s2 eff2 where sl: "select_and_lower env exclude rows target s1 = (s2, eff2)" by fastforce
  have res: "s' = s2" "eff = eff1 @ eff2"
    using assms(1) sl es by (simp_all add: tick_elevated_def sm Let_def s1_def flip: p1_def target_def)
  have inv: "ap_inv (?p, snd s)" using assms(2) by simp
  note e = escalated_facts [OF es inv]
  have b1: "own_class s1 = own_class s" using escalate_base [OF es, of p1] by (simp add: s1_def fun_eq_iff)
  have i1: "ap_inv s1" using e(2) by (simp add: s1_def)
  note l = select_and_lower_spec [OF sl i1]
  show "own_class s' = own_class s" and "ap_inv s'" using l(1,2) b1 by (simp_all add: res)
  show "int (length (ppThrottled (fst s'))) \<le>
      max (int (length (ppThrottled (fst s)))) (apMaxProcesses (ppSettings (fst s)))"
    using l(3) e(1) by (simp add: res s1_def p1_def)
  have tgt: "target \<in> {IDLE_PRIORITY_CLASS, BELOW_NORMAL_PRIORITY_CLASS}" by (simp add: target_def)
  assume "ApSet q c \<in> set eff"
  then consider "ApSet q c \<in> set eff1" | "ApSet q c \<in> set eff2" by (auto simp: res)
  then show "c \<in> {IDLE_PRIORITY_CLASS, BELOW_NORMAL_PRIORITY_CLASS} \<and>
      Rank c < Rank (own_class s q) \<and>
      (amap_has q (ppThrottled (fst s)) \<or> may_lower ceq env exclude (fst s) q)"
  proof cases
    case 1
    then show ?thesis using e(3) tgt by simp
  next
    case 2
    from l(4) [OF this] obtain r where r: "r \<in> set (eligible_rows exclude (fst s1) rows)" "rwPid r = q" by blast
    have "may_lower ceq env exclude ?p (rwPid r)"
      by (rule eligible_may_lower [OF r(1) sm]) (simp add: s1_def p1_def)
    then have "may_lower ceq env exclude ?p q" unfolding r(2) .
    moreover have "c = target" and "Rank c < Rank (own_class s q)" using l(4) [OF 2] unfolding b1 by blast+
    ultimately show ?thesis using tgt by blast
  qed
qed

lemma tick_normal_spec:
  assumes "tick_normal ceq env cpu s = (s', eff)" and "ap_inv s"
  shows "restorable env s pid \<Longrightarrow> own_class s' pid = own_class s pid" and "ppThrottled (fst s') = []"
    and "ApSet q c \<in> set eff \<Longrightarrow> amap_has q (ppThrottled (fst s)) \<and> c = own_class s q"
    and "ppExempt (fst s') = ppExempt (fst s)"
proof -
  define reason where "reason = ''system CPU back below '' @ truncated (apRecoverPercent (ppSettings (fst s))) @ ''%''"
  obtain s1 e1 where r: "RestoreAll env reason s = (s1, e1)" by fastforce
  have s': "snd s' = snd s1" "ppThrottled (fst s') = ppThrottled (fst s1)" "eff = e1"
    "ppExempt (fst s') = ppExempt (fst s1)"
    using assms(1) r unfolding tick_normal_def reason_def by (auto simp: Let_def split: if_splits)
  show "ppThrottled (fst s') = []" using RestoreAll_base(2) [OF assms(2) r] s' by simp
  show "own_class s' pid = own_class s pid" if "restorable env s pid"
  proof -
    have "own_class s' pid = own_class s1 pid" using s' by (simp add: own_class_def split: option.split)
    then show ?thesis using RestoreAll_base(1) [OF assms(2) r that] by simp
  qed
  show "ppExempt (fst s') = ppExempt (fst s)"
    using s'(4) r by (auto simp: RestoreAll_def split_beta)
  assume "ApSet q c \<in> set eff"
  then have "ApSet q c \<in> set (snd (restore_entries env reason (ppThrottled (fst s)) (snd s)))"
    using r s'(3) by (auto simp: RestoreAll_def split_beta)
  from restore_entries_sets [OF this]
  obtain x where x: "(q, x) \<in> set (ppThrottled (fst s))" "c = enOriginalClass x" by blast
  then have "map_of (ppThrottled (fst s)) q = Some x"
    using omap.member_iff [of "ppThrottled (fst s)" q x] assms(2) by (simp add: ap_inv_def)
  then show "amap_has q (ppThrottled (fst s)) \<and> c = own_class s q"
    using x by (simp add: amap_has_def own_class_def)
qed

text \<open>Either kind of tick, with the exited processes already forgotten.\<close>

lemma tick_level_spec:
  assumes "(if level = AlNormal then tick_normal ceq env cpu s else tick_elevated ceq env exclude level s) = (s', eff)"
    and "ap_inv s"
  shows "restorable env s pid \<Longrightarrow> own_class s' pid = own_class s pid" and "ap_inv s'"
    and "int (length (ppThrottled (fst s'))) \<le>
      max (int (length (ppThrottled (fst s)))) (apMaxProcesses (ppSettings (fst s)))"
    and "ApSet q c \<in> set eff \<Longrightarrow> amap_has q (ppThrottled (fst s)) \<and> c = own_class s q \<or>
      c \<in> {IDLE_PRIORITY_CLASS, BELOW_NORMAL_PRIORITY_CLASS} \<and> Rank c < Rank (own_class s q) \<and>
      (amap_has q (ppThrottled (fst s)) \<or> may_lower ceq env exclude (fst s) q)"
proof -
  have n: "tick_normal ceq env cpu s = (s', eff)" if "level = AlNormal" using assms(1) that by simp
  have e: "tick_elevated ceq env exclude level s = (s', eff)" if "level \<noteq> AlNormal" using assms(1) that by simp
  show "restorable env s pid \<Longrightarrow> own_class s' pid = own_class s pid"
    using tick_normal_spec(1) [OF n assms(2)] tick_elevated_spec(1) [OF e assms(2)] by metis
  show "ap_inv s'"
    using tick_normal_spec(2) [OF n assms(2)] tick_elevated_spec(2) [OF e assms(2)]
    by (cases "level = AlNormal") (simp_all add: ap_inv_def okeys_def)
  show "int (length (ppThrottled (fst s'))) \<le>
      max (int (length (ppThrottled (fst s)))) (apMaxProcesses (ppSettings (fst s)))"
    using tick_normal_spec(2) [OF n assms(2)] tick_elevated_spec(3) [OF e assms(2)]
    by (cases "level = AlNormal") simp_all
  show "ApSet q c \<in> set eff \<Longrightarrow> amap_has q (ppThrottled (fst s)) \<and> c = own_class s q \<or>
      c \<in> {IDLE_PRIORITY_CLASS, BELOW_NORMAL_PRIORITY_CLASS} \<and> Rank c < Rank (own_class s q) \<and>
      (amap_has q (ppThrottled (fst s)) \<or> may_lower ceq env exclude (fst s) q)"
    using tick_normal_spec(3) [OF n assms(2)] tick_elevated_spec(4) [OF e assms(2)] by metis
qed

text \<open>The state in which the level is acted upon: exited processes forgotten, the level updated.\<close>

definition ticking :: "ap_env \<Rightarrow> auto_state \<Rightarrow> ap_world \<Rightarrow> ap_world" where
  "ticking env st s = ((fst (forget_exited env (ap_SampleSystemCpu env (fst s))))\<lparr>ppState := st\<rparr>, snd s)"

lemma ticking_facts:
  assumes "ap_inv s"
  shows "ap_inv (ticking env st s)"
    and "own_class (ticking env st s) q = (if aeExited env q then snd s q else own_class s q)"
    and "amap_has q (ppThrottled (fst (ticking env st s))) \<Longrightarrow> amap_has q (ppThrottled (fst s)) \<and> \<not> aeExited env q"
    and "ppSettings (fst (ticking env st s)) = ppSettings (fst s)"
    and "may_lower ceq env exclude (fst (ticking env st s)) q = may_lower ceq env exclude (fst s) q"
    and "length (ppThrottled (fst (ticking env st s))) \<le> length (ppThrottled (fst s))"
proof -
  show "ap_inv (ticking env st s)"
    using forget_exited_inv [of "ap_SampleSystemCpu env (fst s)" "snd s" env] assms by (simp add: ticking_def)
  show "own_class (ticking env st s) q = (if aeExited env q then snd s q else own_class s q)"
    by (auto simp: ticking_def own_class_def forget_exited_def
        map_of_filter_key [where P = "\<lambda>k. \<not> aeExited env k"] split: option.split)
  show "amap_has q (ppThrottled (fst (ticking env st s))) \<Longrightarrow> amap_has q (ppThrottled (fst s)) \<and> \<not> aeExited env q"
    by (simp add: ticking_def amap_has_def forget_exited_def
        map_of_filter_key [where P = "\<lambda>k. \<not> aeExited env k"] split: if_splits)
  show "ppSettings (fst (ticking env st s)) = ppSettings (fst s)" by (simp add: ticking_def)
  show "may_lower ceq env exclude (fst (ticking env st s)) q = may_lower ceq env exclude (fst s) q"
    by (simp add: ticking_def may_lower_def)
  show "length (ppThrottled (fst (ticking env st s))) \<le> length (ppThrottled (fst s))"
    using forget_exited_length [of env "ap_SampleSystemCpu env (fst s)"] by (simp add: ticking_def)
qed

text \<open>A tick does nothing but sample when the protector is off, and acts on its level otherwise.\<close>

lemma Tick_cases:
  assumes "Tick ceq env exclude s = (s', eff)"
  obtains "s' = (ap_SampleSystemCpu env (fst s), snd s)" and "eff = []"
  | level st cpu eff3 where
      "(if level = AlNormal then tick_normal ceq env cpu (ticking env st s)
        else tick_elevated ceq env exclude level (ticking env st s)) = (s', eff3)"
      and "\<And>q c. ApSet q c \<in> set eff \<Longrightarrow> ApSet q c \<in> set eff3"
proof (cases "apEnabled (ppSettings (ap_SampleSystemCpu env (fst s)))")
  case False
  then show ?thesis using assms that(1) by (auto simp: Tick_def Let_def)
next
  case True
  define p0 where "p0 = ap_SampleSystemCpu env (fst s)"
  obtain p1 eff1 where f: "forget_exited env p0 = (p1, eff1)" by fastforce
  obtain level st where u: "as_Update (ppSystemCpu p0) (ppSettings p1) (ppState p1) = (level, st)" by fastforce
  have tk: "ticking env st s = (p1\<lparr>ppState := st\<rparr>, snd s)" using f by (simp add: ticking_def flip: p0_def)
  obtain s3 eff3 where t: "(if level = AlNormal then tick_normal ceq env (ppSystemCpu p0) (ticking env st s)
      else tick_elevated ceq env exclude level (ticking env st s)) = (s3, eff3)" by fastforce
  let ?lv = "if level \<noteq> asLevel (ppState p1) then [ApLog ''level'' None 0 0
      (level_detail (asLevel (ppState p1)) level (ppSystemCpu p0))] else []"
  have res: "s' = s3" "eff = eff1 @ ?lv @ eff3"
    using assms True unfolding Tick_def
    by (simp_all only: Let_def p0_def [symmetric] not_True_eq_False if_False f u tk [symmetric] t prod.case prod.inject)
  have "ApSet q c \<notin> set eff1 \<union> set ?lv" for q c using forget_exited_sets [of q c env p0] f by simp
  then show ?thesis using that(2) [OF t [folded res(1)]] unfolding res by auto
qed

lemma Tick_spec:
  assumes "Tick ceq env exclude s = (s', eff)" and "ap_inv s"
  shows "restorable env s pid \<Longrightarrow> own_class s' pid = own_class s pid" and "ap_inv s'"
    and "int (length (ppThrottled (fst s'))) \<le>
      max (int (length (ppThrottled (fst s)))) (apMaxProcesses (ppSettings (fst s)))"
    and "ApSet q c \<in> set eff \<Longrightarrow>
      amap_has q (ppThrottled (fst s)) \<and> c = own_class s q \<or>
      c \<in> {IDLE_PRIORITY_CLASS, BELOW_NORMAL_PRIORITY_CLASS} \<and>
      Rank c < Rank (if aeExited env q then snd s q else own_class s q) \<and>
      (amap_has q (ppThrottled (fst s)) \<or> may_lower ceq env exclude (fst s) q)"
proof (atomize (full), goal_cases)
  case 1
  from assms(1) show ?case
  proof (cases rule: Tick_cases)
    case 1
    then show ?thesis using assms(2) by simp
  next
    case (2 level st cpu eff3)
    note k = ticking_facts [OF assms(2), where env = env and st = st]
    note sp = tick_level_spec [OF 2(1) k(1)]
    have "own_class s' pid = own_class s pid" if "restorable env s pid"
      using sp(1) [of pid] that k(2) by (simp add: restorable_def)
    moreover have "ApSet q c \<in> set eff \<longrightarrow> amap_has q (ppThrottled (fst s)) \<and> c = own_class s q \<or>
        c \<in> {IDLE_PRIORITY_CLASS, BELOW_NORMAL_PRIORITY_CLASS} \<and>
        Rank c < Rank (if aeExited env q then snd s q else own_class s q) \<and>
        (amap_has q (ppThrottled (fst s)) \<or> may_lower ceq env exclude (fst s) q)"
    proof
      assume "ApSet q c \<in> set eff"
      from sp(4) [OF 2(2) [OF this]] show "amap_has q (ppThrottled (fst s)) \<and> c = own_class s q \<or>
          c \<in> {IDLE_PRIORITY_CLASS, BELOW_NORMAL_PRIORITY_CLASS} \<and>
          Rank c < Rank (if aeExited env q then snd s q else own_class s q) \<and>
          (amap_has q (ppThrottled (fst s)) \<or> may_lower ceq env exclude (fst s) q)"
        using k(2) [of q] k(3) [of q] unfolding k(5) by auto
    qed
    moreover have "int (length (ppThrottled (fst s'))) \<le>
        max (int (length (ppThrottled (fst s)))) (apMaxProcesses (ppSettings (fst s)))"
      using sp(3) k(6) unfolding k(4) by linarith
    ultimately show ?thesis using sp(2) by blast
  qed
qed

section \<open>Runs\<close>

datatype ap_op =
    OpTick ap_env "wstring \<Rightarrow> dword \<Rightarrow> bool"
  | OpExempt ap_env dword wstring
  | OpConfigure ap_env auto_settings "wstring list"

fun op_env :: "ap_op \<Rightarrow> ap_env" where
  "op_env (OpTick env exclude) = env"
| "op_env (OpExempt env pid name) = env"
| "op_env (OpConfigure env settings essential) = env"

fun ap_apply :: "name_eq \<Rightarrow> ap_op \<Rightarrow> ap_world \<Rightarrow> ap_world \<times> ap_effect list" where
  "ap_apply ceq (OpTick env exclude) s = Tick ceq env exclude s"
| "ap_apply ceq (OpExempt env pid name) s = snd (Exempt env pid name s)"
| "ap_apply ceq (OpConfigure env settings essential) s = ap_Configure env settings essential s"

fun ap_run :: "name_eq \<Rightarrow> ap_op list \<Rightarrow> ap_world \<Rightarrow> ap_world" where
  "ap_run ceq [] s = s"
| "ap_run ceq (x # xs) s = ap_run ceq xs (fst (ap_apply ceq x s))"

lemma Restore_own_class:
  assumes "map_of (ppThrottled (fst s)) pid = Some e" and "restorable env s q" and "ap_inv s"
  shows "own_class (fst (Restore env reason (pid, e) s)) q = own_class s q"
  using assms restore_entry_same [of env "(pid, e)" reason "snd s"]
    restore_entry_other [of q "(pid, e)" env reason "snd s"]
  by (cases "q = pid")
    (auto simp: Restore_def split_beta own_class_def map_of_amap_erase restorable_def split: option.split)

lemma Restore_inv: "ap_inv s \<Longrightarrow> ap_inv (fst (Restore env reason kv s))"
  by (auto simp: Restore_def split_beta ap_inv_def okeys_amap_erase) (simp add: amap_erase_def)

lemma Exempt_spec:
  assumes "ap_inv s"
  shows "restorable env s q \<Longrightarrow> own_class (fst (snd (Exempt env pid name s))) q = own_class s q"
    and "ap_inv (fst (snd (Exempt env pid name s)))"
    and "pid \<in> set (ppExempt (fst (fst (snd (Exempt env pid name s)))))"
    and "\<not> amap_has pid (ppThrottled (fst (fst (snd (Exempt env pid name s)))))"
proof -
  let ?s1 = "case map_of (ppThrottled (fst s)) pid of None \<Rightarrow> s
    | Some e \<Rightarrow> fst (Restore env ''restored and exempted by an administrator'' (pid, e) s)"
  have e: "fst (snd (Exempt env pid name s)) = ((fst ?s1)\<lparr>ppExempt :=
      (if pid \<in> set (ppExempt (fst ?s1)) then ppExempt (fst ?s1) else insort pid (ppExempt (fst ?s1)))\<rparr>, snd ?s1)"
    by (cases "map_of (ppThrottled (fst s)) pid") (simp_all add: Exempt_def Let_def split_beta)
  show "restorable env s q \<Longrightarrow> own_class (fst (snd (Exempt env pid name s))) q = own_class s q"
    using Restore_own_class assms unfolding e by (simp split: option.split)
  show "ap_inv (fst (snd (Exempt env pid name s)))"
    using Restore_inv assms unfolding e by (simp split: option.split)
  show "pid \<in> set (ppExempt (fst (fst (snd (Exempt env pid name s)))))"
    unfolding e by (simp add: set_insort_key)
  show "\<not> amap_has pid (ppThrottled (fst (fst (snd (Exempt env pid name s)))))"
    unfolding e
    by (auto simp: Restore_def split_beta amap_has_def map_of_amap_erase split: option.split)
qed

lemma Configure_spec:
  assumes "ap_inv s"
  shows "restorable env s q \<Longrightarrow> own_class (fst (ap_Configure env st ess s)) q = own_class s q"
    and "ap_inv (fst (ap_Configure env st ess s))"
proof -
  let ?p1 = "((fst s)\<lparr>ppSettings := st, ppTable := SetEssentialNames ess (ppTable (fst s))\<rparr>, snd s)"
  obtain s1 eff where r: "RestoreAll env ''auto-protect disabled'' ?p1 = (s1, eff)" by fastforce
  have i: "ap_inv ?p1" using assms by (simp add: ap_inv_def)
  have b: "own_class ?p1 = own_class s" by (simp add: own_class_def fun_eq_iff split: option.split)
  note ra = RestoreAll_base [OF i r]
  have d: "fst (ap_Configure env st ess s) =
      (if apEnabled st then ?p1 else ((fst s1)\<lparr>ppState := as_Reset (ppState (fst s1))\<rparr>, snd s1))"
    using r by (simp add: ap_Configure_def Let_def)
  show "own_class (fst (ap_Configure env st ess s)) q = own_class s q" if "restorable env s q"
    using ra(1) [of q] that b by (simp add: d restorable_def)
  show "ap_inv (fst (ap_Configure env st ess s))"
    using i ra(2) by (simp add: d) (simp add: ap_inv_def okeys_def)
qed

lemma ap_apply_spec:
  assumes "ap_inv s"
  shows "restorable (op_env x) s q \<Longrightarrow> own_class (fst (ap_apply ceq x s)) q = own_class s q"
    and "ap_inv (fst (ap_apply ceq x s))"
proof -
  show "restorable (op_env x) s q \<Longrightarrow> own_class (fst (ap_apply ceq x s)) q = own_class s q"
    using assms Tick_spec(1) [OF surjective_pairing] Exempt_spec(1) Configure_spec(1)
    by (cases x) simp_all
  show "ap_inv (fst (ap_apply ceq x s))"
    using assms Tick_spec(2) [OF surjective_pairing] Exempt_spec(2) Configure_spec(2)
    by (cases x) simp_all
qed

lemma ap_run_spec:
  assumes "ap_inv s" and "\<forall>x \<in> set xs. \<not> aeExited (op_env x) q \<and> aeSetOk (op_env x) q (own_class s q)"
  shows "own_class (ap_run ceq xs s) q = own_class s q \<and> ap_inv (ap_run ceq xs s)"
  using assms
proof (induction xs arbitrary: s)
  case Nil
  then show ?case by simp
next
  case (Cons x xs)
  have "own_class (fst (ap_apply ceq x s)) q = own_class s q"
    using Cons.prems ap_apply_spec(1) [OF Cons.prems(1), of x q] by (simp add: restorable_def)
  then show ?case
    using Cons.IH [OF ap_apply_spec(2) [OF Cons.prems(1), of ceq x]] Cons.prems(2) by simp
qed

text \<open>
  While the level stays normal, exemptions are not pruned: one outlives the process it was made for.
\<close>

lemma Tick_normal_keeps_exempt:
  assumes "apEnabled (ppSettings (fst s))"
    and "fst (as_Update (ppSystemCpu (ap_SampleSystemCpu env (fst s))) (ppSettings (fst s)) (ppState (fst s))) = AlNormal"
    and "ap_inv s"
  shows "ppExempt (fst (fst (Tick ceq env exclude s))) = ppExempt (fst s)"
proof -
  let ?p0 = "ap_SampleSystemCpu env (fst s)"
  let ?p1 = "fst (forget_exited env ?p0)"
  obtain level st where u: "as_Update (ppSystemCpu ?p0) (ppSettings ?p1) (ppState ?p1) = (level, st)"
    by fastforce
  have lv: "level = AlNormal" using u assms(2) by simp
  define s2 where "s2 = (?p1\<lparr>ppState := st\<rparr>, snd s)"
  obtain s3 eff3 where t: "tick_normal ceq env (ppSystemCpu ?p0) s2 = (s3, eff3)" by fastforce
  have i2: "ap_inv s2" using forget_exited_inv [of ?p0 "snd s" env] assms(3) by (simp add: s2_def)
  have "fst (Tick ceq env exclude s) = s3"
    using u t assms(1) lv by (simp add: Tick_def Let_def split_beta flip: s2_def)
  then show ?thesis using tick_normal_spec(4) [OF t i2] by (simp add: s2_def)
qed

end
