(* ===== verification/Telemetry_Properties.thy ===== *)
theory Telemetry_Properties
  imports AutoProtect
begin

text \<open>
  The properties of the telemetry components: adaptive thresholds, the auto-protect policy and its
  application, CPU arithmetic, the classification of processes, identity pinning and the lifecycle
  of tracked processes.
\<close>

section \<open>Adaptive thresholds\<close>

text \<open>
  C20. Whatever the samples and the controller's bias, the adapted throttle threshold stays above the
  recovery threshold, by at least one percentage point when the configured gap allows it; the
  recovery threshold and the required streaks are untouched, and the offset is between 0 and the
  configured maximum.
\<close>

theorem adapted_thresholds_keep_hysteresis:
  assumes "recoverThresholdPercent cfg < throttleThresholdPercent cfg"
  shows "recoverThresholdPercent cfg < throttleThresholdPercent (ad_Adjust a cfg bias) \<and>
    min 1 (throttleThresholdPercent cfg - recoverThresholdPercent cfg)
      \<le> throttleThresholdPercent (ad_Adjust a cfg bias) - recoverThresholdPercent (ad_Adjust a cfg bias) \<and>
    recoverThresholdPercent (ad_Adjust a cfg bias) = recoverThresholdPercent cfg \<and>
    0 \<le> throttleThresholdPercent cfg - throttleThresholdPercent (ad_Adjust a cfg bias) \<and>
    throttleThresholdPercent cfg - throttleThresholdPercent (ad_Adjust a cfg bias)
      \<le> max 0 (maxAdjustPercent (adSettings a)) \<and>
    (positive_counts (ad_Adjust a cfg bias) \<longleftrightarrow> positive_counts cfg)"
  using assms ad_Adjust_hysteresis [OF assms, of a bias] ad_Offset_bounds [of a cfg bias]
  by (simp add: positive_counts_def)

definition rising :: adaptive where
  "rising = \<lparr>adSettings = \<lparr>adEnabled = True, windowSamples = 10, horizonSamples = 3, maxAdjustPercent = 10\<rparr>,
     adWindow = [70, 75, 80]\<rparr>"

theorem adapted_thresholds_keep_hysteresis_witness:
  "recoverThresholdPercent default_sm_config < throttleThresholdPercent (ad_Adjust rising default_sm_config 0)"
proof -
  have "recoverThresholdPercent default_sm_config < throttleThresholdPercent default_sm_config"
    by (simp add: default_sm_config_def)
  from adapted_thresholds_keep_hysteresis [OF this, of rising 0] show ?thesis by blast
qed

text \<open>
  The forecast is a least-squares fit: samples that lie on a line are fitted exactly, whatever
  was sampled before the window began; and with samples that never rise and no bias from the
  controller, the thresholds are exactly the configured ones.
\<close>
lemma falling_load_is_not_adapted:
  assumes "sorted_wrt (\<ge>) (adWindow a)" and "bias \<le> 0"
  shows "ad_Adjust a cfg bias = cfg \<and>
    (\<forall>n \<ge> 3. Fit (map (\<lambda>i. p + q * real i) [0..<n]) = (q, p))"
proof -
  have "ad_Slope a \<le> 0" using Slope_falling [OF assms(1)] by (simp add: ad_Slope_def)
  then show ?thesis using ad_Adjust_idle [of a cfg bias] assms(2) Fit_line by blast
qed

theorem falling_load_is_not_adapted_witness:
  "ad_Adjust (rising\<lparr>adWindow := [80, 75, 75]\<rparr>) default_sm_config 0 = default_sm_config"
  using falling_load_is_not_adapted [of "rising\<lparr>adWindow := [80, 75, 75]\<rparr>" 0 default_sm_config] by simp

section \<open>Threshold events\<close>

fun tr_run :: "sm_config \<Rightarrow> double list \<Rightarrow> tracker \<Rightarrow> fired list" where
  "tr_run cfg [] t = []"
| "tr_run cfg (x # xs) t = fst (tr_Add x cfg t) @ tr_run cfg xs (snd (tr_Add x cfg t))"

text \<open>
  The tracker compares its streak with the required length by equality, so after a reload that
  lowers the required length to the current streak or below, the running streak is never reported,
  however long it goes on, although the state machine acts on it.
\<close>

lemma shortened_streak_is_never_reported:
  assumes "throttleConsecutiveSamples cfg \<le> trHigh t"
    and "\<forall>x \<in> set xs. throttleThresholdPercent cfg \<le> x"
  shows "ThHigh \<notin> frType ` set (tr_run cfg xs t)"
  using assms
proof (induction xs arbitrary: t)
  case Nil
  then show ?case by simp
next
  case (Cons x xs)
  have "ThHigh \<notin> frType ` set (fst (tr_Add x cfg t)) \<and>
      throttleConsecutiveSamples cfg \<le> trHigh (snd (tr_Add x cfg t))"
    using Cons.prems by (intro tracker_misses) simp_all
  then show ?case using Cons.IH [of "snd (tr_Add x cfg t)"] Cons.prems(2) by auto
qed

theorem shortened_streak_is_never_reported_witness:
  "ThHigh \<notin> frType ` set (tr_run (default_sm_config\<lparr>throttleConsecutiveSamples := 2\<rparr>) [95, 95, 95]
     \<lparr>trHigh = 2, trCritical = 2, trLow = 0\<rparr>)"
  by (rule shortened_streak_is_never_reported) (simp_all add: default_sm_config_def)

section \<open>The auto-protect policy\<close>

text \<open>
  C21. Over any sequence of system-CPU samples the counter machine is at the level of its
  specification: throttle when the last samples are all at or above the limit, idle when, already
  throttling, the last are all at or above the idle limit, normal again only when the last are all
  below the recovery limit.
\<close>

theorem auto_level_refines_spec:
  assumes "auto_counts_ok s"
  shows "asLevel (as_run s xs new_auto_state) = fst (auto_spec s xs (AlNormal, []))"
proof -
  have "as_rel s new_auto_state []" by (simp add: as_rel_def new_auto_state_def)
  then show ?thesis using as_run_spec [of s new_auto_state "[]" xs] assms by (simp add: new_auto_state_def)
qed

theorem auto_level_refines_spec_witness:
  "asLevel (as_run default_auto_settings [95, 95, 95, 95, 95] new_auto_state) =
   fst (auto_spec default_auto_settings [95, 95, 95, 95, 95] (AlNormal, []))"
  by (rule auto_level_refines_spec) (simp add: auto_counts_ok_def default_auto_settings_def)

text \<open>
  The chosen targets are the heaviest: at most the free slots, all from the eligible processes
  and at or above the minimum; a heavy enough process is left out only if every slot is taken by
  processes at least as heavy, and none is chosen twice.
\<close>
lemma targets_are_the_heaviest:
  assumes "distinct (map acPid eligible)" and "chosen = SelectAutoTargets eligible minCpu slots"
  shows "length chosen \<le> slots \<and> distinct (map acPid chosen) \<and>
    (\<forall>c \<in> set chosen. c \<in> set eligible \<and> minCpu \<le> acCpu c) \<and>
    (\<forall>c \<in> set chosen. \<forall>d \<in> set eligible. minCpu \<le> acCpu d \<and> d \<notin> set chosen \<longrightarrow>
       acCpu d \<le> acCpu c \<and> slots \<le> length chosen)"
  unfolding assms(2)
proof (intro conjI ballI impI)
  let ?ch = "SelectAutoTargets eligible minCpu slots"
  show "length ?ch \<le> slots" by (rule Select_length)
  show "distinct (map acPid ?ch)" by (rule Select_distinct [OF assms(1)])
  fix c assume c: "c \<in> set ?ch"
  show "c \<in> set eligible" "minCpu \<le> acCpu c" using Select_members [OF c] by simp_all
  fix d assume "d \<in> set eligible" "minCpu \<le> acCpu d \<and> d \<notin> set ?ch"
  then show "acCpu d \<le> acCpu c" "slots \<le> length ?ch" using Select_heaviest [OF c] by simp_all
qed

theorem targets_are_the_heaviest_witness:
  "length (SelectAutoTargets [\<lparr>acPid = 7, acName = ''a'', acCpu = 60\<rparr>, \<lparr>acPid = 9, acName = ''b'', acCpu = 90\<rparr>] 50 1) \<le> 1"
  using targets_are_the_heaviest [of "[\<lparr>acPid = 7, acName = ''a'', acCpu = 60\<rparr>, \<lparr>acPid = 9, acName = ''b'', acCpu = 90\<rparr>]"]
  by simp

section \<open>Auto-protect on real processes\<close>

text \<open>A running system for the witnesses: process 20 may be opened, set and exits never.\<close>

definition calm_env :: ap_env where
  "calm_env = \<lparr>aeSystemTimes = None, aeExited = (\<lambda>_. False), aeOpen = (\<lambda>pid. Some (unat pid)),
     aeSetOk = (\<lambda>_ _. True), aeTick = 0,
     aeTable = \<lparr>teCores = 4, teSystemTimes = None, teMemory = None,
       teNow = \<lparr>dwLowDateTime = 0, dwHighDateTime = 0\<rparr>, teSnapshot = [],
       teProc = \<lparr>peSelf = 1, peWindowsDir = None, peOpen = (\<lambda>_. True), peImagePath = (\<lambda>_. None),
         peToken = (\<lambda>_. False), peTokenUser = (\<lambda>_. None), peWellKnown = (\<lambda>_. None), peSession = (\<lambda>_. Some 1)\<rparr>,
       teOpen = (\<lambda>_. True), teTimes = (\<lambda>_. None), teWorkingSet = (\<lambda>_. None)\<rparr>\<rparr>"

definition lowered_world :: ap_world where
  "lowered_world = ((new_protector calm_env)\<lparr>ppThrottled := [(20, \<lparr>enPid = 20, enName = ''heavy.exe'',
     enHandle = 20, enOriginalClass = ABOVE_NORMAL_PRIORITY_CLASS, enCurrentClass = IDLE_PRIORITY_CLASS,
     enCpuAtAction = 90, enSinceTick = 0\<rparr>)]\<rparr>, (\<lambda>_. NORMAL_PRIORITY_CLASS)(20 := IDLE_PRIORITY_CLASS))"

lemma lowered_world_inv: "ap_inv lowered_world"
  by (simp add: ap_inv_def lowered_world_def lowered_ok_def Rank_def priority_class_defs
      IDLE_PRIORITY_CLASS_def BELOW_NORMAL_PRIORITY_CLASS_def NORMAL_PRIORITY_CLASS_def)

lemma lowered_world_class: "own_class lowered_world 20 = ABOVE_NORMAL_PRIORITY_CLASS"
  by (simp add: own_class_def lowered_world_def)

text \<open>
  C12. Priorities are restored exactly: after any ticks, exemptions and reconfigurations and the final
  restoration of a stopping service, a process that kept running, and whose class Windows let the
  service put back, has the priority class it had before it was first lowered, and nothing is left
  lowered.
\<close>

theorem auto_protect_restores_exactly:
  assumes "ap_inv s" and "\<forall>x \<in> set ops. \<not> aeExited (op_env x) pid \<and> aeSetOk (op_env x) pid (own_class s pid)"
    and "\<not> aeExited env pid" and "aeSetOk env pid (own_class s pid)"
    and "RestoreAll env reason (ap_run ceq ops s) = (s', eff)"
  shows "snd s' pid = own_class s pid \<and> ppThrottled (fst s') = []"
proof -
  note r = ap_run_spec [OF assms(1,2), of ceq]
  then have "restorable env (ap_run ceq ops s) pid" using assms(3,4) by (simp add: restorable_def)
  then show ?thesis using RestoreAll_base [OF conjunct2 [OF r] assms(5)] r by simp
qed

theorem auto_protect_restores_exactly_witness:
  "snd (fst (RestoreAll calm_env ''service stopping''
     (ap_run (=) [OpTick calm_env (\<lambda>_ _. False), OpExempt calm_env 21 ''other.exe''] lowered_world))) 20
   = ABOVE_NORMAL_PRIORITY_CLASS"
proof -
  have "\<forall>x \<in> set [OpTick calm_env (\<lambda>_ _. False), OpExempt calm_env 21 ''other.exe''].
      \<not> aeExited (op_env x) 20 \<and> aeSetOk (op_env x) 20 (own_class lowered_world 20)"
    by (simp add: calm_env_def)
  from auto_protect_restores_exactly [OF lowered_world_inv this, of calm_env, OF _ _ surjective_pairing]
  show ?thesis by (simp add: calm_env_def lowered_world_class)
qed

text \<open>
  C17. A tick only touches what it may: every priority change either puts a lowered process back to
  its own class, or lowers, to below normal or idle and always below the process's own class, a
  process that is already lowered or one that is in the snapshot, can be opened, is classified as an
  ordinary application, is not excluded by the daemon and not exempted.  The number of lowered
  processes never grows beyond the configured maximum.
\<close>

theorem auto_protect_lowers_only_ordinary_processes:
  assumes "ap_inv s" and "Tick ceq env exclude s = (s', eff)" and "ApSet pid cls \<in> set eff"
  shows "(amap_has pid (ppThrottled (fst s)) \<and> cls = own_class s pid \<or>
      cls \<in> {IDLE_PRIORITY_CLASS, BELOW_NORMAL_PRIORITY_CLASS} \<and>
      Rank cls < Rank (if aeExited env pid then snd s pid else own_class s pid) \<and>
      (amap_has pid (ppThrottled (fst s)) \<or> may_lower ceq env exclude (fst s) pid)) \<and>
    int (length (ppThrottled (fst s'))) \<le>
      max (int (length (ppThrottled (fst s)))) (apMaxProcesses (ppSettings (fst s)))"
  using Tick_spec(3,4) [OF assms(2,1)] assms(3) by simp

theorem auto_protect_lowers_only_ordinary_processes_witness:
  "\<exists>s' eff. Tick (=) calm_env (\<lambda>_ _. False) lowered_world = (s', eff) \<and>
     ApSet 20 ABOVE_NORMAL_PRIORITY_CLASS \<in> set eff \<and> length (ppThrottled (fst s')) \<le> 3"
proof -
  obtain s' eff where t: "Tick (=) calm_env (\<lambda>_ _. False) lowered_world = (s', eff)" by fastforce
  have e: "ApSet 20 ABOVE_NORMAL_PRIORITY_CLASS \<in> set eff"
    using t by (auto simp: Tick_def Let_def lowered_world_def calm_env_def new_protector_def
        ap_SampleSystemCpu_def default_auto_settings_def forget_exited_def as_Update_def as_count_def
        new_auto_state_def tick_normal_def RestoreAll_def restore_entry_def)
  have "ppSettings (fst lowered_world) = default_auto_settings"
    and "length (ppThrottled (fst lowered_world)) = 1"
    by (simp_all add: lowered_world_def new_protector_def calm_env_def)
  then show ?thesis
    using auto_protect_lowers_only_ordinary_processes [OF lowered_world_inv t e] t e
    by (simp add: default_auto_settings_def)
qed

text \<open>
  While system CPU is normal an exemption is kept whether or not its process still exists, so it
  passes to whatever process is next given that identifier; and exempting reports success for an
  identifier that no process has.
\<close>

lemma exemption_outlives_its_process:
  assumes "ap_inv s" and "apEnabled (ppSettings (fst s))"
    and "fst (as_Update (ppSystemCpu (ap_SampleSystemCpu env (fst s))) (ppSettings (fst s)) (ppState (fst s))) = AlNormal"
  shows "ppExempt (fst (fst (Tick ceq env exclude s))) = ppExempt (fst s) \<and>
    fst (Exempt env pid name s)"
proof -
  have "fst (Exempt env pid name s)" by (simp add: Exempt_def Let_def split_beta)
  then show ?thesis using Tick_normal_keeps_exempt [OF assms(2,3,1)] by simp
qed

theorem exemption_outlives_its_process_witness:
  "ppExempt (fst (fst (Tick (=) calm_env (\<lambda>_ _. False) ((fst lowered_world)\<lparr>ppExempt := [33]\<rparr>, snd lowered_world)))) = [33]"
proof -
  let ?s = "((fst lowered_world)\<lparr>ppExempt := [33]\<rparr>, snd lowered_world)"
  have "ap_inv ?s" using lowered_world_inv by (simp add: ap_inv_def)
  moreover have "apEnabled (ppSettings (fst ?s))"
    "fst (as_Update (ppSystemCpu (ap_SampleSystemCpu calm_env (fst ?s))) (ppSettings (fst ?s)) (ppState (fst ?s))) = AlNormal"
    by (simp_all add: lowered_world_def new_protector_def calm_env_def ap_SampleSystemCpu_def
        default_auto_settings_def as_Update_def as_count_def new_auto_state_def)
  ultimately show ?thesis using exemption_outlives_its_process [of ?s calm_env] by simp
qed

section \<open>CPU arithmetic\<close>

text \<open>
  A sampled percentage is never negative and never exceeds 100 per core, or 100 in all when
  normalised to the whole machine; the two 32-bit halves of a file time are joined without loss;
  and the first sample of a process is not reported as valid.
\<close>
lemma sampled_cpu_is_in_range:
  assumes "SampleInstance env cores nz i s = Some (i', s')" and "\<not> psValid s" and "psCpuPercent s = 0"
  shows "0 \<le> psCpuPercent s' \<and>
    psCpuPercent s' \<le> (if nz = TotalSystem then 100 else 100 * max 1 (real (unat cores))) \<and>
    (psValid s' \<longrightarrow> inPrimed i \<and> inLastWallTicks i < inLastWallTicks i') \<and>
    unat (FileTimeToUint64 ft) = unat (dwHighDateTime ft) * 2 ^ 32 + unat (dwLowDateTime ft)"
proof -
  note v = SampleInstance_valid [OF assms(1,2)]
  have u: "psCpuPercent s' \<le> (if nz = TotalSystem then 100 else 100 * max 1 (real (unat cores)))"
  proof (cases "psValid s'")
    case True
    then obtain p w where "psCpuPercent s' = CpuPercentFromTicks p w cores nz"
      using assms(1,2) by (auto simp: SampleInstance_def Let_def split: option.splits if_splits)
    then show ?thesis
      using CpuPercent_bounds(2,3) [of nz p w cores] by (cases nz) simp_all
  next
    case False
    then show ?thesis using v(3) assms(3) by (simp del: of_nat_unat)
  qed
  have "0 \<le> psCpuPercent s'" using v(3,4) assms(3) by (cases "psValid s'") auto
  with u v(1) FileTimeToUint64_value show ?thesis by blast
qed

definition one_tick_env :: mon_env where
  "one_tick_env = \<lparr>meSignalled = (\<lambda>_. False), meExitCode = (\<lambda>_. 0), meOpen = (\<lambda>pid. Some (unat pid)),
     meDenied = (\<lambda>_. False),
     meTimes = (\<lambda>_. Some (\<lparr>dwLowDateTime = 300, dwHighDateTime = 0\<rparr>, \<lparr>dwLowDateTime = 0, dwHighDateTime = 0\<rparr>)),
     meNow = (\<lambda>_. \<lparr>dwLowDateTime = 1000, dwHighDateTime = 0\<rparr>), meIo = (\<lambda>_. None), meWorkingSet = (\<lambda>_. None)\<rparr>"

definition blank_sample :: process_sample where
  "blank_sample = \<lparr>psName = ''a.exe'', psPid = 7, psValid = False, psCpuPercent = 0, psWorkingSetMb = 0,
     psIoMbPerSec = 0\<rparr>"

theorem sampled_cpu_is_in_range_witness:
  "\<exists>i' s'. SampleInstance one_tick_env 4 PerCore
     \<lparr>inHandle = 7, inLastCpuTicks = 0, inLastWallTicks = 0, inLastIoBytes = 0, inPrimed = True\<rparr>
     blank_sample = Some (i', s') \<and> psCpuPercent s' \<le> 400"
proof -
  obtain i' s' where r: "SampleInstance one_tick_env 4 PerCore
     \<lparr>inHandle = 7, inLastCpuTicks = 0, inLastWallTicks = 0, inLastIoBytes = 0, inPrimed = True\<rparr>
     blank_sample = Some (i', s')"
    by (simp add: SampleInstance_def one_tick_env_def Let_def)
  then show ?thesis
    using sampled_cpu_is_in_range [OF r] by (auto simp: blank_sample_def)
qed

section \<open>Classifying processes\<close>

text \<open>
  A process is treated as an ordinary application exactly when it is none of: a kernel process,
  the service itself or an essential name; closed to inspection; running from below the Windows
  directory; running under one of the three service accounts; in the services session.  Under the
  Windows directory means strictly below it, not merely sharing a prefix.
\<close>
lemma ordinary_processes_are_exactly:
  "(siLevel (ClassifyProcess (=) env pid name ess) = SfNormal \<longleftrightarrow>
     4 < pid \<and> pid \<noteq> peSelf env \<and> name \<notin> set ess \<and> peOpen env pid \<and>
     \<not> (\<exists>p. peImagePath env pid = Some p \<and> p \<noteq> [] \<and> PathIsUnder (=) p (WindowsDirectory env)) \<and>
     ServiceAccount env pid = [] \<and> peSession env pid \<noteq> Some 0) \<and>
   (\<forall>path. PathIsUnder (=) path ''C:/Windows'' \<longleftrightarrow> (\<exists>rest. path = ''C:/Windows'' @ backslash # rest))"
  using Classify_normal [of "(=)" env pid name ess] PathIsUnder_exact [of "''C:/Windows''"]
  by (auto simp: not_le backslash_def slash_def)

section \<open>Identity pinning\<close>

text \<open>
  C18. The identity filter's cache is transparent.  Over any sequence of snapshots in which a process
  identifier together with its creation time means one process, each filtered snapshot is exactly
  the processes whose name is not pinned or whose image and publisher match, as if every process
  were checked afresh each time: an impostor under a pinned name never gets a role.
\<close>

theorem identity_filter_equals_fresh_check:
  assumes "polls_ok ps" and "expected \<noteq> []"
  shows "map fst (filter_run ceq ps (if_SetExpected expected f)) =
    map (\<lambda>p. filter (passes ceq (fst p) (ifExpected (if_SetExpected expected f))) (snd p)) ps"
proof -
  have "foldl (\<lambda>m (name, i). amap_put (Lower name) i m) m xs \<noteq> []" if "m \<noteq> [] \<or> xs \<noteq> []" for m xs
    using that
  proof (induction xs arbitrary: m)
    case (Cons x xs)
    have "amap_put (Lower (fst x)) (snd x) m \<noteq> []" by (cases m) auto
    then show ?case using Cons.IH by (simp add: split_beta)
  qed simp
  from this [of "[]" expected] have "ifExpected (if_SetExpected expected f) \<noteq> []"
    using assms(2) by (simp add: if_SetExpected_def)
  then show ?thesis
    using assms(1) by (intro filter_run_spec) (simp_all add: cache_sound_def if_SetExpected_def)
qed

definition pin_env :: id_env where
  "pin_env = \<lparr>ieOpen = (\<lambda>_. True), ieTimes = (\<lambda>pid. Some \<lparr>dwLowDateTime = pid, dwHighDateTime = 0\<rparr>),
     ieImage = (\<lambda>pid. Some (if pid = 7 then ''C:/app.exe'' else ''C:/tmp/app.exe'')),
     ieVerifies = (\<lambda>_. False), ieSigner = (\<lambda>_. None)\<rparr>"

definition pin_snapshot :: "process_entry list" where
  "pin_snapshot = [\<lparr>peName = ''App.exe'', pePid = 7\<rparr>, \<lparr>peName = ''app.exe'', pePid = 9\<rparr>]"

theorem identity_filter_equals_fresh_check_witness:
  "map fst (filter_run (=) [(pin_env, pin_snapshot), (pin_env, pin_snapshot)]
     (if_SetExpected [(''APP.exe'', \<lparr>eiPath = ''C:/app.exe'', eiPublisher = []\<rparr>)] \<lparr>ifExpected = [], ifCache = []\<rparr>)) =
   [[\<lparr>peName = ''App.exe'', pePid = 7\<rparr>], [\<lparr>peName = ''App.exe'', pePid = 7\<rparr>]]"
proof -
  have lower: "Lower ''App.exe'' = ''app.exe''" "Lower ''app.exe'' = ''app.exe''" "Lower ''APP.exe'' = ''app.exe''"
    by code_simp+
  have ok: "polls_ok [(pin_env, pin_snapshot), (pin_env, pin_snapshot)]"
    by (auto simp: polls_ok_def same_process_def pin_snapshot_def)
  from identity_filter_equals_fresh_check [OF ok, of "[(''APP.exe'', \<lparr>eiPath = ''C:/app.exe'', eiPublisher = []\<rparr>)]" "(=)"
      "\<lparr>ifExpected = [], ifCache = []\<rparr>"]
  show ?thesis
    by (simp add: if_SetExpected_def lower pin_snapshot_def passes_def observe_def ProcessImagePath_def
        pin_env_def IdentityMismatch_def Let_def del: filter_run.simps)
qed

section \<open>The life of a process\<close>

text \<open>
  C19. The lifecycle events of a tracked name form a sensible story over any polls with any answers
  of the operating system: a process is reported started only when it is not alive and ended only
  when it is, ended cleanly exactly with exit code 0, and reported restarted exactly when no other
  instance is alive and a different process of the name was the last to end, which is the one named;
  the processes alive in the story are those being sampled.  Every handle opened is closed once,
  counting those the destructor closes.
\<close>

theorem lifecycle_events_tell_the_truth:
  "\<exists>evs ops t. tk_run ceq ps (new_tracked name nz cores) = (evs, ops, t) \<and>
    life_run evs ({}, 0) = Some (fst ` set (tkInstances t), tkLastExitedPid t) \<and>
    opened (ops @ tk_destroy t) = closed (ops @ tk_destroy t)"
proof -
  obtain evs ops t where r: "tk_run ceq ps (new_tracked name nz cores) = (evs, ops, t)"
    by (metis prod_cases3)
  have "okeys (tkInstances (new_tracked name nz cores))"
    by (simp add: new_tracked_def okeys_def)
  from tk_run_life [OF r this] r show ?thesis
    by (simp add: live_def held_def new_tracked_def closed_destroy opened_destroy add.commute)
qed

end
