(* ===== verification/Json.thy ===== *)
theory Json
  imports Prelude
begin

text \<open>
  The values of the JSON library the program is built on, and the accessors it uses of them.  Text
  is parsed and printed by the library, which is not part of this repository's own code: parsing and
  printing are parameters of the definitions that use them.  An object is the list of its members,
  in the order the library iterates them.
\<close>

datatype json = JNull | JBool bool | JInt int | JReal double | JStr string
  | JArr "json list" | JObj "(string \<times> json) list"

text \<open>The library's exceptions, by class.\<close>

datatype json_exn = ParseError string | OutOfRange string | TypeError string

fun is_object :: "json \<Rightarrow> bool" where
  "is_object (JObj m) = True"
| "is_object _ = False"

fun is_array :: "json \<Rightarrow> bool" where
  "is_array (JArr xs) = True"
| "is_array _ = False"

fun is_string :: "json \<Rightarrow> bool" where
  "is_string (JStr s) = True"
| "is_string _ = False"

text \<open>\<open>find\<close> on anything but an object finds nothing.\<close>

fun jfind :: "json \<Rightarrow> string \<Rightarrow> json option" where
  "jfind (JObj m) k = map_of m k"
| "jfind _ k = None"

definition jcontains :: "json \<Rightarrow> string \<Rightarrow> bool" where
  "jcontains j k = (jfind j k \<noteq> None)"

text \<open>\<open>j[k] = v\<close> on an object: the member is replaced in place or appended.\<close>

fun jset :: "json \<Rightarrow> string \<Rightarrow> json \<Rightarrow> json" where
  "jset (JObj m) k v = JObj (amap_put k v m)"
| "jset j k v = j"

text \<open>
  \<open>get<long long>\<close>: the library keeps integers above \<open>2\<^sup>63\<close> as unsigned and converts them by
  wrapping.
\<close>

definition get_long_long :: "int \<Rightarrow> int" where
  "get_long_long i = (if i < 2 ^ 63 then i else i - 2 ^ 64)"

text \<open>\<open>value(k, default)\<close> by the default's type: a member of another type throws \<open>type_error\<close>.\<close>

definition value_string :: "json \<Rightarrow> string \<Rightarrow> string \<Rightarrow> json_exn + string" where
  "value_string j k d = (case j of
      JObj m \<Rightarrow> (case map_of m k of
          None \<Rightarrow> Inr d
        | Some (JStr s) \<Rightarrow> Inr s
        | Some _ \<Rightarrow> Inl (TypeError ''type must be string''))
    | _ \<Rightarrow> Inl (TypeError ''cannot use value()''))"

definition value_bool :: "json \<Rightarrow> string \<Rightarrow> bool \<Rightarrow> json_exn + bool" where
  "value_bool j k d = (case j of
      JObj m \<Rightarrow> (case map_of m k of
          None \<Rightarrow> Inr d
        | Some (JBool b) \<Rightarrow> Inr b
        | Some _ \<Rightarrow> Inl (TypeError ''type must be boolean''))
    | _ \<Rightarrow> Inl (TypeError ''cannot use value()''))"

definition value_double :: "json \<Rightarrow> string \<Rightarrow> double \<Rightarrow> json_exn + double" where
  "value_double j k d = (case j of
      JObj m \<Rightarrow> (case map_of m k of
          None \<Rightarrow> Inr d
        | Some (JInt i) \<Rightarrow> Inr (of_int i)
        | Some (JReal x) \<Rightarrow> Inr x
        | Some _ \<Rightarrow> Inl (TypeError ''type must be number''))
    | _ \<Rightarrow> Inl (TypeError ''cannot use value()''))"

text \<open>
  An \<open>int\<close> is also read from a boolean and from a float, which is truncated; a wider integer is
  converted by wrapping to 32 bits.
\<close>

definition value_int :: "json \<Rightarrow> string \<Rightarrow> int \<Rightarrow> json_exn + int" where
  "value_int j k d = (case j of
      JObj m \<Rightarrow> (case map_of m k of
          None \<Rightarrow> Inr d
        | Some (JInt i) \<Rightarrow> Inr (sint (word_of_int i :: 32 word))
        | Some (JReal x) \<Rightarrow> Inr (trunc x)
        | Some (JBool b) \<Rightarrow> Inr (if b then 1 else 0)
        | Some _ \<Rightarrow> Inl (TypeError ''type must be number''))
    | _ \<Rightarrow> Inl (TypeError ''cannot use value()''))"

lemma jfind_jset: "is_object j \<Longrightarrow> jfind (jset j k v) k' = (if k' = k then Some v else jfind j k')"
  by (cases j) (auto simp: map_of_amap_put)

lemma jset_object [simp]: "is_object (jset j k v) = is_object j"
  by (cases j) auto

end
