(* ===== verification/Secrets.thy ===== *)
theory Secrets
  imports Prelude
begin

text \<open>
  \<open>src/config/Secrets.h/.cpp\<close>: encrypted values in the configuration.  Windows' data protection and
  its Base64 coder are the record \<open>crypt\<close>; bytes are characters.
\<close>

record crypt =
  crProtect :: "string \<Rightarrow> string option"
  crUnprotect :: "string \<Rightarrow> string option"
  crEncode :: "string \<Rightarrow> string option"
  crDecode :: "string \<Rightarrow> string option"

definition kSecretPrefix :: string where
  "kSecretPrefix = ''dpapi:''"

text \<open>\<open>s.rfind(p, 0) == 0\<close>\<close>

definition starts_with :: "string \<Rightarrow> string \<Rightarrow> bool" where
  "starts_with p s = (take (length p) s = p)"

definition IsProtectedSecret :: "string \<Rightarrow> bool" where
  "IsProtectedSecret v = starts_with kSecretPrefix v"

definition ProtectSecret :: "crypt \<Rightarrow> string \<Rightarrow> string" where
  "ProtectSecret cr plaintext =
     (case crProtect cr plaintext of
        None \<Rightarrow> []
      | Some blob \<Rightarrow> (case crEncode cr blob of None \<Rightarrow> [] | Some b64 \<Rightarrow> kSecretPrefix @ b64))"

definition UnprotectSecret :: "crypt \<Rightarrow> string \<Rightarrow> string + string" where
  "UnprotectSecret cr v =
     (if \<not> IsProtectedSecret v then Inr v
      else
        (let b64 = drop (length kSecretPrefix) v in
         case (if b64 = [] then None else crDecode cr b64) of
           None \<Rightarrow> Inl ''not valid base64''
         | Some blob \<Rightarrow>
             (let canonical = (case crEncode cr blob of None \<Rightarrow> [] | Some s \<Rightarrow> s) in
              if canonical \<noteq> b64 then
                Inl ''not in the exact form protect-secret prints (was it edited?)''
              else (case crUnprotect cr blob of
                  None \<Rightarrow> Inl (''cannot decrypt (made on another computer, or corrupted); '' @
                    ''re-create it with '' @ [CHR 0x27] @ ''ThreadHaulDaemon.exe protect-secret'' @ [CHR 0x27])
                | Some plaintext \<Rightarrow> Inr plaintext))))"

lemma starts_with_append: "starts_with p s \<longleftrightarrow> (\<exists>r. s = p @ r)"
  unfolding starts_with_def by (metis append_eq_conv_conj append_take_drop_id)

lemma UnprotectSecret_accepts:
  assumes "UnprotectSecret cr (kSecretPrefix @ b64) = Inr plain"
  shows "b64 \<noteq> [] \<and> (\<exists>blob. crDecode cr b64 = Some blob \<and> crEncode cr blob = Some b64 \<and>
    crUnprotect cr blob = Some plain)"
  using assms
  by (auto simp: UnprotectSecret_def IsProtectedSecret_def starts_with_def Let_def
      split: if_splits option.splits)

lemma UnprotectSecret_ProtectSecret:
  assumes "crProtect cr plain = Some blob" and "crEncode cr blob = Some b64" and "b64 \<noteq> []"
    and "crDecode cr b64 = Some blob" and "crUnprotect cr blob = Some plain"
  shows "UnprotectSecret cr (ProtectSecret cr plain) = Inr plain"
  using assms by (simp add: UnprotectSecret_def ProtectSecret_def IsProtectedSecret_def starts_with_def)

end
