(* ===== verification/Config.thy ===== *)
theory Config
  imports Json Secrets ProcessTable
begin

text \<open>
  \<open>src/config/Config.h/.cpp\<close>: \<open>config.json\<close> is parsed into a checked record, or refused with a
  message.  The JSON library's parsers (members sorted by key, or in the order of the text) and printer, the conversions between UTF-8 and UTF-16, the
  comparison of names and Windows' cryptography are the record \<open>config_os\<close>.  \<open>Inl\<close> is a thrown
  \<open>ConfigError\<close> with its message.
\<close>

section \<open>The record\<close>

record threshold_spec =
  tsPercent :: double
  tsSamples :: int

record pinned_identity =
  piName :: wstring
  piPath :: wstring
  piPublisher :: wstring

record config =
  cfPollIntervalMs :: int
  cfHigh :: threshold_spec
  cfCritical :: threshold_spec
  cfLow :: threshold_spec
  cfCriticalProcesses :: "wstring list"
  cfBatchProcesses :: "wstring list"
  cfProtectedProcesses :: "wstring list"
  cfIdentities :: "pinned_identity list"
  cfLogPath :: wstring
  cfMaxFileSizeMb :: int
  cfMaxRotatedFiles :: int
  cfCpuPerCore :: bool
  cfLogSamples :: bool
  cfSelfMonitorIntervalSec :: int
  cfMemoryTriggerEnabled :: bool
  cfSystemMemoryLimitPercent :: double
  cfCriticalWorkingSetLimitMb :: double
  cfIoTriggerEnabled :: bool
  cfCriticalIoLimitMbPerSec :: double
  cfAdaptiveEnabled :: bool
  cfAdaptiveWindowSamples :: int
  cfAdaptiveHorizonSamples :: int
  cfAdaptiveMaxAdjustPercent :: double
  cfAlertPopup :: bool
  cfAlertWebhookUrl :: wstring
  cfCoordinationEnabled :: bool
  cfControllerHost :: wstring
  cfControllerPort :: int
  cfSharedToken :: string
  cfHeartbeatSeconds :: int
  cfRequireProtectedConfig :: bool
  cfAutoEnabled :: bool
  cfAutoThrottlePercent :: double
  cfAutoThrottleSamples :: int
  cfAutoUseIdle :: bool
  cfAutoIdlePercent :: double
  cfAutoIdleSamples :: int
  cfAutoRecoverPercent :: double
  cfAutoRecoverSamples :: int
  cfAutoMaxProcesses :: int
  cfAutoMinProcessCpuPercent :: double
  cfDashboardEnabled :: bool
  cfDashboardPort :: int

definition default_config :: config where
  "default_config = \<lparr>cfPollIntervalMs = 1000,
     cfHigh = \<lparr>tsPercent = 85, tsSamples = 3\<rparr>,
     cfCritical = \<lparr>tsPercent = 90, tsSamples = 5\<rparr>,
     cfLow = \<lparr>tsPercent = 60, tsSamples = 5\<rparr>,
     cfCriticalProcesses = [], cfBatchProcesses = [], cfProtectedProcesses = [], cfIdentities = [],
     cfLogPath = [], cfMaxFileSizeMb = 50, cfMaxRotatedFiles = 5,
     cfCpuPerCore = True, cfLogSamples = True, cfSelfMonitorIntervalSec = 30,
     cfMemoryTriggerEnabled = False, cfSystemMemoryLimitPercent = 95, cfCriticalWorkingSetLimitMb = 0,
     cfIoTriggerEnabled = False, cfCriticalIoLimitMbPerSec = 200,
     cfAdaptiveEnabled = False, cfAdaptiveWindowSamples = 10, cfAdaptiveHorizonSamples = 3,
     cfAdaptiveMaxAdjustPercent = 10, cfAlertPopup = True, cfAlertWebhookUrl = [],
     cfCoordinationEnabled = False, cfControllerHost = ''127.0.0.1'', cfControllerPort = 7878,
     cfSharedToken = [], cfHeartbeatSeconds = 5, cfRequireProtectedConfig = False,
     cfAutoEnabled = True, cfAutoThrottlePercent = 90, cfAutoThrottleSamples = 5, cfAutoUseIdle = True,
     cfAutoIdlePercent = 97, cfAutoIdleSamples = 10, cfAutoRecoverPercent = 75,
     cfAutoRecoverSamples = 10, cfAutoMaxProcesses = 3, cfAutoMinProcessCpuPercent = 50,
     cfDashboardEnabled = True, cfDashboardPort = 8787\<rparr>"

record config_os =
  coParse :: "string \<Rightarrow> json_exn + json"
  coParseOrdered :: "string \<Rightarrow> json_exn + json"
  coDump :: "json \<Rightarrow> string"
  coWide :: "string \<Rightarrow> wstring option"
  coUtf8 :: "wstring \<Rightarrow> string"
  coSame :: name_eq
  coCrypt :: crypt

section \<open>Fields\<close>

text \<open>\<open>std::to_string(double)\<close>: six decimals.\<close>

definition pad6 :: "nat \<Rightarrow> string" where
  "pad6 n = (let s = to_string n in replicate (6 - length s) CHR ''0'' @ s)"

definition double_to_string :: "double \<Rightarrow> string" where
  "double_to_string x = (let n = nat (round (\<bar>x\<bar> * 10 ^ 6)) in
     (if x < 0 then ''-'' else []) @ to_string (n div 10 ^ 6) @ ''.'' @ pad6 (n mod 10 ^ 6))"

definition has_slash :: "string \<Rightarrow> bool" where
  "has_slash s = (backslash \<in> set s \<or> slash \<in> set s)"

definition dquote :: char where "dquote = CHR 0x22"

definition Utf8ToWide :: "config_os \<Rightarrow> string \<Rightarrow> string + wstring" where
  "Utf8ToWide os s =
     (if s = [] then Inr []
      else (case coWide os s of
          None \<Rightarrow> Inl ''config contains text that is not valid UTF-8''
        | Some w \<Rightarrow> Inr w))"

definition jField :: "json \<Rightarrow> string \<Rightarrow> string \<Rightarrow> string + json" where
  "jField obj key path =
     (case jfind obj key of None \<Rightarrow> Inl (''missing required field: '' @ path) | Some v \<Rightarrow> Inr v)"

definition jObject :: "json \<Rightarrow> string \<Rightarrow> string \<Rightarrow> string + json" where
  "jObject obj key path =
     bindE (jField obj key path) (\<lambda>v.
     bindE (failIf (\<not> is_object v) (path @ '' must be an object'')) (\<lambda>_. Inr v))"

definition Integer :: "json \<Rightarrow> string \<Rightarrow> string \<Rightarrow> int \<Rightarrow> int \<Rightarrow> string + int" where
  "Integer obj key path lo hi =
     bindE (jField obj key path) (\<lambda>v. case v of
         JInt i \<Rightarrow>
           (let x = get_long_long i in
            if x < lo \<or> x > hi then
              Inl (path @ '' must be between '' @ int_to_string lo @ '' and '' @ int_to_string hi @
                '', got '' @ int_to_string x)
            else Inr x)
       | _ \<Rightarrow> Inl (path @ '' must be an integer''))"

fun get_number :: "json \<Rightarrow> double option" where
  "get_number (JInt i) = Some (of_int i)"
| "get_number (JReal x) = Some x"
| "get_number _ = None"

definition Percent :: "json \<Rightarrow> string \<Rightarrow> string \<Rightarrow> string + double" where
  "Percent obj key path =
     bindE (jField obj key path) (\<lambda>v. case get_number v of
         None \<Rightarrow> Inl (path @ '' must be a number'')
       | Some x \<Rightarrow>
           if \<not> (x > 0 \<and> x \<le> 100)
           then Inl (path @ '' must be greater than 0 and at most 100'') else Inr x)"

definition name_item :: "config_os \<Rightarrow> string \<Rightarrow> json \<Rightarrow> string + wstring" where
  "name_item os item v = (case v of
       JStr name \<Rightarrow>
         bindE (failIf (name = []) (item @ '' must not be empty'')) (\<lambda>_.
         bindE (failIf (has_slash name) (item @ '' must be an executable name such as '' @
           [dquote] @ ''app.exe'' @ [dquote] @ '', not a path'')) (\<lambda>_.
         Utf8ToWide os name))
     | _ \<Rightarrow> Inl (item @ '' must be a string''))"

fun name_items :: "config_os \<Rightarrow> string \<Rightarrow> nat \<Rightarrow> json list \<Rightarrow> string + wstring list" where
  "name_items os path i [] = Inr []"
| "name_items os path i (v # vs) =
     bindE (name_item os (path @ ''['' @ to_string i @ '']'') v) (\<lambda>n.
     bindE (name_items os path (Suc i) vs) (\<lambda>ns. Inr (n # ns)))"

definition NameList :: "config_os \<Rightarrow> json \<Rightarrow> string \<Rightarrow> string + wstring list" where
  "NameList os v path = (case v of
       JArr vs \<Rightarrow> name_items os path 0 vs
     | _ \<Rightarrow> Inl (path @ '' must be an array of process names''))"

definition Threshold :: "json \<Rightarrow> string \<Rightarrow> string + threshold_spec" where
  "Threshold thresholds key =
     (let path = ''thresholds.'' @ key in
      bindE (jObject thresholds key path) (\<lambda>t.
      bindE (Percent t ''percent'' (path @ ''.percent'')) (\<lambda>p.
      bindE (Integer t ''consecutive_samples'' (path @ ''.consecutive_samples'') 1 100) (\<lambda>n.
      Inr \<lparr>tsPercent = p, tsSamples = n\<rparr>))))"

definition OptBool :: "json \<Rightarrow> string \<Rightarrow> string \<Rightarrow> bool \<Rightarrow> string + bool" where
  "OptBool obj key path def =
     (case jfind obj key of
        None \<Rightarrow> Inr def
      | Some (JBool b) \<Rightarrow> Inr b
      | Some _ \<Rightarrow> Inl (path @ '' must be true or false''))"

definition OptInteger :: "json \<Rightarrow> string \<Rightarrow> string \<Rightarrow> int \<Rightarrow> int \<Rightarrow> int \<Rightarrow> string + int" where
  "OptInteger obj key path lo hi def =
     (if jcontains obj key then Integer obj key path lo hi else Inr def)"

definition OptNumber :: "json \<Rightarrow> string \<Rightarrow> string \<Rightarrow> double \<Rightarrow> double \<Rightarrow> double \<Rightarrow> string + double" where
  "OptNumber obj key path lo hi def =
     (case jfind obj key of
        None \<Rightarrow> Inr def
      | Some v \<Rightarrow> (case get_number v of
          None \<Rightarrow> Inl (path @ '' must be a number'')
        | Some x \<Rightarrow>
            if x < lo \<or> x > hi then
              Inl (path @ '' must be between '' @ double_to_string lo @ '' and '' @ double_to_string hi)
            else Inr x))"

definition Secret :: "config_os \<Rightarrow> string \<Rightarrow> string \<Rightarrow> string + string" where
  "Secret os value path =
     (case UnprotectSecret (coCrypt os) value of Inl e \<Rightarrow> Inl (path @ '': '' @ e) | Inr p \<Rightarrow> Inr p)"

definition OptString :: "json \<Rightarrow> string \<Rightarrow> string \<Rightarrow> string \<Rightarrow> string + string" where
  "OptString obj key path def =
     (case jfind obj key of
        None \<Rightarrow> Inr def
      | Some (JStr s) \<Rightarrow> Inr s
      | Some _ \<Rightarrow> Inl (path @ '' must be a string''))"

definition OptObject :: "json \<Rightarrow> string \<Rightarrow> string \<Rightarrow> string + json option" where
  "OptObject obj key path =
     (case jfind obj key of
        None \<Rightarrow> Inr None
      | Some v \<Rightarrow> if is_object v then Inr (Some v) else Inl (path @ '' must be an object''))"

section \<open>Sections\<close>

definition parse_polling :: "json \<Rightarrow> config \<Rightarrow> string + config" where
  "parse_polling doc cfg =
     bindE (jObject doc ''polling'' ''polling'') (\<lambda>p.
     bindE (Integer p ''interval_ms'' ''polling.interval_ms'' 100 60000) (\<lambda>n.
     Inr (cfg\<lparr>cfPollIntervalMs := n\<rparr>)))"

definition parse_thresholds :: "json \<Rightarrow> config \<Rightarrow> string + config" where
  "parse_thresholds doc cfg =
     bindE (jObject doc ''thresholds'' ''thresholds'') (\<lambda>t.
     bindE (Threshold t ''high'') (\<lambda>high.
     bindE (Threshold t ''critical'') (\<lambda>critical.
     bindE (Threshold t ''low'') (\<lambda>low.
     bindE (failIf (tsPercent critical < tsPercent high)
       ''thresholds.critical.percent must be at least thresholds.high.percent'') (\<lambda>_.
     bindE (failIf (tsPercent low \<ge> tsPercent high)
       ''thresholds.low.percent must be below thresholds.high.percent'') (\<lambda>_.
     Inr (cfg\<lparr>cfHigh := high, cfCritical := critical, cfLow := low\<rparr>)))))))"

fun check_overlap :: "config_os \<Rightarrow> wstring list \<Rightarrow> wstring list \<Rightarrow> string + unit" where
  "check_overlap os [] bs = Inr ()"
| "check_overlap os (c # cs) bs =
     bindE (failIf (\<exists>b \<in> set bs. coSame os c b) ([dquote] @ coUtf8 os c @ [dquote] @
       '' is listed in both processes.critical and processes.batch'')) (\<lambda>_.
     check_overlap os cs bs)"

definition parse_processes :: "config_os \<Rightarrow> json \<Rightarrow> config \<Rightarrow> string + config" where
  "parse_processes os doc cfg =
     bindE (jObject doc ''processes'' ''processes'') (\<lambda>p.
     bindE (jField p ''critical'' ''processes.critical'') (\<lambda>jc.
     bindE (NameList os jc ''processes.critical'') (\<lambda>cs.
     bindE (jField p ''batch'' ''processes.batch'') (\<lambda>jb.
     bindE (NameList os jb ''processes.batch'') (\<lambda>bs.
     bindE (case jfind p ''protected'' of
         None \<Rightarrow> Inr (cfProtectedProcesses cfg)
       | Some v \<Rightarrow> NameList os v ''processes.protected'') (\<lambda>ps.
     bindE (check_overlap os cs bs) (\<lambda>_.
     Inr (cfg\<lparr>cfCriticalProcesses := cs, cfBatchProcesses := bs, cfProtectedProcesses := ps\<rparr>))))))))"

definition parse_logging :: "config_os \<Rightarrow> json \<Rightarrow> config \<Rightarrow> string + config" where
  "parse_logging os doc cfg =
     bindE (jObject doc ''logging'' ''logging'') (\<lambda>l.
     bindE (jField l ''log_path'' ''logging.log_path'') (\<lambda>v.
     bindE (case v of
         JStr s \<Rightarrow> if s = [] then Inl ''logging.log_path must be a non-empty string'' else Inr s
       | _ \<Rightarrow> Inl ''logging.log_path must be a non-empty string'') (\<lambda>path.
     bindE (Utf8ToWide os path) (\<lambda>w.
     bindE (Integer l ''max_file_size_mb'' ''logging.max_file_size_mb'' 1 1024) (\<lambda>size.
     bindE (Integer l ''max_rotated_files'' ''logging.max_rotated_files'' 0 100) (\<lambda>n.
     Inr (cfg\<lparr>cfLogPath := w, cfMaxFileSizeMb := size, cfMaxRotatedFiles := n\<rparr>)))))))"

definition parse_telemetry :: "json \<Rightarrow> config \<Rightarrow> string + config" where
  "parse_telemetry doc cfg =
     bindE (OptObject doc ''telemetry'' ''telemetry'') (\<lambda>x. case x of None \<Rightarrow> Inr cfg | Some t \<Rightarrow>
     bindE (OptString t ''cpu_normalization'' ''telemetry.cpu_normalization'' ''per_core'') (\<lambda>nz.
     bindE (failIf (nz \<noteq> ''per_core'' \<and> nz \<noteq> ''total'') (''telemetry.cpu_normalization must be '' @
       [dquote] @ ''per_core'' @ [dquote] @ '' or '' @ [dquote] @ ''total'' @ [dquote])) (\<lambda>_.
     bindE (OptBool t ''log_samples'' ''telemetry.log_samples'' True) (\<lambda>ls.
     bindE (OptInteger t ''self_monitor_interval_seconds'' ''telemetry.self_monitor_interval_seconds''
       0 86400 30) (\<lambda>sm.
     Inr (cfg\<lparr>cfCpuPerCore := (nz = ''per_core''), cfLogSamples := ls, cfSelfMonitorIntervalSec := sm\<rparr>))))))"

definition parse_memory_trigger :: "json \<Rightarrow> config \<Rightarrow> string + config" where
  "parse_memory_trigger tr cfg =
     bindE (OptObject tr ''memory'' ''triggers.memory'') (\<lambda>x. case x of None \<Rightarrow> Inr cfg | Some m \<Rightarrow>
     bindE (OptBool m ''enabled'' ''triggers.memory.enabled'' False) (\<lambda>en.
     bindE (OptNumber m ''system_load_limit_percent'' ''triggers.memory.system_load_limit_percent''
       1 100 95) (\<lambda>load.
     bindE (OptNumber m ''critical_working_set_limit_mb'' ''triggers.memory.critical_working_set_limit_mb''
       0 1048576 0) (\<lambda>ws.
     Inr (cfg\<lparr>cfMemoryTriggerEnabled := en, cfSystemMemoryLimitPercent := load,
       cfCriticalWorkingSetLimitMb := ws\<rparr>)))))"

definition parse_io_trigger :: "json \<Rightarrow> config \<Rightarrow> string + config" where
  "parse_io_trigger tr cfg =
     bindE (OptObject tr ''io'' ''triggers.io'') (\<lambda>x. case x of None \<Rightarrow> Inr cfg | Some io \<Rightarrow>
     bindE (OptBool io ''enabled'' ''triggers.io.enabled'' False) (\<lambda>en.
     bindE (OptNumber io ''critical_io_limit_mb_per_sec'' ''triggers.io.critical_io_limit_mb_per_sec''
       (1 / 10) 100000 200) (\<lambda>lim.
     Inr (cfg\<lparr>cfIoTriggerEnabled := en, cfCriticalIoLimitMbPerSec := lim\<rparr>))))"

definition parse_triggers :: "json \<Rightarrow> config \<Rightarrow> string + config" where
  "parse_triggers doc cfg =
     bindE (OptObject doc ''triggers'' ''triggers'') (\<lambda>x. case x of None \<Rightarrow> Inr cfg | Some tr \<Rightarrow>
     bindE (parse_memory_trigger tr cfg) (\<lambda>cfg1. parse_io_trigger tr cfg1))"

definition parse_adaptive :: "json \<Rightarrow> config \<Rightarrow> string + config" where
  "parse_adaptive doc cfg =
     bindE (OptObject doc ''adaptive'' ''adaptive'') (\<lambda>x. case x of None \<Rightarrow> Inr cfg | Some a \<Rightarrow>
     bindE (OptBool a ''enabled'' ''adaptive.enabled'' False) (\<lambda>en.
     bindE (OptInteger a ''window_samples'' ''adaptive.window_samples'' 3 600 10) (\<lambda>w.
     bindE (OptInteger a ''horizon_samples'' ''adaptive.horizon_samples'' 1 60 3) (\<lambda>h.
     bindE (OptNumber a ''max_adjust_percent'' ''adaptive.max_adjust_percent'' 0 50 10) (\<lambda>m.
     Inr (cfg\<lparr>cfAdaptiveEnabled := en, cfAdaptiveWindowSamples := w, cfAdaptiveHorizonSamples := h,
       cfAdaptiveMaxAdjustPercent := m\<rparr>))))))"

definition parse_alerts :: "config_os \<Rightarrow> json \<Rightarrow> config \<Rightarrow> string + config" where
  "parse_alerts os doc cfg =
     bindE (OptObject doc ''alerts'' ''alerts'') (\<lambda>x. case x of None \<Rightarrow> Inr cfg | Some al \<Rightarrow>
     bindE (OptBool al ''popup'' ''alerts.popup'' True) (\<lambda>pop.
     bindE (OptString al ''webhook_url'' ''alerts.webhook_url'' []) (\<lambda>raw.
     bindE (Secret os raw ''alerts.webhook_url'') (\<lambda>url.
     bindE (failIf (url \<noteq> [] \<and> \<not> starts_with ''http://'' url \<and> \<not> starts_with ''https://'' url)
       ''alerts.webhook_url must start with http:// or https://'') (\<lambda>_.
     bindE (Utf8ToWide os url) (\<lambda>w.
     Inr (cfg\<lparr>cfAlertPopup := pop, cfAlertWebhookUrl := w\<rparr>)))))))"

text \<open>\<open>_stricmp\<close> against a lower-case word, and the test for a full Windows path.\<close>

definition ends_with_exe :: "string \<Rightarrow> bool" where
  "ends_with_exe s = (Lower (drop (length s - 4) s) = ''.exe'')"

definition full_path :: "wstring \<Rightarrow> bool" where
  "full_path p = ((length p \<ge> 3 \<and> p ! 1 = CHR '':'' \<and> p ! 2 = backslash) \<or>
     starts_with [backslash, backslash] p)"

definition identity_item :: "config_os \<Rightarrow> string \<Rightarrow> json \<Rightarrow> string + pinned_identity" where
  "identity_item os name spec =
     (let loc = ''identity.'' @ name in
      bindE (failIf (length name < 5 \<or> has_slash name \<or> \<not> ends_with_exe name)
        (loc @ '': key must be an executable name such as app.exe'')) (\<lambda>_.
      bindE (failIf (\<not> is_object spec) (loc @ '' must be an object'')) (\<lambda>_.
      bindE (Utf8ToWide os name) (\<lambda>n.
      bindE (bindE (OptString spec ''path'' (loc @ ''.path'') []) (Utf8ToWide os)) (\<lambda>p.
      bindE (bindE (OptString spec ''publisher'' (loc @ ''.publisher'') []) (Utf8ToWide os)) (\<lambda>pub.
      bindE (failIf (p = [] \<and> pub = []) (loc @ '' needs a path, a publisher, or both'')) (\<lambda>_.
      bindE (failIf (p \<noteq> [] \<and> \<not> full_path p) (loc @ ''.path must be a full path such as C:'' @
        [backslash, backslash] @ ''Apps'' @ [backslash, backslash] @ ''app.exe'')) (\<lambda>_.
      Inr \<lparr>piName = n, piPath = p, piPublisher = pub\<rparr>))))))))"

fun identity_items :: "config_os \<Rightarrow> (string \<times> json) list \<Rightarrow> config \<Rightarrow> string + config" where
  "identity_items os [] cfg = Inr cfg"
| "identity_items os ((name, spec) # rest) cfg =
     bindE (identity_item os name spec) (\<lambda>p.
     identity_items os rest (cfg\<lparr>cfIdentities := cfIdentities cfg @ [p]\<rparr>))"

fun members :: "json \<Rightarrow> (string \<times> json) list" where
  "members (JObj m) = m"
| "members _ = []"

definition parse_identity :: "config_os \<Rightarrow> json \<Rightarrow> config \<Rightarrow> string + config" where
  "parse_identity os doc cfg =
     bindE (OptObject doc ''identity'' ''identity'') (\<lambda>x. case x of None \<Rightarrow> Inr cfg | Some i \<Rightarrow>
     identity_items os (members i) cfg)"

definition parse_coordination :: "config_os \<Rightarrow> json \<Rightarrow> config \<Rightarrow> string + config" where
  "parse_coordination os doc cfg =
     bindE (OptObject doc ''coordination'' ''coordination'') (\<lambda>x. case x of None \<Rightarrow> Inr cfg | Some c \<Rightarrow>
     bindE (OptBool c ''enabled'' ''coordination.enabled'' False) (\<lambda>en.
     bindE (OptString c ''controller_host'' ''coordination.controller_host'' ''127.0.0.1'') (\<lambda>h.
     bindE (Utf8ToWide os h) (\<lambda>host.
     bindE (OptInteger c ''controller_port'' ''coordination.controller_port'' 1 65535 7878) (\<lambda>port.
     bindE (OptString c ''shared_token'' ''coordination.shared_token'' []) (\<lambda>raw.
     bindE (Secret os raw ''coordination.shared_token'') (\<lambda>token.
     bindE (OptInteger c ''heartbeat_seconds'' ''coordination.heartbeat_seconds'' 1 3600 5) (\<lambda>hb.
     bindE (failIf (en \<and> host = [])
       ''coordination.controller_host must not be empty when enabled'') (\<lambda>_.
     bindE (failIf (en \<and> length token < 16)
       ''coordination.shared_token must be at least 16 characters when enabled'') (\<lambda>_.
     Inr (cfg\<lparr>cfCoordinationEnabled := en, cfControllerHost := host, cfControllerPort := port,
       cfSharedToken := token, cfHeartbeatSeconds := hb\<rparr>)))))))))))"

definition parse_security :: "json \<Rightarrow> config \<Rightarrow> string + config" where
  "parse_security doc cfg =
     bindE (OptObject doc ''security'' ''security'') (\<lambda>x. case x of None \<Rightarrow> Inr cfg | Some s \<Rightarrow>
     bindE (OptBool s ''require_protected_config'' ''security.require_protected_config'' False) (\<lambda>b.
     Inr (cfg\<lparr>cfRequireProtectedConfig := b\<rparr>)))"

definition parse_auto_protect :: "json \<Rightarrow> config \<Rightarrow> string + config" where
  "parse_auto_protect doc cfg =
     bindE (OptObject doc ''auto_protect'' ''auto_protect'') (\<lambda>x. case x of None \<Rightarrow> Inr cfg | Some a \<Rightarrow>
     (let p = ''auto_protect.'' in
     bindE (OptBool a ''enabled'' (p @ ''enabled'') True) (\<lambda>en.
     bindE (OptNumber a ''throttle_at_percent'' (p @ ''throttle_at_percent'') 10 100 90) (\<lambda>tp.
     bindE (OptInteger a ''throttle_samples'' (p @ ''throttle_samples'') 1 600 5) (\<lambda>ts.
     bindE (OptBool a ''use_idle'' (p @ ''use_idle'') True) (\<lambda>ui.
     bindE (OptNumber a ''idle_at_percent'' (p @ ''idle_at_percent'') 10 100 97) (\<lambda>ip.
     bindE (OptInteger a ''idle_samples'' (p @ ''idle_samples'') 1 600 10) (\<lambda>is.
     bindE (OptNumber a ''recover_below_percent'' (p @ ''recover_below_percent'') 1 100 75) (\<lambda>rp.
     bindE (OptInteger a ''recover_samples'' (p @ ''recover_samples'') 1 600 10) (\<lambda>rs.
     bindE (OptInteger a ''max_processes'' (p @ ''max_processes'') 1 50 3) (\<lambda>mp.
     bindE (OptNumber a ''min_process_cpu_percent'' (p @ ''min_process_cpu_percent'') 1 6400 50) (\<lambda>mc.
     bindE (failIf (rp \<ge> tp)
       ''auto_protect.recover_below_percent must be below auto_protect.throttle_at_percent'') (\<lambda>_.
     bindE (failIf (ui \<and> ip < tp)
       ''auto_protect.idle_at_percent must be at least auto_protect.throttle_at_percent'') (\<lambda>_.
     Inr (cfg\<lparr>cfAutoEnabled := en, cfAutoThrottlePercent := tp, cfAutoThrottleSamples := ts,
       cfAutoUseIdle := ui, cfAutoIdlePercent := ip, cfAutoIdleSamples := is, cfAutoRecoverPercent := rp,
       cfAutoRecoverSamples := rs, cfAutoMaxProcesses := mp, cfAutoMinProcessCpuPercent := mc\<rparr>)))))))))))))))"

definition parse_dashboard :: "json \<Rightarrow> config \<Rightarrow> string + config" where
  "parse_dashboard doc cfg =
     bindE (OptObject doc ''dashboard'' ''dashboard'') (\<lambda>x. case x of None \<Rightarrow> Inr cfg | Some d \<Rightarrow>
     bindE (OptBool d ''enabled'' ''dashboard.enabled'' True) (\<lambda>en.
     bindE (OptInteger d ''port'' ''dashboard.port'' 1024 65535 8787) (\<lambda>port.
     Inr (cfg\<lparr>cfDashboardEnabled := en, cfDashboardPort := port\<rparr>))))"

fun what :: "json_exn \<Rightarrow> string" where
  "what (ParseError m) = m"
| "what (OutOfRange m) = m"
| "what (TypeError m) = m"

definition parse_root :: "config_os \<Rightarrow> json \<Rightarrow> string + config" where
  "parse_root os doc =
     bindE (parse_polling doc default_config) (\<lambda>c.
     bindE (parse_thresholds doc c) (\<lambda>c.
     bindE (parse_processes os doc c) (\<lambda>c.
     bindE (parse_logging os doc c) (\<lambda>c.
     bindE (parse_telemetry doc c) (\<lambda>c.
     bindE (parse_triggers doc c) (\<lambda>c.
     bindE (parse_adaptive doc c) (\<lambda>c.
     bindE (parse_alerts os doc c) (\<lambda>c.
     bindE (parse_identity os doc c) (\<lambda>c.
     bindE (parse_coordination os doc c) (\<lambda>c.
     bindE (parse_security doc c) (\<lambda>c.
     bindE (parse_auto_protect doc c) (\<lambda>c.
     parse_dashboard doc c))))))))))))"

definition ParseConfig :: "config_os \<Rightarrow> string \<Rightarrow> string + config" where
  "ParseConfig os text =
     (case coParse os text of
        Inl e \<Rightarrow> Inl (''config is not valid JSON: '' @ what e)
      | Inr doc \<Rightarrow>
          if \<not> is_object doc then Inl ''config must be a JSON object'' else parse_root os doc)"

definition LoadConfigFile :: "config_os \<Rightarrow> (wstring \<Rightarrow> string option) \<Rightarrow> wstring \<Rightarrow> string + config" where
  "LoadConfigFile os files path =
     (case files path of
        None \<Rightarrow> Inl (''cannot open config file: '' @ coUtf8 os path)
      | Some contents \<Rightarrow> ParseConfig os contents)"

section \<open>Assigning a role\<close>

text \<open>What \<open>SetProcessRole\<close> may throw: it catches only the parser's \<open>parse_error\<close>.\<close>

datatype role_exn = ConfigError string | JsonEscapes json_exn

definition config_error :: "string + 'a \<Rightarrow> role_exn + 'a" where
  "config_error x = (case x of Inl m \<Rightarrow> Inl (ConfigError m) | Inr v \<Rightarrow> Inr v)"

fun drop_names :: "config_os \<Rightarrow> wstring \<Rightarrow> json list \<Rightarrow> string + json list" where
  "drop_names os wanted [] = Inr []"
| "drop_names os wanted (n # ns) =
     bindE (case n of JStr s \<Rightarrow> bindE (Utf8ToWide os s) (\<lambda>w. Inr (coSame os w wanted)) | _ \<Rightarrow> Inr False) (\<lambda>hit.
     bindE (drop_names os wanted ns) (\<lambda>kept. Inr (if hit then kept else n # kept)))"

fun remove_from_lists :: "config_os \<Rightarrow> wstring \<Rightarrow> string list \<Rightarrow> json \<Rightarrow> string + json" where
  "remove_from_lists os wanted [] processes = Inr processes"
| "remove_from_lists os wanted (l # ls) processes =
     bindE (case jfind processes l of
         None \<Rightarrow> Inr processes
       | Some (JArr ns) \<Rightarrow> bindE (drop_names os wanted ns) (\<lambda>kept. Inr (jset processes l (JArr kept)))
       | Some _ \<Rightarrow> Inl (''processes.'' @ l @ '' must be an array'')) (\<lambda>processes'.
     remove_from_lists os wanted ls processes')"

definition add_to_role :: "string \<Rightarrow> string \<Rightarrow> json \<Rightarrow> json" where
  "add_to_role role name processes =
     (if role = ''none'' then processes
      else (case jfind processes role of
          Some (JArr ns) \<Rightarrow> jset processes role (JArr (ns @ [JStr name]))
        | _ \<Rightarrow> jset processes role (JArr [JStr name])))"

definition SetProcessRole :: "config_os \<Rightarrow> string \<Rightarrow> string \<Rightarrow> string \<Rightarrow> role_exn + string" where
  "SetProcessRole os text name role =
     (if role \<notin> {''critical'', ''batch'', ''protected'', ''none''} then
        Inl (ConfigError ''role must be critical, batch, protected or none'')
      else if name = [] \<or> has_slash name then
        Inl (ConfigError (''process name must be an executable name such as '' @ [dquote] @ ''app.exe'' @ [dquote]))
      else (case coParseOrdered os text of
          Inl (ParseError m) \<Rightarrow> Inl (ConfigError (''config is not valid JSON: '' @ m))
        | Inl e \<Rightarrow> Inl (JsonEscapes e)
        | Inr doc \<Rightarrow>
            (case jfind doc ''processes'' of
               Some (JObj m) \<Rightarrow>
                 config_error
                   (bindE (Utf8ToWide os name) (\<lambda>wanted.
                    bindE (remove_from_lists os wanted [''critical'', ''batch'', ''protected''] (JObj m)) (\<lambda>processes.
                    (let out = coDump os (jset doc ''processes'' (add_to_role role name processes)) @ [CHR 0x0A]
                     in bindE (ParseConfig os out) (\<lambda>_. Inr out)))))
             | _ \<Rightarrow> Inl (ConfigError ''config has no processes object''))))"

end
