(* ===== verification/Config_Facts.thy ===== *)
theory Config_Facts
  imports Config
begin

text \<open>
  What an accepted configuration satisfies: \<open>config_ok\<close> collects every range and every relation
  between fields that \<open>ParseConfig\<close> enforces, and each section's parser preserves it.
\<close>

section \<open>Fields\<close>

lemma Integer_range: "Integer obj key path lo hi = Inr n \<Longrightarrow> lo \<le> n \<and> n \<le> hi"
proof -
  assume "Integer obj key path lo hi = Inr n"
  then obtain v where "(case v of JInt i \<Rightarrow>
      (let x = get_long_long i in
       if x < lo \<or> x > hi then
         Inl (path @ '' must be between '' @ int_to_string lo @ '' and '' @ int_to_string hi @
           '', got '' @ int_to_string x)
       else Inr x)
    | _ \<Rightarrow> Inl (path @ '' must be an integer'')) = Inr n"
    unfolding Integer_def bindE_Inr by blast
  then show ?thesis by (cases v) (simp_all add: Let_def split: if_splits)
qed

lemma OptInteger_range:
  "OptInteger obj key path lo hi d = Inr n \<Longrightarrow> lo \<le> d \<Longrightarrow> d \<le> hi \<Longrightarrow> lo \<le> n \<and> n \<le> hi"
  using Integer_range by (auto simp: OptInteger_def split: if_splits)

lemma OptNumber_range:
  "OptNumber obj key path lo hi d = Inr x \<Longrightarrow> lo \<le> d \<Longrightarrow> d \<le> hi \<Longrightarrow> lo \<le> x \<and> x \<le> hi"
  by (auto simp: OptNumber_def split: option.splits if_splits)

lemma Percent_range: "Percent obj key path = Inr x \<Longrightarrow> 0 < x \<and> x \<le> 100"
  by (auto simp: Percent_def bindE_Inr split: option.splits if_splits)

lemma Threshold_range:
  "Threshold t key = Inr s \<Longrightarrow> 0 < tsPercent s \<and> tsPercent s \<le> 100 \<and> 1 \<le> tsSamples s \<and> tsSamples s \<le> 100"
  by (auto simp: Threshold_def bindE_Inr Let_def dest!: Percent_range Integer_range)

text \<open>A name that passed: the conversion of a non-empty string without a path separator.\<close>

definition good_name :: "config_os \<Rightarrow> wstring \<Rightarrow> bool" where
  "good_name os w = (\<exists>s. s \<noteq> [] \<and> \<not> has_slash s \<and> coWide os s = Some w)"

lemma name_item_good: "name_item os item v = Inr w \<Longrightarrow> good_name os w"
  by (auto simp: name_item_def good_name_def bindE_Inr Utf8ToWide_def split: json.splits option.splits if_splits)

lemma name_items_good: "name_items os path i vs = Inr ws \<Longrightarrow> \<forall>w \<in> set ws. good_name os w"
  by (induction vs arbitrary: i ws) (auto simp: bindE_Inr dest: name_item_good)

lemma NameList_good: "NameList os v path = Inr ws \<Longrightarrow> \<forall>w \<in> set ws. good_name os w"
  using name_items_good by (auto simp: NameList_def split: json.splits)

lemma check_overlap_none:
  "check_overlap os cs bs = Inr () \<longleftrightarrow> (\<forall>c \<in> set cs. \<forall>b \<in> set bs. \<not> coSame os c b)"
  by (induction cs) (auto simp: bindE_Inr)

definition good_identity :: "pinned_identity \<Rightarrow> bool" where
  "good_identity p = (\<not> (piPath p = [] \<and> piPublisher p = []) \<and> (piPath p \<noteq> [] \<longrightarrow> full_path (piPath p)))"

lemma identity_item_good: "identity_item os name spec = Inr p \<Longrightarrow> good_identity p"
  by (auto simp: identity_item_def bindE_Inr Let_def good_identity_def)

section \<open>The invariant\<close>

definition thresholds_ok :: "config \<Rightarrow> bool" where
  "thresholds_ok c = (\<forall>s \<in> {cfHigh c, cfCritical c, cfLow c}.
     0 < tsPercent s \<and> tsPercent s \<le> 100 \<and> 1 \<le> tsSamples s \<and> tsSamples s \<le> 100)"

definition hysteresis_ok :: "config \<Rightarrow> bool" where
  "hysteresis_ok c = (tsPercent (cfLow c) < tsPercent (cfHigh c) \<and>
     tsPercent (cfHigh c) \<le> tsPercent (cfCritical c))"

definition processes_ok :: "config_os \<Rightarrow> config \<Rightarrow> bool" where
  "processes_ok os c =
     ((\<forall>w \<in> set (cfCriticalProcesses c) \<union> set (cfBatchProcesses c) \<union> set (cfProtectedProcesses c).
         good_name os w) \<and>
      (\<forall>x \<in> set (cfCriticalProcesses c). \<forall>b \<in> set (cfBatchProcesses c). \<not> coSame os x b))"

definition intervals_ok :: "config \<Rightarrow> bool" where
  "intervals_ok c = (cfPollIntervalMs c \<in> {100..60000} \<and> cfMaxFileSizeMb c \<in> {1..1024} \<and>
     cfMaxRotatedFiles c \<in> {0..100} \<and> cfSelfMonitorIntervalSec c \<in> {0..86400} \<and>
     cfHeartbeatSeconds c \<in> {1..3600} \<and> cfControllerPort c \<in> {1..65535} \<and>
     cfDashboardPort c \<in> {1024..65535})"

definition triggers_ok :: "config \<Rightarrow> bool" where
  "triggers_ok c = (cfSystemMemoryLimitPercent c \<in> {1..100} \<and>
     cfCriticalWorkingSetLimitMb c \<in> {0..1048576} \<and> cfCriticalIoLimitMbPerSec c \<in> {1 / 10..100000})"

definition adaptive_ok :: "config \<Rightarrow> bool" where
  "adaptive_ok c = (cfAdaptiveWindowSamples c \<in> {3..600} \<and> cfAdaptiveHorizonSamples c \<in> {1..60} \<and>
     cfAdaptiveMaxAdjustPercent c \<in> {0..50})"

definition auto_ok :: "config \<Rightarrow> bool" where
  "auto_ok c = (cfAutoThrottlePercent c \<in> {10..100} \<and> cfAutoIdlePercent c \<in> {10..100} \<and>
     cfAutoRecoverPercent c \<in> {1..100} \<and> cfAutoThrottleSamples c \<in> {1..600} \<and>
     cfAutoIdleSamples c \<in> {1..600} \<and> cfAutoRecoverSamples c \<in> {1..600} \<and>
     cfAutoMaxProcesses c \<in> {1..50} \<and> cfAutoMinProcessCpuPercent c \<in> {1..6400} \<and>
     cfAutoRecoverPercent c < cfAutoThrottlePercent c \<and>
     (cfAutoUseIdle c \<longrightarrow> cfAutoThrottlePercent c \<le> cfAutoIdlePercent c))"

definition secrets_ok :: "config \<Rightarrow> bool" where
  "secrets_ok c = (cfCoordinationEnabled c \<longrightarrow> cfControllerHost c \<noteq> [] \<and> 16 \<le> length (cfSharedToken c))"

definition config_ok :: "config_os \<Rightarrow> config \<Rightarrow> bool" where
  "config_ok os c = (thresholds_ok c \<and> hysteresis_ok c \<and> processes_ok os c \<and> intervals_ok c \<and>
     triggers_ok c \<and> adaptive_ok c \<and> auto_ok c \<and> secrets_ok c \<and> (\<forall>p \<in> set (cfIdentities c). good_identity p))"

lemmas config_ok_defs = config_ok_def thresholds_ok_def hysteresis_ok_def processes_ok_def intervals_ok_def
  triggers_ok_def adaptive_ok_def auto_ok_def secrets_ok_def

lemma default_ok: "config_ok os default_config"
  by (simp add: config_ok_defs default_config_def)

text \<open>Each section's fields may be replaced by values in range.\<close>

lemma ok_polling [inv_intros]:
  "config_ok os c \<Longrightarrow> 100 \<le> n \<and> n \<le> 60000 \<Longrightarrow> config_ok os (c\<lparr>cfPollIntervalMs := n\<rparr>)"
  by (simp add: config_ok_defs)

definition spec_ok :: "threshold_spec \<Rightarrow> bool" where
  "spec_ok s = (0 < tsPercent s \<and> tsPercent s \<le> 100 \<and> 1 \<le> tsSamples s \<and> tsSamples s \<le> 100)"

lemma ok_thresholds [inv_intros]:
  "config_ok os c \<Longrightarrow> spec_ok h \<Longrightarrow> spec_ok k \<Longrightarrow> spec_ok l \<Longrightarrow> tsPercent h \<le> tsPercent k \<Longrightarrow>
   tsPercent l < tsPercent h \<Longrightarrow> config_ok os (c\<lparr>cfHigh := h, cfCritical := k, cfLow := l\<rparr>)"
  by (simp add: config_ok_defs spec_ok_def)

lemma ok_processes [inv_intros]:
  "config_ok os c \<Longrightarrow> \<forall>w \<in> set cs. good_name os w \<Longrightarrow> \<forall>w \<in> set bs. good_name os w \<Longrightarrow>
   \<forall>w \<in> set ps. good_name os w \<Longrightarrow> \<forall>x \<in> set cs. \<forall>b \<in> set bs. \<not> coSame os x b \<Longrightarrow>
   config_ok os (c\<lparr>cfCriticalProcesses := cs, cfBatchProcesses := bs, cfProtectedProcesses := ps\<rparr>)"
  by (auto simp: config_ok_defs)

lemma ok_logging [inv_intros]:
  "config_ok os c \<Longrightarrow> 1 \<le> n \<and> n \<le> 1024 \<Longrightarrow> 0 \<le> k \<and> k \<le> 100 \<Longrightarrow>
   config_ok os (c\<lparr>cfLogPath := w, cfMaxFileSizeMb := n, cfMaxRotatedFiles := k\<rparr>)"
  by (simp add: config_ok_defs)

lemma ok_telemetry [inv_intros]:
  "config_ok os c \<Longrightarrow> 0 \<le> n \<and> n \<le> 86400 \<Longrightarrow>
   config_ok os (c\<lparr>cfCpuPerCore := b, cfLogSamples := b', cfSelfMonitorIntervalSec := n\<rparr>)"
  by (simp add: config_ok_defs)

lemma ok_memory [inv_intros]:
  "config_ok os c \<Longrightarrow> 1 \<le> x \<and> x \<le> 100 \<Longrightarrow> 0 \<le> y \<and> y \<le> 1048576 \<Longrightarrow>
   config_ok os (c\<lparr>cfMemoryTriggerEnabled := b, cfSystemMemoryLimitPercent := x, cfCriticalWorkingSetLimitMb := y\<rparr>)"
  by (simp add: config_ok_defs)

lemma ok_io [inv_intros]:
  "config_ok os c \<Longrightarrow> 1 / 10 \<le> x \<and> x \<le> 100000 \<Longrightarrow>
   config_ok os (c\<lparr>cfIoTriggerEnabled := b, cfCriticalIoLimitMbPerSec := x\<rparr>)"
  by (simp add: config_ok_defs)

lemma ok_adaptive [inv_intros]:
  "config_ok os c \<Longrightarrow> 3 \<le> n \<and> n \<le> 600 \<Longrightarrow> 1 \<le> k \<and> k \<le> 60 \<Longrightarrow> 0 \<le> x \<and> x \<le> 50 \<Longrightarrow>
   config_ok os (c\<lparr>cfAdaptiveEnabled := b, cfAdaptiveWindowSamples := n, cfAdaptiveHorizonSamples := k,
     cfAdaptiveMaxAdjustPercent := x\<rparr>)"
  by (simp add: config_ok_defs)

lemma ok_alerts [inv_intros]:
  "config_ok os c \<Longrightarrow> config_ok os (c\<lparr>cfAlertPopup := b, cfAlertWebhookUrl := w\<rparr>)"
  by (simp add: config_ok_defs)

lemma ok_identity [inv_intros]:
  "config_ok os c \<Longrightarrow> \<forall>p \<in> set ps. good_identity p \<Longrightarrow> config_ok os (c\<lparr>cfIdentities := ps\<rparr>)"
  by (simp add: config_ok_defs)

lemma ok_coordination [inv_intros]:
  "config_ok os c \<Longrightarrow> 1 \<le> n \<and> n \<le> 65535 \<Longrightarrow> 1 \<le> k \<and> k \<le> 3600 \<Longrightarrow> b \<longrightarrow> w \<noteq> [] \<Longrightarrow>
   b \<longrightarrow> 16 \<le> length t \<Longrightarrow>
   config_ok os (c\<lparr>cfCoordinationEnabled := b, cfControllerHost := w, cfControllerPort := n,
     cfSharedToken := t, cfHeartbeatSeconds := k\<rparr>)"
  by (simp add: config_ok_defs)

lemma ok_security [inv_intros]: "config_ok os c \<Longrightarrow> config_ok os (c\<lparr>cfRequireProtectedConfig := b\<rparr>)"
  by (simp add: config_ok_defs)

lemma ok_auto [inv_intros]:
  "config_ok os c \<Longrightarrow> 10 \<le> tp \<and> tp \<le> 100 \<Longrightarrow> 1 \<le> ts \<and> ts \<le> 600 \<Longrightarrow> 10 \<le> ip \<and> ip \<le> 100 \<Longrightarrow>
   1 \<le> is \<and> is \<le> 600 \<Longrightarrow> 1 \<le> rp \<and> rp \<le> 100 \<Longrightarrow> 1 \<le> rs \<and> rs \<le> 600 \<Longrightarrow> 1 \<le> mp \<and> mp \<le> 50 \<Longrightarrow>
   1 \<le> mc \<and> mc \<le> 6400 \<Longrightarrow> \<not> tp \<le> rp \<Longrightarrow> \<not> (ui \<and> ip < tp) \<Longrightarrow>
   config_ok os (c\<lparr>cfAutoEnabled := en, cfAutoThrottlePercent := tp, cfAutoThrottleSamples := ts,
       cfAutoUseIdle := ui, cfAutoIdlePercent := ip, cfAutoIdleSamples := is, cfAutoRecoverPercent := rp,
       cfAutoRecoverSamples := rs, cfAutoMaxProcesses := mp, cfAutoMinProcessCpuPercent := mc\<rparr>)"
  by (simp add: config_ok_defs not_less)

lemma ok_dashboard [inv_intros]:
  "config_ok os c \<Longrightarrow> 1024 \<le> n \<and> n \<le> 65535 \<Longrightarrow>
   config_ok os (c\<lparr>cfDashboardEnabled := b, cfDashboardPort := n\<rparr>)"
  by (simp add: config_ok_defs)

section \<open>The sections\<close>

lemma parse_polling_ok: "parse_polling d c = Inr c' \<Longrightarrow> config_ok os c \<Longrightarrow> config_ok os c'"
  by (auto simp: parse_polling_def bindE_Inr intro!: ok_polling dest!: Integer_range)

lemma Threshold_ok: "Threshold t key = Inr s \<Longrightarrow> spec_ok s"
  using Threshold_range by (simp add: spec_ok_def)

lemma parse_thresholds_ok: "parse_thresholds d c = Inr c' \<Longrightarrow> config_ok os c \<Longrightarrow> config_ok os c'"
  by (auto simp: parse_thresholds_def bindE_Inr intro!: ok_thresholds dest!: Threshold_ok)

lemma parse_processes_ok:
  assumes "parse_processes os d c = Inr c'" and "config_ok os c"
  shows "config_ok os c'"
proof -
  obtain p jc cs jb bs ps where s: "NameList os jc ''processes.critical'' = Inr cs"
      "NameList os jb ''processes.batch'' = Inr bs" "check_overlap os cs bs = Inr ()"
      "(case jfind p ''protected'' of None \<Rightarrow> Inr (cfProtectedProcesses c)
         | Some v \<Rightarrow> NameList os v ''processes.protected'') = Inr ps"
      "c' = c\<lparr>cfCriticalProcesses := cs, cfBatchProcesses := bs, cfProtectedProcesses := ps\<rparr>"
    using assms(1) by (auto simp: parse_processes_def bindE_Inr)
  have "\<forall>w \<in> set ps. good_name os w"
    using s(4) assms(2) NameList_good
    by (auto simp: config_ok_def processes_ok_def split: option.splits)
  then show ?thesis
    unfolding s(5) using s(3) NameList_good [OF s(1)] NameList_good [OF s(2)] assms(2)
    by (intro ok_processes) (simp_all add: check_overlap_none)
qed

lemma parse_logging_ok: "parse_logging os d c = Inr c' \<Longrightarrow> config_ok os c \<Longrightarrow> config_ok os c'"
  by (auto simp: parse_logging_def bindE_Inr intro!: ok_logging dest!: Integer_range)

lemma OptInteger_range':
  "OptInteger obj key path lo hi d = Inr n \<Longrightarrow> n = d \<or> lo \<le> n \<and> n \<le> hi"
  using Integer_range by (auto simp: OptInteger_def split: if_splits)

lemma parse_telemetry_ok: "parse_telemetry d c = Inr c' \<Longrightarrow> config_ok os c \<Longrightarrow> config_ok os c'"
  by (auto simp: parse_telemetry_def bindE_Inr intro!: ok_telemetry split: option.splits dest!: OptInteger_range)

lemma parse_memory_ok: "parse_memory_trigger d c = Inr c' \<Longrightarrow> config_ok os c \<Longrightarrow> config_ok os c'"
  by (auto simp: parse_memory_trigger_def bindE_Inr intro!: ok_memory split: option.splits dest!: OptNumber_range)

lemma parse_io_ok: "parse_io_trigger d c = Inr c' \<Longrightarrow> config_ok os c \<Longrightarrow> config_ok os c'"
  by (auto simp: parse_io_trigger_def bindE_Inr intro!: ok_io split: option.splits dest!: OptNumber_range)

lemma parse_triggers_ok: "parse_triggers d c = Inr c' \<Longrightarrow> config_ok os c \<Longrightarrow> config_ok os c'"
  using parse_memory_ok parse_io_ok by (auto simp: parse_triggers_def bindE_Inr split: option.splits)

lemma parse_adaptive_ok: "parse_adaptive d c = Inr c' \<Longrightarrow> config_ok os c \<Longrightarrow> config_ok os c'"
  by (auto simp: parse_adaptive_def bindE_Inr intro!: ok_adaptive
      split: option.splits dest!: OptInteger_range OptNumber_range)

lemma parse_alerts_ok: "parse_alerts os d c = Inr c' \<Longrightarrow> config_ok os c \<Longrightarrow> config_ok os c'"
  by (auto simp: parse_alerts_def bindE_Inr intro!: ok_alerts split: option.splits)

lemma identity_items_ok: "identity_items os m c = Inr c' \<Longrightarrow> config_ok os c \<Longrightarrow> config_ok os c'"
proof (induction os m c rule: identity_items.induct)
  case (2 os name spec rest cfg)
  then obtain p where p: "identity_item os name spec = Inr p"
      "identity_items os rest (cfg\<lparr>cfIdentities := cfIdentities cfg @ [p]\<rparr>) = Inr c'"
    by (auto simp: bindE_Inr)
  have "\<forall>q \<in> set (cfIdentities cfg @ [p]). good_identity q"
    using 2(3) identity_item_good [OF p(1)] by (simp add: config_ok_def)
  then show ?case using 2(1) [OF p] ok_identity [OF 2(3)] by blast
qed simp

lemma parse_identity_ok: "parse_identity os d c = Inr c' \<Longrightarrow> config_ok os c \<Longrightarrow> config_ok os c'"
  using identity_items_ok by (auto simp: parse_identity_def bindE_Inr split: option.splits)

lemma parse_coordination_ok: "parse_coordination os d c = Inr c' \<Longrightarrow> config_ok os c \<Longrightarrow> config_ok os c'"
  by (auto simp: parse_coordination_def bindE_Inr intro!: ok_coordination split: option.splits
      dest!: OptInteger_range)

lemma parse_security_ok: "parse_security d c = Inr c' \<Longrightarrow> config_ok os c \<Longrightarrow> config_ok os c'"
  by (auto simp: parse_security_def bindE_Inr intro!: ok_security split: option.splits)

lemma bindE_E: "bindE x f = Inr y \<Longrightarrow> (\<And>a. x = Inr a \<Longrightarrow> f a = Inr y \<Longrightarrow> P) \<Longrightarrow> P"
  by (cases x) auto

lemma OptNumber_range_E:
  "OptNumber obj key path lo hi d = Inr x \<Longrightarrow> (lo \<le> x \<and> x \<le> hi \<Longrightarrow> P) \<Longrightarrow> lo \<le> d \<Longrightarrow> d \<le> hi \<Longrightarrow> P"
  using OptNumber_range by blast

lemma OptInteger_range_E:
  "OptInteger obj key path lo hi d = Inr x \<Longrightarrow> (lo \<le> x \<and> x \<le> hi \<Longrightarrow> P) \<Longrightarrow> lo \<le> d \<Longrightarrow> d \<le> hi \<Longrightarrow> P"
  using OptInteger_range by blast

lemma parse_auto_protect_ok:
  assumes "parse_auto_protect d c = Inr c'" and "config_ok os c"
  shows "config_ok os c'"
proof -
  obtain x where x: "OptObject d ''auto_protect'' ''auto_protect'' = Inr x"
    using assms(1) unfolding parse_auto_protect_def by (elim bindE_E)
  note p = assms(1) [unfolded parse_auto_protect_def x bindE.simps Let_def]
  show ?thesis
  proof (cases x)
    case None
    then show ?thesis using p assms(2) by simp
  next
    case (Some a)
    show ?thesis
      using p [unfolded Some option.case]
      apply (elim bindE_E)
      apply (erule OptNumber_range_E, erule OptInteger_range_E, erule OptNumber_range_E,
          erule OptInteger_range_E, erule OptNumber_range_E, erule OptInteger_range_E,
          erule OptInteger_range_E, erule OptNumber_range_E)
                      apply (simp only: failIf_simps sum.inject)
                      apply hypsubst
                      apply (rule ok_auto [OF assms(2)])
      by (assumption | simp)+
  qed
qed

lemma parse_dashboard_ok: "parse_dashboard d c = Inr c' \<Longrightarrow> config_ok os c \<Longrightarrow> config_ok os c'"
  by (auto simp: parse_dashboard_def bindE_Inr intro!: ok_dashboard split: option.splits dest!: OptInteger_range)

lemma parse_root_ok: "parse_root os d = Inr c \<Longrightarrow> config_ok os c"
  unfolding parse_root_def bindE_Inr
  using default_ok parse_polling_ok parse_thresholds_ok parse_processes_ok parse_logging_ok
    parse_telemetry_ok parse_triggers_ok parse_adaptive_ok parse_alerts_ok parse_identity_ok
    parse_coordination_ok parse_security_ok parse_auto_protect_ok parse_dashboard_ok
  by metis

lemma ParseConfig_ok: "ParseConfig os text = Inr c \<Longrightarrow> config_ok os c"
  using parse_root_ok by (auto simp: ParseConfig_def split: sum.splits if_splits)

end
