(* ===== verification/Config_Properties.thy ===== *)
theory Config_Properties
  imports Config_Facts
begin

text \<open>
  The properties of the configuration: what an accepted file satisfies, what assigning a role
  changes, and the treatment of encrypted values.
\<close>

section \<open>Assigning a role\<close>

definition same_as :: "config_os \<Rightarrow> wstring \<Rightarrow> json \<Rightarrow> bool" where
  "same_as os wanted j = (case j of
      JStr s \<Rightarrow> (case Utf8ToWide os s of Inr w \<Rightarrow> coSame os w wanted | Inl _ \<Rightarrow> False)
    | _ \<Rightarrow> False)"

definition role_list :: "json \<Rightarrow> string \<Rightarrow> json list" where
  "role_list j l = (case jfind j l of Some (JArr ns) \<Rightarrow> ns | _ \<Rightarrow> [])"

definition role_names :: "string list" where
  "role_names = [''critical'', ''batch'', ''protected'']"

lemma drop_names_filter:
  "drop_names os wanted ns = Inr kept \<Longrightarrow> kept = filter (\<lambda>n. \<not> same_as os wanted n) ns"
proof (induction ns arbitrary: kept)
  case (Cons n ns)
  then obtain hit k where h: "(case n of JStr s \<Rightarrow> bindE (Utf8ToWide os s) (\<lambda>w. Inr (coSame os w wanted))
      | _ \<Rightarrow> Inr False) = Inr hit" "drop_names os wanted ns = Inr k" "kept = (if hit then k else n # k)"
    by (auto simp: bindE_Inr)
  have "hit = same_as os wanted n"
    using h(1) by (cases n) (auto simp: same_as_def bindE_Inr)
  with h Cons.IH [OF h(2)] show ?case by simp
qed simp

lemma remove_from_lists_spec:
  "remove_from_lists os wanted ls p = Inr p' \<Longrightarrow> is_object p \<Longrightarrow> distinct ls \<Longrightarrow>
   is_object p' \<and> (\<forall>l. jfind p' l = (if l \<in> set ls \<and> jfind p l \<noteq> None
     then Some (JArr (filter (\<lambda>n. \<not> same_as os wanted n) (role_list p l))) else jfind p l))"
proof (induction ls arbitrary: p)
  case (Cons l ls)
  then obtain q where q: "(case jfind p l of None \<Rightarrow> Inr p
       | Some (JArr ns) \<Rightarrow> bindE (drop_names os wanted ns) (\<lambda>kept. Inr (jset p l (JArr kept)))
       | Some _ \<Rightarrow> Inl (''processes.'' @ l @ '' must be an array'')) = Inr q"
      "remove_from_lists os wanted ls q = Inr p'"
    by (auto simp: bindE_Inr)
  have step: "is_object q \<and> (\<forall>k. jfind q k = (if k = l \<and> jfind p l \<noteq> None
      then Some (JArr (filter (\<lambda>n. \<not> same_as os wanted n) (role_list p l))) else jfind p k))"
  proof (cases "jfind p l")
    case None
    then show ?thesis using q(1) Cons.prems(2) by simp
  next
    case (Some v)
    then obtain ns kept where v: "v = JArr ns" "drop_names os wanted ns = Inr kept" "q = jset p l (JArr kept)"
      using q(1) by (cases v) (auto simp: bindE_Inr)
    then show ?thesis
      using Some Cons.prems(2) drop_names_filter [OF v(2)] by (simp add: jfind_jset role_list_def)
  qed
  then have rest: "role_list q k = role_list p k" if "k \<noteq> l" for k
    using that by (simp add: role_list_def)
  have d: "distinct ls" "l \<notin> set ls" using Cons.prems(3) by simp_all
  note ih = Cons.IH [OF q(2) conjunct1 [OF step] d(1)]
  have "jfind p' k = (if k \<in> set (l # ls) \<and> jfind p k \<noteq> None
     then Some (JArr (filter (\<lambda>n. \<not> same_as os wanted n) (role_list p k))) else jfind p k)" for k
    using ih step rest [of k] d(2) by (cases "k = l") simp_all
  then show ?case using ih by blast
qed simp

lemma add_to_role_spec:
  assumes "is_object p" and "jfind p role = None \<or> (\<exists>ns. jfind p role = Some (JArr ns))"
  shows "is_object (add_to_role role name p) \<and>
    (\<forall>k. role_list (add_to_role role name p) k =
       role_list p k @ (if k = role \<and> role \<noteq> ''none'' then [JStr name] else [])) \<and>
    (\<forall>k. k \<noteq> role \<longrightarrow> jfind (add_to_role role name p) k = jfind p k)"
  using assms by (auto simp: add_to_role_def role_list_def jfind_jset)

lemma SetProcessRole_Inr:
  assumes "SetProcessRole os text name role = Inr out"
  shows "role \<in> insert ''none'' (set role_names)"
    and "\<exists>doc m. coParseOrdered os text = Inr doc \<and> jfind doc ''processes'' = Some (JObj m) \<and>
      bindE (Utf8ToWide os name) (\<lambda>wanted.
        bindE (remove_from_lists os wanted role_names (JObj m)) (\<lambda>processes.
          (let out = coDump os (jset doc ''processes'' (add_to_role role name processes)) @ [CHR 0x0A]
           in bindE (ParseConfig os out) (\<lambda>_. Inr out)))) = Inr out"
proof -
  have r: "role \<in> {''critical'', ''batch'', ''protected'', ''none''}"
    by (rule ccontr) (use assms in \<open>simp only: SetProcessRole_def not_False_eq_True if_True sum.distinct\<close>)
  have n: "\<not> (name = [] \<or> has_slash name)"
    by (rule notI) (use assms r in \<open>simp only: SetProcessRole_def not_False_eq_True if_True if_False not_True_eq_False sum.distinct\<close>)
  show "role \<in> insert ''none'' (set role_names)" using r by (auto simp: role_names_def)
  have a: "(case coParseOrdered os text of
          Inl (ParseError m) \<Rightarrow> Inl (ConfigError (''config is not valid JSON: '' @ m))
        | Inl e \<Rightarrow> Inl (JsonEscapes e)
        | Inr doc \<Rightarrow>
            (case jfind doc ''processes'' of
               Some (JObj m) \<Rightarrow>
                 config_error
                   (bindE (Utf8ToWide os name) (\<lambda>wanted.
                    bindE (remove_from_lists os wanted role_names (JObj m)) (\<lambda>processes.
                    (let out = coDump os (jset doc ''processes'' (add_to_role role name processes)) @ [CHR 0x0A]
                     in bindE (ParseConfig os out) (\<lambda>_. Inr out)))))
             | _ \<Rightarrow> Inl (ConfigError ''config has no processes object''))) = Inr out"
    using assms r n unfolding SetProcessRole_def role_names_def by (simp only: not_True_eq_False if_False)
  obtain doc where d: "coParseOrdered os text = Inr doc"
    using a by (cases "coParseOrdered os text") (auto split: json_exn.splits)
  obtain m where m: "jfind doc ''processes'' = Some (JObj m)"
    using a unfolding d by (cases "jfind doc ''processes''") (auto split: json.splits)
  show "\<exists>doc m. coParseOrdered os text = Inr doc \<and> jfind doc ''processes'' = Some (JObj m) \<and>
      bindE (Utf8ToWide os name) (\<lambda>wanted.
        bindE (remove_from_lists os wanted role_names (JObj m)) (\<lambda>processes.
          (let out = coDump os (jset doc ''processes'' (add_to_role role name processes)) @ [CHR 0x0A]
           in bindE (ParseConfig os out) (\<lambda>_. Inr out)))) = Inr out"
    using a d m unfolding role_names_def config_error_def
    by (intro exI [of _ doc] exI [of _ m]) (simp add: d m split: sum.splits)
qed

text \<open>
  C25. Assigning a role succeeds only with a text the parser accepts.  In it, each of the three lists
  is the old one, in its order, without the entries that name the process (whatever their case), the
  chosen role's list has the process added at the end, and every other setting is what it was.
\<close>

theorem SetProcessRole_moves_the_process:
  assumes "SetProcessRole os text name role = Inr out"
  shows "\<exists>doc m p wanted c. coParseOrdered os text = Inr doc \<and> jfind doc ''processes'' = Some (JObj m) \<and>
    Utf8ToWide os name = Inr wanted \<and>
    out = coDump os (jset doc ''processes'' p) @ [CHR 0x0A] \<and> ParseConfig os out = Inr c \<and>
    (\<forall>l \<in> set role_names. role_list p l = filter (\<lambda>n. \<not> same_as os wanted n) (role_list (JObj m) l) @
       (if l = role then [JStr name] else [])) \<and>
    (\<forall>k. k \<notin> set role_names \<longrightarrow> jfind p k = map_of m k) \<and>
    (\<forall>k. k \<noteq> ''processes'' \<longrightarrow> jfind (jset doc ''processes'' p) k = jfind doc k)"
proof -
  obtain doc m wanted q c where r: "coParseOrdered os text = Inr doc" "jfind doc ''processes'' = Some (JObj m)"
      "Utf8ToWide os name = Inr wanted" "remove_from_lists os wanted role_names (JObj m) = Inr q"
      "out = coDump os (jset doc ''processes'' (add_to_role role name q)) @ [CHR 0x0A]"
      "ParseConfig os out = Inr c" "role \<in> insert ''none'' (set role_names)"
    using SetProcessRole_Inr [OF assms] by (auto simp: bindE_Inr Let_def)
  have obj: "is_object doc" using r(2) by (cases doc) auto
  have q: "is_object q \<and> (\<forall>l. jfind q l = (if l \<in> set role_names \<and> jfind (JObj m) l \<noteq> None
      then Some (JArr (filter (\<lambda>n. \<not> same_as os wanted n) (role_list (JObj m) l))) else jfind (JObj m) l))"
    using remove_from_lists_spec [OF r(4)] by (simp add: role_names_def)
  have ql: "role_list q l = filter (\<lambda>n. \<not> same_as os wanted n) (role_list (JObj m) l)" if "l \<in> set role_names" for l
    using q that by (cases "map_of m l") (simp_all add: role_list_def)
  have none: "''none'' \<notin> set role_names" by (simp add: role_names_def)
  have "role \<noteq> ''none'' \<Longrightarrow> jfind q role = None \<or> (\<exists>ns. jfind q role = Some (JArr ns))"
    using q r(7) by auto
  then have a: "(\<forall>l \<in> set role_names. role_list (add_to_role role name q) l =
       role_list q l @ (if l = role then [JStr name] else [])) \<and>
    (\<forall>k. k \<notin> set role_names \<longrightarrow> jfind (add_to_role role name q) k = jfind q k)"
    using add_to_role_spec [of q role name] q r(7) none
    by (cases "role = ''none''") (auto simp: add_to_role_def)
  show ?thesis
    using r a q ql jfind_jset [OF obj] by (intro exI [of _ doc] exI [of _ m] exI [of _ "add_to_role role name q"]
        exI [of _ wanted] exI [of _ c]) simp
qed

section \<open>A concrete file for the witnesses\<close>

definition threshold_json :: "double \<Rightarrow> int \<Rightarrow> json" where
  "threshold_json p n = JObj [(''percent'', JReal p), (''consecutive_samples'', JInt n)]"

definition sample_processes :: json where
  "sample_processes = JObj [(''critical'', JArr [JStr ''db.exe'']), (''batch'', JArr [JStr ''zip.exe''])]"

definition sample_doc :: "json \<Rightarrow> json" where
  "sample_doc procs = JObj [(''polling'', JObj [(''interval_ms'', JInt 1000)]),
     (''thresholds'', JObj [(''high'', threshold_json 85 3), (''critical'', threshold_json 90 5),
        (''low'', threshold_json 60 5)]),
     (''processes'', procs),
     (''logging'', JObj [(''log_path'', JStr ''t.log''), (''max_file_size_mb'', JInt 50),
        (''max_rotated_files'', JInt 5)])]"

text \<open>A parser that knows the sample and the sample with a process moved, and refuses \<open>1e309\<close>.\<close>

definition moved_processes :: json where
  "moved_processes = JObj [(''critical'', JArr [JStr ''db.exe'']), (''batch'', JArr []),
     (''protected'', JArr [JStr ''zip.exe''])]"

definition sample_parser :: "string \<Rightarrow> json_exn + json" where
  "sample_parser t = (if t = ''sample'' then Inr (sample_doc sample_processes)
     else if t = [CHR ''m'', CHR 0x0A] then Inr (sample_doc moved_processes)
     else Inl (OutOfRange ''number overflow''))"

definition sample_os :: config_os where
  "sample_os = \<lparr>coParse = sample_parser, coParseOrdered = sample_parser, coDump = (\<lambda>_. ''m''),
     coWide = Some, coUtf8 = (\<lambda>w. w), coSame = (=),
     coCrypt = \<lparr>crProtect = Some, crUnprotect = Some, crEncode = Some, crDecode = Some\<rparr>\<rparr>"

lemmas parse_defs = ParseConfig_def parse_root_def parse_polling_def parse_thresholds_def Threshold_def
  parse_processes_def NameList_def name_item_def parse_logging_def parse_telemetry_def parse_triggers_def
  parse_adaptive_def parse_alerts_def parse_identity_def parse_coordination_def parse_security_def
  parse_auto_protect_def parse_dashboard_def OptObject_def jObject_def Integer_def jField_def Percent_def
  Utf8ToWide_def has_slash_def backslash_def slash_def failIf_def get_long_long_def

lemma sample_parses: "\<exists>c. ParseConfig sample_os ''sample'' = Inr c \<and> cfPollIntervalMs c = 1000"
  by (simp add: parse_defs sample_os_def sample_parser_def sample_doc_def sample_processes_def
      threshold_json_def default_config_def)

lemma moved_parses: "\<exists>c. ParseConfig sample_os [CHR ''m'', CHR 0x0A] = Inr c"
  by (simp add: parse_defs sample_os_def sample_parser_def sample_doc_def moved_processes_def
      threshold_json_def default_config_def)

lemma sample_role: "SetProcessRole sample_os ''sample'' ''zip.exe'' ''protected'' = Inr [CHR ''m'', CHR 0x0A]"
proof -
  obtain c where c: "ParseConfig sample_os [CHR ''m'', CHR 0x0A] = Inr c" using moved_parses by blast
  have "coParseOrdered sample_os ''sample'' = Inr (sample_doc sample_processes)"
    "coDump sample_os x = ''m''" "Utf8ToWide sample_os w = Inr w" "coSame sample_os = (=)" for x w
    by (simp_all add: sample_os_def sample_parser_def Utf8ToWide_def)
  moreover have "jfind (sample_doc sample_processes) ''processes'' = Some (JObj [(''critical'', JArr [JStr ''db.exe'']), (''batch'', JArr [JStr ''zip.exe''])])"
    by (simp add: sample_doc_def sample_processes_def)
  ultimately show ?thesis
    by (simp add: SetProcessRole_def has_slash_def backslash_def slash_def config_error_def c)
qed

theorem SetProcessRole_moves_the_process_witness:
  "\<exists>doc. coParseOrdered sample_os ''sample'' = Inr doc \<and> role_list doc ''polling'' = []"
  using SetProcessRole_moves_the_process [OF sample_role]
  by (auto simp: sample_os_def sample_parser_def sample_doc_def role_list_def)

section \<open>Accepted configurations\<close>

text \<open>
  C13. A configuration that is accepted is well formed: every number is in its documented range;
  the recovery threshold lies below the throttle threshold and that one at or below the critical
  one, for the actuator and for auto-protect; no process is both critical and batch; no process name
  is empty or a path; a pinned identity pins something and its path is absolute; coordination is
  enabled only with a host and a token of at least 16 characters.
\<close>

theorem accepted_config_is_well_formed:
  assumes "ParseConfig os text = Inr c"
  shows "config_ok os c"
  using assms by (rule ParseConfig_ok)

theorem accepted_config_is_well_formed_witness:
  "\<exists>c. ParseConfig sample_os ''sample'' = Inr c \<and> config_ok sample_os c"
  using sample_parses accepted_config_is_well_formed by blast

text \<open>
  A number the parser refuses as out of range is a \<open>ConfigError\<close> to \<open>ParseConfig\<close>, but the
  parser's own exception escapes from \<open>SetProcessRole\<close>, which catches only parse errors.
\<close>

lemma out_of_range_number_escapes_SetProcessRole:
  assumes "coParse os text = Inl (OutOfRange msg)" and "coParseOrdered os text = Inl (OutOfRange msg)"
    and "role \<in> insert ''none'' (set role_names)" and "name \<noteq> []" and "\<not> has_slash name"
  shows "ParseConfig os text = Inl (''config is not valid JSON: '' @ msg) \<and>
    SetProcessRole os text name role = Inl (JsonEscapes (OutOfRange msg))"
  using assms by (auto simp: ParseConfig_def SetProcessRole_def role_names_def)

theorem out_of_range_number_escapes_SetProcessRole_witness:
  "SetProcessRole sample_os ''1e309'' ''zip.exe'' ''batch'' = Inl (JsonEscapes (OutOfRange ''number overflow''))"
  using out_of_range_number_escapes_SetProcessRole
    [of sample_os "''1e309''" "''number overflow''" "''batch''" "''zip.exe''"]
  by (simp add: sample_os_def sample_parser_def role_names_def has_slash_def backslash_def slash_def)

section \<open>Encrypted values\<close>

text \<open>
  C26. What \<open>protect-secret\<close> prints is read back as the secret, under the documented behaviour of
  Windows' data protection (decrypting what it encrypted) and Base64 coder (decoding what it
  encoded); and a value is accepted only in exactly the form the encoder gives for the blob it
  decodes to, so a text edited in any way the lenient decoder would overlook is refused.
\<close>

theorem secrets_round_trip:
  assumes "\<And>p b. crProtect cr p = Some b \<Longrightarrow> crUnprotect cr b = Some p"
    and "\<And>b t. crEncode cr b = Some t \<Longrightarrow> crDecode cr t = Some b"
    and "ProtectSecret cr plain = kSecretPrefix @ b64" and "b64 \<noteq> []"
  shows "UnprotectSecret cr (kSecretPrefix @ b64) = Inr plain \<and>
    (\<forall>t p. UnprotectSecret cr (kSecretPrefix @ t) = Inr p \<longrightarrow>
       (\<exists>blob. crDecode cr t = Some blob \<and> crEncode cr blob = Some t))"
proof -
  obtain blob where b: "crProtect cr plain = Some blob" "crEncode cr blob = Some b64"
    using assms(3) by (auto simp: ProtectSecret_def kSecretPrefix_def split: option.splits)
  have "UnprotectSecret cr (ProtectSecret cr plain) = Inr plain"
    using UnprotectSecret_ProtectSecret [OF b assms(4) assms(2) [OF b(2)] assms(1) [OF b(1)]] .
  then show ?thesis using assms(3) UnprotectSecret_accepts by metis
qed

theorem secrets_round_trip_witness:
  "UnprotectSecret (coCrypt sample_os) (kSecretPrefix @ ''hunter2hunter2hu'') = Inr ''hunter2hunter2hu''"
  using secrets_round_trip [of "coCrypt sample_os" "''hunter2hunter2hu''" "''hunter2hunter2hu''"]
  by (simp add: sample_os_def ProtectSecret_def)

end
