(* ===== verification/SecureChannel.thy ===== *)
theory SecureChannel
  imports Json
begin

unbundle bit_operations_syntax

text \<open>
  \<open>src/common/SecureChannel.h/.cpp\<close>: the encrypted, mutually authenticated message channel between
  the service and the controller.  Bytes are characters.  Windows' cryptography and the JSON library
  are the record \<open>crypto_os\<close>; what the socket does is a list of answers, one per call.
\<close>

section \<open>Bytes\<close>

definition kTagSize :: nat where "kTagSize = 16"
definition kNonceSize :: nat where "kNonceSize = 12"
definition kMaxFrame :: nat where "kMaxFrame = 1024 * 1024"
definition kMinSecretLength :: nat where "kMinSecretLength = 16"

definition hex_digits :: string where
  "hex_digits = ''0123456789abcdef''"

definition byte :: "char \<Rightarrow> nat" where
  "byte c = of_char c"

fun ToHex :: "string \<Rightarrow> string" where
  "ToHex [] = []"
| "ToHex (c # cs) = hex_digits ! (byte c div 16) # hex_digits ! (byte c mod 16) # ToHex cs"

definition hex_value :: "char \<Rightarrow> nat option" where
  "hex_value c =
     (if 48 \<le> byte c \<and> byte c \<le> 57 then Some (byte c - 48)
      else if 97 \<le> byte c \<and> byte c \<le> 102 then Some (byte c - 97 + 10)
      else if 65 \<le> byte c \<and> byte c \<le> 70 then Some (byte c - 65 + 10)
      else None)"

fun hex_pairs :: "string \<Rightarrow> string option" where
  "hex_pairs (a # b # cs) =
     (case (hex_value a, hex_value b) of
        (Some hi, Some lo) \<Rightarrow> map_option ((#) (char_of (hi * 16 + lo))) (hex_pairs cs)
      | _ \<Rightarrow> None)"
| "hex_pairs cs = Some []"

definition FromHex :: "string \<Rightarrow> string" where
  "FromHex hex = (if odd (length hex) then [] else (case hex_pairs hex of None \<Rightarrow> [] | Some b \<Rightarrow> b))"

text \<open>The loop accumulates the bitwise differences; the model folds over the pairs of bytes.\<close>

definition u8_of :: "char \<Rightarrow> u8" where
  "u8_of c = of_nat (byte c)"

definition ConstantTimeEqual :: "string \<Rightarrow> string \<Rightarrow> bool" where
  "ConstantTimeEqual a b =
     (if length a \<noteq> length b then False
      else foldl (\<lambda>diff p. diff OR (u8_of (fst p) XOR u8_of (snd p))) (0 :: u8) (zip a b) = 0)"

definition Nonce :: "u64 \<Rightarrow> bool \<Rightarrow> string" where
  "Nonce sq clientToServer =
     (if clientToServer then CHR ''C'' else CHR ''S'') # replicate 3 (CHR 0x00) @
     map (\<lambda>i. char_of (unat (drop_bit (56 - 8 * i) sq AND 0xFF))) [0..<8]"

section \<open>Cryptography\<close>

text \<open>
  \<open>coHash hmac key data\<close> is \<open>None\<close> when a CNG call fails; likewise sealing, which yields the encrypted
  body and the tag, and opening a body and a tag.
\<close>

record crypto_os =
  coHash :: "bool \<Rightarrow> string \<Rightarrow> string \<Rightarrow> string option"
  coSeal :: "string \<Rightarrow> string \<Rightarrow> string \<Rightarrow> (string \<times> string) option"
  coOpen :: "string \<Rightarrow> string \<Rightarrow> string \<Rightarrow> string \<Rightarrow> string option"
  coJson :: "string \<Rightarrow> json option"
  coPrint :: "json \<Rightarrow> string"

definition Hash :: "crypto_os \<Rightarrow> string \<Rightarrow> string \<Rightarrow> bool \<Rightarrow> string" where
  "Hash os key data hmac = (case coHash os hmac key data of None \<Rightarrow> [] | Some d \<Rightarrow> d)"

definition Sha256 :: "crypto_os \<Rightarrow> string \<Rightarrow> string" where
  "Sha256 os data = Hash os [] data False"

definition HmacSha256 :: "crypto_os \<Rightarrow> string \<Rightarrow> string \<Rightarrow> string" where
  "HmacSha256 os key data = Hash os key data True"

definition Gcm :: "crypto_os \<Rightarrow> bool \<Rightarrow> string \<Rightarrow> string \<Rightarrow> string \<Rightarrow> string option" where
  "Gcm os encrypt key nonce inp =
     (if length key \<noteq> 32 \<or> length nonce \<noteq> kNonceSize then None
      else if \<not> encrypt \<and> length inp < kTagSize then None
      else if encrypt then map_option (\<lambda>(body, tag). body @ tag) (coSeal os key nonce inp)
      else (let bodyLen = length inp - kTagSize in coOpen os key nonce (take bodyLen inp) (drop bodyLen inp)))"

definition AesGcmEncrypt :: "crypto_os \<Rightarrow> string \<Rightarrow> string \<Rightarrow> string \<Rightarrow> string option" where
  "AesGcmEncrypt os key nonce plain = Gcm os True key nonce plain"

definition AesGcmDecrypt :: "crypto_os \<Rightarrow> string \<Rightarrow> string \<Rightarrow> string \<Rightarrow> string option" where
  "AesGcmDecrypt os key nonce c = Gcm os False key nonce c"

section \<open>Frames\<close>

definition be4 :: "nat \<Rightarrow> string" where
  "be4 n = [char_of (n div 2 ^ 24), char_of (n div 2 ^ 16), char_of (n div 2 ^ 8), char_of n]"

definition frame_bytes :: "string \<Rightarrow> string" where
  "frame_bytes frame = be4 (length frame) @ frame"

text \<open>
  The loop over \<open>send\<close>: each call is answered with the number of bytes taken, or an error.  \<open>None\<close>
  is a loop still waiting when the answers given have been used up.
\<close>

fun send_loop :: "nat option list \<Rightarrow> string \<Rightarrow> string \<Rightarrow> (bool \<times> string) option" where
  "send_loop answers [] wire = Some (True, wire)"
| "send_loop [] data wire = None"
| "send_loop (None # answers) data wire = Some (False, wire)"
| "send_loop (Some r # answers) data wire = send_loop answers (drop r data) (wire @ take r data)"

definition SendFrame :: "nat option list \<Rightarrow> string \<Rightarrow> (bool \<times> string) option" where
  "SendFrame answers frame =
     (if length frame > kMaxFrame then Some (False, []) else send_loop answers (frame_bytes frame) [])"

text \<open>What one pass of the receiving loop meets: data, the deadline or a timeout, or a closed socket.\<close>

datatype net_event = NetData string | NetTimeout | NetClosed

definition header_value :: "string \<Rightarrow> nat" where
  "header_value b = byte (b ! 0) * 2 ^ 24 + byte (b ! 1) * 2 ^ 16 + byte (b ! 2) * 2 ^ 8 + byte (b ! 3)"

datatype frame_result = FrameOk string | FrameTimeout | FrameBroken

text \<open>The frame at the front of the buffer: refused, complete or still incomplete.\<close>

definition buffered_frame :: "string \<Rightarrow> (frame_result \<times> string) option" where
  "buffered_frame rx =
     (if length rx \<ge> 4 then
        (let n = header_value rx in
         if n > kMaxFrame then Some (FrameBroken, rx)
         else if length rx \<ge> 4 + n then Some (FrameOk (take n (drop 4 rx)), drop (4 + n) rx)
         else None)
      else None)"

fun ReceiveFrame :: "net_event list \<Rightarrow> string \<Rightarrow> frame_result \<times> string \<times> net_event list" where
  "ReceiveFrame evs rx =
     (case buffered_frame rx of
        Some (r, rx') \<Rightarrow> (r, rx', evs)
      | None \<Rightarrow>
          (case evs of
             [] \<Rightarrow> (FrameTimeout, rx, [])
           | NetTimeout # evs' \<Rightarrow> (FrameTimeout, rx, evs')
           | NetClosed # evs' \<Rightarrow> (FrameBroken, rx, evs')
           | NetData b # evs' \<Rightarrow>
               if length (rx @ b) > kMaxFrame + 4 then (FrameBroken, rx @ b, evs')
               else ReceiveFrame evs' (rx @ b)))"

declare ReceiveFrame.simps [simp del]

section \<open>The channel\<close>

record channel =
  chRxBuffer :: string
  chSessionKey :: string
  chSendKey :: string
  chRecvKey :: string
  chIsClient :: bool
  chSendSeq :: u64
  chRecvSeq :: u64
  chReady :: bool

definition new_channel :: channel where
  "new_channel = \<lparr>chRxBuffer = [], chSessionKey = [], chSendKey = [], chRecvKey = [], chIsClient = False,
     chSendSeq = 0, chRecvSeq = 0, chReady = False\<rparr>"

definition DeriveKeys ::
  "crypto_os \<Rightarrow> string \<Rightarrow> string \<Rightarrow> string \<Rightarrow> string \<Rightarrow> bool \<Rightarrow> channel \<Rightarrow> channel" where
  "DeriveKeys os secret clientNonce serverNonce host isClient ch =
     (let psk = Sha256 os (''threadhaul-psk-v2'' @ secret);
          key = HmacSha256 os psk (''keys'' @ clientNonce @ serverNonce @ host);
          c2s = HmacSha256 os key ''c2s'';
          s2c = HmacSha256 os key ''s2c''
      in ch\<lparr>chSessionKey := key, chIsClient := isClient,
            chSendKey := (if isClient then c2s else s2c),
            chRecvKey := (if isClient then s2c else c2s)\<rparr>)"

text \<open>
  A handshake ends with success, with an error message, or with a library exception that leaves it:
  reading a member of an unexpected type throws.  The frames sent are listed in order; \<open>recv1\<close> and
  \<open>recv2\<close> are what \<open>ReceiveFrame\<close> returned (\<open>None\<close> for anything but a frame), \<open>sent1\<close> whether the first
  frame could be sent.
\<close>

datatype handshake = HsReady channel | HsError string | HsThrows json_exn

definition discarded_or :: "(json \<Rightarrow> json_exn + bool) \<Rightarrow> json option \<Rightarrow> json_exn + bool" where
  "discarded_or f j = (case j of None \<Rightarrow> Inr True | Some v \<Rightarrow> if \<not> is_object v then Inr True else f v)"

definition hello_json :: "string \<Rightarrow> string \<Rightarrow> json" where
  "hello_json host cn = JObj [(''host'', JStr host), (''nonce'', JStr (ToHex cn)), (''type'', JStr ''hello''),
     (''version'', JInt 2)]"

definition challenge_json :: "string \<Rightarrow> json" where
  "challenge_json sn = JObj [(''nonce'', JStr (ToHex sn)), (''type'', JStr ''challenge'')]"

definition proof_json :: "string \<Rightarrow> json" where
  "proof_json mac = JObj [(''mac'', JStr (ToHex mac)), (''type'', JStr ''proof'')]"

definition proof_rejected :: "crypto_os \<Rightarrow> string \<Rightarrow> string \<Rightarrow> json option \<Rightarrow> json_exn + bool" where
  "proof_rejected os key label pr = discarded_or (\<lambda>v.
     bindE (value_string v ''type'' []) (\<lambda>ty. if ty \<noteq> ''proof'' then Inr True else
     bindE (value_string v ''mac'' []) (\<lambda>mac.
     Inr (\<not> ConstantTimeEqual (FromHex mac) (HmacSha256 os key label))))) pr"

definition ClientHandshake ::
  "crypto_os \<Rightarrow> string \<Rightarrow> string \<Rightarrow> string \<Rightarrow> bool \<Rightarrow> string option \<Rightarrow> string option \<Rightarrow> channel
     \<Rightarrow> handshake \<times> string list" where
  "ClientHandshake os secret host cn sent1 recv1 recv2 ch =
     (if length secret < kMinSecretLength then (HsError ''shared secret must be at least 16 characters'', [])
      else
        (let hello = coPrint os (hello_json host cn) in
         if \<not> sent1 then (HsError ''send failed'', [hello])
         else (case recv1 of
             None \<Rightarrow> (HsError ''no challenge from controller'', [hello])
           | Some frame \<Rightarrow>
               (let j = coJson os frame in
                case discarded_or (\<lambda>v. bindE (value_string v ''type'' []) (\<lambda>ty. Inr (ty \<noteq> ''challenge''))) j of
                  Inl e \<Rightarrow> (HsThrows e, [hello])
                | Inr True \<Rightarrow>
                    (case j of
                       None \<Rightarrow> (HsError ''bad challenge'', [hello])
                     | Some v \<Rightarrow>
                         if is_object v then
                           (case value_string v ''message'' ''handshake rejected'' of
                              Inl e \<Rightarrow> (HsThrows e, [hello])
                            | Inr m \<Rightarrow> (HsError m, [hello]))
                         else (HsError ''bad challenge'', [hello]))
                | Inr False \<Rightarrow>
                    (case value_string (the j) ''nonce'' [] of
                       Inl e \<Rightarrow> (HsThrows e, [hello])
                     | Inr hex \<Rightarrow>
                         (let sn = FromHex hex in
                          if length sn \<noteq> 32 then (HsError ''bad challenge nonce'', [hello])
                          else
                            (let ch1 = DeriveKeys os secret cn sn host True ch;
                                 proof = coPrint os (proof_json (HmacSha256 os (chSessionKey ch1) ''client-proof''))
                             in case recv2 of
                                  None \<Rightarrow> (HsError ''controller closed the connection (wrong shared secret?)'',
                                    [hello, proof])
                                | Some frame2 \<Rightarrow>
                                    (case proof_rejected os (chSessionKey ch1) ''server-proof'' (coJson os frame2) of
                                       Inl e \<Rightarrow> (HsThrows e, [hello, proof])
                                     | Inr True \<Rightarrow> (HsError ''controller failed authentication'', [hello, proof])
                                     | Inr False \<Rightarrow> (HsReady (ch1\<lparr>chReady := True\<rparr>), [hello, proof])))))))))"

definition hello_rejected :: "json option \<Rightarrow> json_exn + bool" where
  "hello_rejected j = discarded_or (\<lambda>v.
     bindE (value_string v ''type'' []) (\<lambda>ty. if ty \<noteq> ''hello'' then Inr True else
     bindE (value_int v ''version'' 0) (\<lambda>n. Inr (n \<noteq> 2)))) j"

definition error_json :: json where
  "error_json = JObj [(''message'', JStr ''protocol version 2 required''), (''type'', JStr ''error'')]"

text \<open>The second component is \<open>peerHost\<close>, set as soon as the hello has been read.\<close>

definition ServerHandshake ::
  "crypto_os \<Rightarrow> string \<Rightarrow> string \<Rightarrow> string option \<Rightarrow> string option \<Rightarrow> channel
     \<Rightarrow> handshake \<times> string \<times> string list" where
  "ServerHandshake os secret sn recv1 recv2 ch =
     (case recv1 of
        None \<Rightarrow> (HsError ''no hello'', [], [])
      | Some frame \<Rightarrow>
          (let j = coJson os frame in
           case hello_rejected j of
             Inl e \<Rightarrow> (HsThrows e, [], [])
           | Inr True \<Rightarrow> (HsError ''bad hello or old protocol'', [], [coPrint os error_json])
           | Inr False \<Rightarrow>
               (case bindE (value_string (the j) ''nonce'' []) (\<lambda>hex.
                     bindE (value_string (the j) ''host'' []) (\<lambda>host. Inr (FromHex hex, host))) of
                  Inl e \<Rightarrow> (HsThrows e, [], [])
                | Inr (cn, host) \<Rightarrow>
                    if length cn \<noteq> 32 \<or> host = [] \<or> length host > 255
                    then (HsError ''malformed hello'', host, [])
                    else
                      (let challenge = coPrint os (challenge_json sn);
                           ch1 = DeriveKeys os secret cn sn host False ch
                       in case recv2 of
                            None \<Rightarrow> (HsError ''no proof'', host, [challenge])
                          | Some frame2 \<Rightarrow>
                              (case proof_rejected os (chSessionKey ch1) ''client-proof'' (coJson os frame2) of
                                 Inl e \<Rightarrow> (HsThrows e, host, [challenge])
                               | Inr True \<Rightarrow> (HsError ''authentication failed'', host, [challenge])
                               | Inr False \<Rightarrow>
                                   (HsReady (ch1\<lparr>chReady := True\<rparr>), host,
                                    [challenge,
                                     coPrint os (proof_json (HmacSha256 os (chSessionKey ch1) ''server-proof''))]))))))"

text \<open>\<open>RandomBytes\<close>: without random bytes the program aborts.\<close>

definition RandomBytes :: "(nat \<Rightarrow> string option) \<Rightarrow> nat \<Rightarrow> string option" where
  "RandomBytes gen n = map_option (take n) (gen n)"

text \<open>\<open>Send\<close> yields the frame handed to \<open>SendFrame\<close>, if any; \<open>sent\<close> is what that returned.\<close>

definition ch_Send :: "crypto_os \<Rightarrow> (string \<Rightarrow> bool) \<Rightarrow> string \<Rightarrow> channel \<Rightarrow> bool \<times> string option \<times> channel" where
  "ch_Send os sent plaintext ch =
     (if \<not> chReady ch then (False, None, ch)
      else (case AesGcmEncrypt os (chSendKey ch) (Nonce (chSendSeq ch) (chIsClient ch)) plaintext of
          None \<Rightarrow> (False, None, ch)
        | Some sealed \<Rightarrow>
            (length sealed \<le> kMaxFrame \<and> sent sealed,
             if length sealed \<le> kMaxFrame then Some sealed else None,
             ch\<lparr>chSendSeq := chSendSeq ch + 1\<rparr>)))"

datatype recv_result = RecvMessage string | RecvTimeout | RecvBroken

text \<open>\<open>Receive\<close>, given the result of \<open>ReceiveFrame\<close>.\<close>

definition ch_Receive :: "crypto_os \<Rightarrow> frame_result \<Rightarrow> channel \<Rightarrow> recv_result \<times> channel" where
  "ch_Receive os r ch =
     (if \<not> chReady ch then (RecvBroken, ch)
      else (case r of
          FrameTimeout \<Rightarrow> (RecvTimeout, ch)
        | FrameBroken \<Rightarrow> (RecvBroken, ch)
        | FrameOk frame \<Rightarrow>
            (case AesGcmDecrypt os (chRecvKey ch) (Nonce (chRecvSeq ch) (\<not> chIsClient ch)) frame of
               None \<Rightarrow> (RecvBroken, ch)
             | Some plaintext \<Rightarrow> (RecvMessage plaintext, ch\<lparr>chRecvSeq := chRecvSeq ch + 1\<rparr>))))"

end
