(* ===== verification/SecureChannel_Facts.thy ===== *)
theory SecureChannel_Facts
  imports SecureChannel
begin

text \<open>
  What the channel's byte-level operations guarantee: hexadecimal text is read back, the comparison
  in constant time is equality, every nonce is used for one sequence number and direction, and a
  stream of frames is cut where it was joined.
\<close>

section \<open>Hexadecimal\<close>

lemma byte_less: "byte c < 256"
  by (simp add: byte_def of_char_def)

lemma byte_char_of [simp]: "byte (char_of n) = n mod 256"
  by (simp add: byte_def)

lemma char_of_byte [simp]: "char_of (byte c) = c"
  by (simp add: byte_def)

lemma byte_inject: "byte a = byte b \<longleftrightarrow> a = b"
  by (metis char_of_byte)

lemma hex_value_digit: "n < 16 \<Longrightarrow> hex_value (hex_digits ! n) = Some n"
proof -
  have "\<forall>n \<in> set [0..<16]. hex_value (hex_digits ! n) = Some n" by code_simp
  then show "n < 16 \<Longrightarrow> ?thesis" by simp
qed

lemma length_ToHex: "length (ToHex b) = 2 * length b"
  by (induction b) auto

lemma hex_pairs_ToHex: "hex_pairs (ToHex b) = Some b"
proof (induction b)
  case (Cons c cs)
  have "byte c div 16 < 16" using byte_less [of c] by simp
  then show ?case using Cons by (simp add: hex_value_digit)
qed simp

lemma FromHex_ToHex [simp]: "FromHex (ToHex b) = b"
  by (simp add: FromHex_def length_ToHex hex_pairs_ToHex)

section \<open>Comparison\<close>

lemma u8_of_inject: "u8_of a = u8_of b \<longleftrightarrow> a = b"
proof -
  have "unat (u8_of c) = byte c" for c
    using byte_less [of c] by (simp add: u8_of_def unat_of_nat)
  then show ?thesis by (metis byte_inject)
qed

lemma diff_fold:
  "foldl (\<lambda>diff p. diff OR (u8_of (fst p) XOR u8_of (snd p))) d ps = 0 \<longleftrightarrow>
   d = 0 \<and> (\<forall>p \<in> set ps. fst p = snd p)"
proof (induction ps arbitrary: d)
  case (Cons p ps)
  have "d OR (u8_of (fst p) XOR u8_of (snd p)) = 0 \<longleftrightarrow> d = 0 \<and> u8_of (fst p) XOR u8_of (snd p) = 0"
    by (auto simp: bit_eq_iff bit_or_iff)
  moreover have "u8_of (fst p) XOR u8_of (snd p) = 0 \<longleftrightarrow> fst p = snd p"
    by (subst u8_of_inject [symmetric]) (auto simp: bit_eq_iff bit_xor_iff)
  ultimately show ?case using Cons.IH by auto
qed simp

lemma zip_all_eq: "length a = length b \<Longrightarrow> (\<forall>p \<in> set (zip a b). fst p = snd p) \<longleftrightarrow> a = b"
  by (induction a b rule: list_induct2) auto

lemma ConstantTimeEqual_eq [simp]: "ConstantTimeEqual a b \<longleftrightarrow> a = b"
  by (auto simp: ConstantTimeEqual_def diff_fold zip_all_eq)

section \<open>Nonces\<close>

lemma Nonce_length [simp]: "length (Nonce s d) = kNonceSize"
  by (simp add: Nonce_def kNonceSize_def)

lemma low_byte: "unat ((w :: u64) AND 0xFF) < 256"
proof -
  have *: "(w AND 0xFF) = take_bit 8 w" by (simp add: take_bit_eq_mask mask_eq_exp_minus_1)
  have "unat (take_bit 8 w) = take_bit 8 (unat w)" by (rule unsigned_take_bit_eq)
  moreover have "take_bit 8 (unat w) < 2 ^ 8" by (rule take_bit_nat_less_exp)
  ultimately show ?thesis unfolding * by (simp only: power.simps) simp
qed

lemma Nonce_inject: "Nonce s d = Nonce s' d' \<longleftrightarrow> s = s' \<and> d = d'"
proof
  assume eq: "Nonce s d = Nonce s' d'"
  then have d: "d = d'" by (auto simp: Nonce_def split: if_splits)
  have m: "map (\<lambda>i. char_of (unat (drop_bit (56 - 8 * i) s AND 0xFF)) :: char) [0..<8] =
      map (\<lambda>i. char_of (unat (drop_bit (56 - 8 * i) s' AND 0xFF))) [0..<8]"
    using eq d by (simp only: Nonce_def list.inject append_eq_append_conv length_map) simp
  have bytes: "drop_bit (56 - 8 * i) s AND 0xFF = drop_bit (56 - 8 * i) s' AND 0xFF" if "i < 8" for i
  proof -
    have "i \<in> set [0..<8]" using that by simp
    then have "byte (char_of (unat (drop_bit (56 - 8 * i) s AND 0xFF))) =
        byte (char_of (unat (drop_bit (56 - 8 * i) s' AND 0xFF)))"
      using m unfolding map_eq_conv by metis
    then show ?thesis using low_byte by (simp add: word_eq_iff_unsigned [where 'a = nat] mod_less)
  qed
  have "s = s'"
  proof (rule bit_eqI)
    fix n assume "possible_bit TYPE(u64) n"
    then have n: "n < 64" by simp
    define i where "i = 7 - n div 8"
    have i: "i < 8" "56 - 8 * i = 8 * (n div 8)" using n by (auto simp: i_def)
    have ff: "bit (0xFF :: u64) (n mod 8)"
    proof -
      have "(0xFF :: u64) = mask 8" by (simp add: mask_eq_exp_minus_1)
      then show ?thesis by (simp only: bit_mask_iff) simp
    qed
    have "bit (drop_bit (8 * (n div 8)) s AND 0xFF) (n mod 8) = bit (drop_bit (8 * (n div 8)) s' AND 0xFF) (n mod 8)"
      using bytes [OF i(1)] i(2) by simp
    then show "bit s n = bit s' n" using ff by (simp add: bit_and_iff bit_drop_bit_eq)
  qed
  with d show "s = s' \<and> d = d'" by simp
qed simp

section \<open>Frames\<close>

lemma be4_length [simp]: "length (be4 n) = 4"
  by (simp add: be4_def)

lemma frame_bytes_length [simp]: "length (frame_bytes f) = 4 + length f"
  by (simp add: frame_bytes_def)

lemma header_value_be4:
  assumes "n < 2 ^ 32"
  shows "header_value (be4 n @ rest) = n"
proof -
  define a b c where "a = n div 256" and "b = a div 256" and "c = b div 256"
  have d: "n div 2 ^ 16 = b" "n div 2 ^ 24 = c" "n div 2 ^ 8 = a"
    by (simp_all add: a_def b_def c_def div_mult2_eq [symmetric])
  have "c < 256" using assms by (simp add: a_def b_def c_def div_mult2_eq [symmetric])
  moreover have "n = 256 * a + n mod 256" "a = 256 * b + a mod 256" "b = 256 * c + b mod 256"
    unfolding a_def b_def c_def by simp_all
  ultimately have "c mod 256 * 2 ^ 24 + b mod 256 * 2 ^ 16 + a mod 256 * 2 ^ 8 + n mod 256 = n"
    by simp
  then show ?thesis
    unfolding header_value_def be4_def d byte_char_of by (simp add: byte_char_of del: mod_less)
qed

lemma header_of_prefix:
  assumes "length f \<le> kMaxFrame" and "4 \<le> k"
  shows "header_value (take k (frame_bytes f)) = length f"
proof -
  have "take k (frame_bytes f) = be4 (length f) @ take (k - 4) f"
    using assms(2) by (simp add: frame_bytes_def)
  then show ?thesis using assms(1) by (simp add: header_value_be4 kMaxFrame_def)
qed

lemma buffered_frame_complete:
  assumes "length f \<le> kMaxFrame"
  shows "buffered_frame (frame_bytes f @ rest) = Some (FrameOk f, rest)"
proof -
  have "header_value (frame_bytes f @ rest) = length f"
    using header_value_be4 [of "length f" "f @ rest"] assms by (simp add: frame_bytes_def kMaxFrame_def)
  then show ?thesis using assms by (simp add: buffered_frame_def Let_def) (simp add: frame_bytes_def)
qed

lemma buffered_frame_incomplete:
  assumes "length f \<le> kMaxFrame" and "k < 4 + length f"
  shows "buffered_frame (take k (frame_bytes f)) = None"
  using assms header_of_prefix [OF assms(1), of k] by (simp add: buffered_frame_def Let_def)

text \<open>One frame from a stream cut into chunks as \<open>recv\<close> returns them, 8192 bytes at most.\<close>

lemma ReceiveFrame_stream:
  assumes "rx @ concat cs = frame_bytes f @ rest" and "\<forall>c \<in> set cs. length c \<le> 8192"
    and "length f + 8192 \<le> kMaxFrame"
  shows "\<exists>rx' cs'. ReceiveFrame (map NetData cs) rx = (FrameOk f, rx', map NetData cs') \<and>
    rx' @ concat cs' = rest \<and> set cs' \<subseteq> set cs"
  using assms
proof (induction cs arbitrary: rx)
  case Nil
  then have "buffered_frame rx = Some (FrameOk f, rest)"
    using buffered_frame_complete [of f rest] by simp
  then show ?case by (intro exI [of _ rest] exI [of _ "[]"]) (simp add: ReceiveFrame.simps [of "[]"])
next
  case (Cons c cs)
  show ?case
  proof (cases "4 + length f \<le> length rx")
    case True
    define r where "r = drop (length (frame_bytes f)) rx"
    have long: "length (frame_bytes f) \<le> length rx" using True by simp
    have "take (length (frame_bytes f)) rx = frame_bytes f" "r @ concat (c # cs) = rest"
      using Cons.prems(1) append_eq_append_conv_if [of rx "concat (c # cs)" "frame_bytes f" rest] long
      unfolding r_def by (auto split: if_splits)
    then have r: "rx = frame_bytes f @ r" "r @ concat (c # cs) = rest"
      unfolding r_def by (metis append_take_drop_id)+
    then have "buffered_frame rx = Some (FrameOk f, r)"
      using buffered_frame_complete [of f r] Cons.prems(3) by simp
    then show ?thesis
      using r(2) by (intro exI [of _ r] exI [of _ "c # cs"]) (subst ReceiveFrame.simps, simp)
  next
    case False
    then have "rx = take (length rx) (frame_bytes f)"
      using Cons.prems(1) by (metis append_eq_conv_conj append_eq_append_conv_if frame_bytes_length nat_le_linear)
    then have none: "buffered_frame rx = None"
      using buffered_frame_incomplete [of f "length rx"] False Cons.prems(3) by simp
    have fits: "\<not> length (rx @ c) > kMaxFrame + 4" using False Cons.prems(2,3) by simp
    have step: "ReceiveFrame (map NetData (c # cs)) rx = ReceiveFrame (map NetData cs) (rx @ c)"
      using none fits by (subst ReceiveFrame.simps) simp
    have "(rx @ c) @ concat cs = frame_bytes f @ rest" using Cons.prems(1) by simp
    from Cons.IH [OF this _ Cons.prems(3)] Cons.prems(2) step show ?thesis by (simp, blast)
  qed
qed

fun receive_frames :: "nat \<Rightarrow> net_event list \<Rightarrow> string \<Rightarrow> frame_result list \<times> string \<times> net_event list" where
  "receive_frames 0 evs rx = ([], rx, evs)"
| "receive_frames (Suc n) evs rx =
     (let (r, rx1, evs1) = ReceiveFrame evs rx; (rs, rx2, evs2) = receive_frames n evs1 rx1
      in (r # rs, rx2, evs2))"

lemma receive_frames_stream:
  "rx @ concat cs = concat (map frame_bytes fs) \<Longrightarrow> \<forall>c \<in> set cs. length c \<le> 8192 \<Longrightarrow>
   \<forall>f \<in> set fs. length f + 8192 \<le> kMaxFrame \<Longrightarrow>
   \<exists>rx' cs'. receive_frames (length fs) (map NetData cs) rx = (map FrameOk fs, rx', map NetData cs') \<and>
     rx' @ concat cs' = []"
proof (induction fs arbitrary: rx cs)
  case Nil
  then show ?case by (intro exI [of _ rx] exI [of _ cs]) simp
next
  case (Cons f fs)
  have s: "rx @ concat cs = frame_bytes f @ concat (map frame_bytes fs)" using Cons.prems(1) by simp
  obtain rx1 cs1 where r: "ReceiveFrame (map NetData cs) rx = (FrameOk f, rx1, map NetData cs1)"
      "rx1 @ concat cs1 = concat (map frame_bytes fs)" "set cs1 \<subseteq> set cs"
    using ReceiveFrame_stream [OF s Cons.prems(2)] Cons.prems(3) by auto
  have "\<forall>c \<in> set cs1. length c \<le> 8192" using r(3) Cons.prems(2) by blast
  from Cons.IH [OF r(2) this] Cons.prems(3) r(1) show ?case by auto
qed

text \<open>A full-size frame whose last bytes arrive together with the next frame's first is refused.\<close>

lemma full_frame_refused:
  assumes "length f = kMaxFrame" and "k < 4 + length f" and "x \<noteq> []"
  shows "ReceiveFrame [NetData (drop k (frame_bytes f) @ x)] (take k (frame_bytes f)) =
    (FrameBroken, frame_bytes f @ x, [])"
proof -
  have "buffered_frame (take k (frame_bytes f)) = None"
    using assms by (intro buffered_frame_incomplete) simp_all
  then show ?thesis using assms
    by (subst ReceiveFrame.simps) (simp flip: append_assoc)
qed

lemma send_loop_finishes:
  "\<forall>a \<in> set answers. \<exists>r \<ge> 1. a = Some r \<Longrightarrow> length data \<le> length answers \<Longrightarrow>
   send_loop answers data wire = Some (True, wire @ data)"
proof (induction answers data wire rule: send_loop.induct)
  case (4 r answers d ds wire)
  then show ?case by auto
qed auto

lemma send_loop_prefix:
  "send_loop answers data wire = Some (ok, w) \<Longrightarrow>
   (\<exists>k. w = wire @ take k data) \<and> (ok \<longrightarrow> w = wire @ data)"
proof (induction answers data wire rule: send_loop.induct)
  case (4 r answers d ds wire)
  have "send_loop answers (drop r (d # ds)) (wire @ take r (d # ds)) = Some (ok, w)" using 4(2) by simp
  from 4(1) [OF this] obtain k where k: "w = (wire @ take r (d # ds)) @ take k (drop r (d # ds))"
      and ok: "ok \<longrightarrow> w = wire @ (d # ds)" by auto
  then have "w = wire @ take (r + k) (d # ds)" by (simp only: take_add append_assoc)
  with ok show ?case by blast
qed (auto intro: exI [of _ 0])

section \<open>Exceptions and failures\<close>

lemma hello_of_wrong_type_throws:
  assumes "coJson os frame = Some (JObj m)" and "map_of m ''type'' = Some v" and "\<not> is_string v"
  shows "ServerHandshake os secret sn (Some frame) recv2 ch = (HsThrows (TypeError ''type must be string''), [], [])"
  using assms by (cases v)
    (simp_all add: ServerHandshake_def Let_def hello_rejected_def discarded_or_def value_string_def)

end
