(* ===== verification/SecureChannel_Properties.thy ===== *)
theory SecureChannel_Properties
  imports SecureChannel_Facts "HOL-Library.Sublist"
begin

text \<open>
  The properties of the channel: the two handshakes agree on the keys, nobody is authenticated
  without the secret, and what the receiver accepts is what the sender sent, in order.
\<close>

section \<open>Handshakes that meet\<close>

text \<open>The library reads back what it printed, for the messages of the handshake.\<close>

definition prints_back :: "crypto_os \<Rightarrow> json \<Rightarrow> bool" where
  "prints_back os j \<longleftrightarrow> coJson os (coPrint os j) = Some j"

definition shared_key :: "crypto_os \<Rightarrow> string \<Rightarrow> string \<Rightarrow> string \<Rightarrow> string \<Rightarrow> string" where
  "shared_key os secret cn sn host =
     HmacSha256 os (Sha256 os (''threadhaul-psk-v2'' @ secret)) (''keys'' @ cn @ sn @ host)"

lemma DeriveKeys_fields:
  "chSessionKey (DeriveKeys os secret cn sn host c ch) = shared_key os secret cn sn host"
  "chSendKey (DeriveKeys os secret cn sn host c ch) =
     HmacSha256 os (shared_key os secret cn sn host) (if c then ''c2s'' else ''s2c'')"
  "chRecvKey (DeriveKeys os secret cn sn host c ch) =
     HmacSha256 os (shared_key os secret cn sn host) (if c then ''s2c'' else ''c2s'')"
  "chIsClient (DeriveKeys os secret cn sn host c ch) = c"
  "chSendSeq (DeriveKeys os secret cn sn host c ch) = chSendSeq ch"
  "chRecvSeq (DeriveKeys os secret cn sn host c ch) = chRecvSeq ch"
  by (simp_all add: DeriveKeys_def shared_key_def Let_def)

lemma hello_read:
  "hello_rejected (Some (hello_json host cn)) = Inr False"
  "value_string (hello_json host cn) ''nonce'' [] = Inr (ToHex cn)"
  "value_string (hello_json host cn) ''host'' [] = Inr host"
  by (simp_all add: hello_rejected_def discarded_or_def hello_json_def value_string_def value_int_def)

lemma challenge_read:
  "discarded_or (\<lambda>v. bindE (value_string v ''type'' []) (\<lambda>ty. Inr (ty \<noteq> ''challenge'')))
     (Some (challenge_json sn)) = Inr False"
  "value_string (challenge_json sn) ''nonce'' [] = Inr (ToHex sn)"
  by (simp_all add: discarded_or_def challenge_json_def value_string_def)

lemma proof_read:
  "proof_rejected os key label (Some (proof_json mac)) = Inr (mac \<noteq> HmacSha256 os key label)"
  by (simp add: proof_rejected_def discarded_or_def proof_json_def value_string_def)

lemma client_run:
  assumes "kMinSecretLength \<le> length secret" and "length sn = 32"
    and "prints_back os (challenge_json sn)" and "prints_back os (proof_json mac)"
  shows "ClientHandshake os secret host cn True (Some (coPrint os (challenge_json sn)))
      (Some (coPrint os (proof_json mac))) ch =
    (if mac = HmacSha256 os (shared_key os secret cn sn host) ''server-proof''
     then HsReady ((DeriveKeys os secret cn sn host True ch)\<lparr>chReady := True\<rparr>)
     else HsError ''controller failed authentication'',
     [coPrint os (hello_json host cn),
      coPrint os (proof_json (HmacSha256 os (shared_key os secret cn sn host) ''client-proof''))])"
  using assms
  by (simp add: ClientHandshake_def Let_def prints_back_def challenge_read proof_read DeriveKeys_fields
      del: append.simps)

lemma server_run:
  assumes "length cn = 32" and "host \<noteq> []" and "length host \<le> 255"
    and "prints_back os (hello_json host cn)" and "prints_back os (proof_json mac)"
  shows "ServerHandshake os secret sn (Some (coPrint os (hello_json host cn)))
      (Some (coPrint os (proof_json mac))) ch =
    (if mac = HmacSha256 os (shared_key os secret cn sn host) ''client-proof''
     then (HsReady ((DeriveKeys os secret cn sn host False ch)\<lparr>chReady := True\<rparr>), host,
       [coPrint os (challenge_json sn),
        coPrint os (proof_json (HmacSha256 os (shared_key os secret cn sn host) ''server-proof''))])
     else (HsError ''authentication failed'', host, [coPrint os (challenge_json sn)]))"
  using assms
  by (simp add: ServerHandshake_def Let_def prints_back_def hello_read proof_read DeriveKeys_fields
      del: append.simps)

text \<open>
  C22.  When both sides hold the same secret and each receives the frames the other sent, both
  handshakes succeed, with the same session key, and the key each side sends with is the key the
  other receives with; the two directions are labelled oppositely.
\<close>

theorem handshakes_agree:
  assumes "kMinSecretLength \<le> length secret" and "length cn = 32" and "length sn = 32"
    and "host \<noteq> []" and "length host \<le> 255"
    and "\<forall>j \<in> {hello_json host cn, challenge_json sn} \<union> range proof_json. prints_back os j"
  shows "\<exists>chC chS hello proofC challenge proofS.
    ClientHandshake os secret host cn True (Some challenge) (Some proofS) new_channel =
      (HsReady chC, [hello, proofC]) \<and>
    ServerHandshake os secret sn (Some hello) (Some proofC) new_channel =
      (HsReady chS, host, [challenge, proofS]) \<and>
    chReady chC \<and> chReady chS \<and> chIsClient chC \<and> \<not> chIsClient chS \<and>
    chSessionKey chC = chSessionKey chS \<and>
    chSendKey chC = chRecvKey chS \<and> chSendKey chS = chRecvKey chC \<and>
    chSendSeq chC = chRecvSeq chS \<and> chSendSeq chS = chRecvSeq chC"
proof -
  let ?k = "shared_key os secret cn sn host"
  have pb: "prints_back os (hello_json host cn)" "prints_back os (challenge_json sn)"
      "\<And>m. prints_back os (proof_json m)" using assms(6) by auto
  note c = client_run [OF assms(1,3) pb(2) pb(3)]
  note s = server_run [OF assms(2,4,5) pb(1) pb(3)]
  let ?C = "(DeriveKeys os secret cn sn host True new_channel)\<lparr>chReady := True\<rparr>"
  let ?S = "(DeriveKeys os secret cn sn host False new_channel)\<lparr>chReady := True\<rparr>"
  let ?m = "\<lambda>role. coPrint os (proof_json (HmacSha256 os ?k role))"
  show ?thesis
    by (rule exI [of _ ?C], rule exI [of _ ?S], rule exI [of _ "coPrint os (hello_json host cn)"],
        rule exI [of _ "?m ''client-proof''"], rule exI [of _ "coPrint os (challenge_json sn)"],
        rule exI [of _ "?m ''server-proof''"])
      (simp add: c s DeriveKeys_fields, simp add: new_channel_def)
qed

text \<open>A cryptography to try the statements on: hashing only tags and joins its inputs.\<close>

fun tagged :: "string \<Rightarrow> string \<Rightarrow> string" where
  "tagged [] d = CHR 0x00 # d"
| "tagged (c # k) d = CHR 0x01 # c # tagged k d"

fun untagged :: "string \<Rightarrow> string \<times> string" where
  "untagged (t # s) = (if t = CHR 0x00 then ([], s)
     else (case s of [] \<Rightarrow> ([], []) | c # r \<Rightarrow> (let (k, d) = untagged r in (c # k, d))))"
| "untagged [] = ([], [])"

lemma untagged_tagged [simp]: "untagged (tagged k d) = (k, d)"
  by (induction k) auto

lemma tagged_inject [simp]: "tagged k d = tagged k' d' \<longleftrightarrow> k = k' \<and> d = d'"
  by (metis untagged_tagged prod.inject)

definition toy_print :: "json \<Rightarrow> string" where
  "toy_print j = (case (value_string j ''type'' [], value_string j ''host'' [], value_string j ''nonce'' [],
       value_string j ''mac'' []) of
      (Inr ty, Inr host, Inr nonce, Inr mac) \<Rightarrow>
        (if ty = ''hello'' then CHR ''h'' # tagged host nonce
         else if ty = ''challenge'' then CHR ''c'' # nonce else CHR ''p'' # mac)
    | _ \<Rightarrow> [])"

definition toy_parse :: "string \<Rightarrow> json option" where
  "toy_parse s = (case s of [] \<Rightarrow> None
     | c # r \<Rightarrow> Some (if c = CHR ''h'' then JObj [(''host'', JStr (fst (untagged r))),
           (''nonce'', JStr (snd (untagged r))), (''type'', JStr ''hello''), (''version'', JInt 2)]
         else if c = CHR ''c'' then JObj [(''nonce'', JStr r), (''type'', JStr ''challenge'')]
         else JObj [(''mac'', JStr r), (''type'', JStr ''proof'')]))"

definition toy_crypto :: crypto_os where
  "toy_crypto = \<lparr>coHash = (\<lambda>h k d. Some (tagged [if h then CHR ''m'' else CHR ''h''] (tagged k d))),
     coSeal = (\<lambda>k n p. Some (p, replicate 4 CHR ''t'' @ n)),
     coOpen = (\<lambda>k n b t. if t = replicate 4 CHR ''t'' @ n then Some b else None),
     coJson = toy_parse, coPrint = toy_print\<rparr>"

lemma toy_prints_back:
  "prints_back toy_crypto (hello_json host cn)" "prints_back toy_crypto (challenge_json sn)"
  "prints_back toy_crypto (proof_json mac)"
  by (simp_all add: prints_back_def toy_crypto_def toy_print_def toy_parse_def hello_json_def challenge_json_def
      proof_json_def value_string_def)

theorem handshakes_agree_witness:
  "\<exists>chC chS hello proofC challenge proofS.
    ClientHandshake toy_crypto (replicate 16 CHR ''s'') ''host'' (replicate 32 CHR ''a'') True (Some challenge)
      (Some proofS) new_channel = (HsReady chC, [hello, proofC]) \<and>
    ServerHandshake toy_crypto (replicate 16 CHR ''s'') (replicate 32 CHR ''b'') (Some hello) (Some proofC)
      new_channel = (HsReady chS, ''host'', [challenge, proofS]) \<and> chSendKey chC = chRecvKey chS"
  using handshakes_agree [of "replicate 16 CHR ''s''" "replicate 32 CHR ''a''" "replicate 32 CHR ''b''" "''host''"
      toy_crypto] toy_prints_back
  by (simp add: kMinSecretLength_def) blast

section \<open>Nobody else is authenticated\<close>

text \<open>The idealised hash function: it never fails and has no collisions.\<close>

definition ideal_hash :: "crypto_os \<Rightarrow> bool" where
  "ideal_hash os \<longleftrightarrow> (\<forall>h k d. coHash os h k d \<noteq> None) \<and>
     (\<forall>h k d h' k' d'. coHash os h k d = coHash os h' k' d' \<longrightarrow> h = h' \<and> k = k' \<and> d = d')"

lemma toy_ideal: "ideal_hash toy_crypto"
  by (auto simp: ideal_hash_def toy_crypto_def split: if_splits)

lemma ideal_inject:
  assumes "ideal_hash os"
  shows "Hash os k d h = Hash os k' d' h' \<longleftrightarrow> h = h' \<and> k = k' \<and> d = d'"
proof
  obtain x y where x: "coHash os h k d = Some x" "coHash os h' k' d' = Some y"
    using assms unfolding ideal_hash_def by blast
  assume "Hash os k d h = Hash os k' d' h'"
  then have "coHash os h k d = coHash os h' k' d'" using x by (simp add: Hash_def)
  then show "h = h' \<and> k = k' \<and> d = d'" using assms unfolding ideal_hash_def by blast
qed simp

lemma shared_key_inject:
  assumes "ideal_hash os" and "length cn = 32" "length sn = 32" "length cn' = 32" "length sn' = 32"
  shows "shared_key os secret cn sn host = shared_key os secret' cn' sn' host' \<longleftrightarrow>
    secret = secret' \<and> cn = cn' \<and> sn = sn' \<and> host = host'"
  using assms(2-5) by (auto simp: shared_key_def HmacSha256_def Sha256_def ideal_inject [OF assms(1)])

text \<open>
  C23.  With a collision-free hash, a side of the handshake is satisfied by a proof exactly when it was
  computed for the other role, from the same secret, both nonces of this very session and the same
  host name.  A proof replayed from another session, reflected from this side, or made with another
  secret is refused with the error of the code, and the server then sends nothing after its
  challenge.
\<close>

theorem only_this_sessions_proof_is_accepted:
  fixes os secret secret' host'
  assumes "ideal_hash os" and "length cn = 32" and "length sn = 32" and "length cn' = 32" and "length sn' = 32"
    and "host \<noteq> []" and "length host \<le> 255" and "kMinSecretLength \<le> length secret"
    and "\<forall>j \<in> {hello_json host cn, challenge_json sn} \<union> range proof_json. prints_back os j"
  defines "proof \<equiv> (\<lambda>role. coPrint os (proof_json (HmacSha256 os (shared_key os secret' cn' sn' host') role)))"
  shows "ServerHandshake os secret sn (Some (coPrint os (hello_json host cn))) (Some (proof role)) ch =
      (if role = ''client-proof'' \<and> secret' = secret \<and> cn' = cn \<and> sn' = sn \<and> host' = host
       then (HsReady ((DeriveKeys os secret cn sn host False ch)\<lparr>chReady := True\<rparr>), host,
             [coPrint os (challenge_json sn), proof ''server-proof''])
       else (HsError ''authentication failed'', host, [coPrint os (challenge_json sn)])) \<and>
    fst (ClientHandshake os secret host cn True (Some (coPrint os (challenge_json sn))) (Some (proof role)) ch) =
      (if role = ''server-proof'' \<and> secret' = secret \<and> cn' = cn \<and> sn' = sn \<and> host' = host
       then HsReady ((DeriveKeys os secret cn sn host True ch)\<lparr>chReady := True\<rparr>)
       else HsError ''controller failed authentication'')"
proof -
  have pb: "prints_back os (hello_json host cn)" "prints_back os (challenge_json sn)"
      "\<And>m. prints_back os (proof_json m)" using assms(9) by auto
  have eq: "HmacSha256 os (shared_key os secret' cn' sn' host') role = HmacSha256 os (shared_key os secret cn sn host) r
      \<longleftrightarrow> role = r \<and> secret' = secret \<and> cn' = cn \<and> sn' = sn \<and> host' = host" for r
    unfolding HmacSha256_def ideal_inject [OF assms(1)] shared_key_inject [OF assms(1,4,5,2,3)] by blast
  show ?thesis
    unfolding proof_def server_run [OF assms(2,6,7) pb(1) pb(3)] client_run [OF assms(8,3) pb(2) pb(3)] eq by simp
qed

theorem only_this_sessions_proof_is_accepted_witness:
  "ServerHandshake toy_crypto (replicate 16 CHR ''s'') (replicate 32 CHR ''b'')
     (Some (coPrint toy_crypto (hello_json ''host'' (replicate 32 CHR ''a''))))
     (Some (coPrint toy_crypto (proof_json (HmacSha256 toy_crypto
        (shared_key toy_crypto (replicate 16 CHR ''x'') (replicate 32 CHR ''a'') (replicate 32 CHR ''b'') ''host'')
        ''client-proof'')))) new_channel =
   (HsError ''authentication failed'', ''host'', [coPrint toy_crypto (challenge_json (replicate 32 CHR ''b''))])"
  using only_this_sessions_proof_is_accepted [of toy_crypto "replicate 32 CHR ''a''" "replicate 32 CHR ''b''"
      "replicate 32 CHR ''a''" "replicate 32 CHR ''b''" "''host''" "replicate 16 CHR ''s''" "replicate 16 CHR ''x''"
      "''host''" "''client-proof''" new_channel, THEN conjunct1] toy_prints_back toy_ideal
  by (simp add: kMinSecretLength_def)

section \<open>Messages\<close>

text \<open>
  A sender that seals a list of messages, and a receiver that reads until its loop is left, which the
  service and the controller do when \<open>Receive\<close> returns \<open>-1\<close>.
\<close>

fun seal_all :: "crypto_os \<Rightarrow> string list \<Rightarrow> channel \<Rightarrow> string option list" where
  "seal_all os [] ch = []"
| "seal_all os (m # ms) ch =
     (let (ok, f, ch') = ch_Send os (\<lambda>_. True) m ch in f # seal_all os ms ch')"

text \<open>What the sender has encrypted, with the nonce it used.\<close>

fun seal_log :: "crypto_os \<Rightarrow> string list \<Rightarrow> channel \<Rightarrow> (string \<times> string) list" where
  "seal_log os [] ch = []"
| "seal_log os (m # ms) ch =
     (let (ok, f, ch') = ch_Send os (\<lambda>_. True) m ch
      in if chSendSeq ch' = chSendSeq ch then seal_log os ms ch'
         else (Nonce (chSendSeq ch) (chIsClient ch), m) # seal_log os ms ch')"

fun recv_all :: "crypto_os \<Rightarrow> frame_result list \<Rightarrow> channel \<Rightarrow> string list" where
  "recv_all os [] ch = []"
| "recv_all os (r # rs) ch =
     (case ch_Receive os r ch of
        (RecvMessage m, ch') \<Rightarrow> m # recv_all os rs ch'
      | (RecvTimeout, ch') \<Rightarrow> recv_all os rs ch'
      | (RecvBroken, ch') \<Rightarrow> [])"

lemma seal_log_nth:
  "i < length (seal_log os ms ch) \<Longrightarrow>
   fst (seal_log os ms ch ! i) = Nonce (chSendSeq ch + of_nat i) (chIsClient ch)"
proof (induction os ms ch arbitrary: i rule: seal_log.induct)
  case (2 os m ms ch)
  obtain ok f ch' where s: "ch_Send os (\<lambda>_. True) m ch = (ok, f, ch')" by (metis prod_cases3)
  have ch': "chIsClient ch' = chIsClient ch \<and> (chSendSeq ch' = chSendSeq ch \<or> chSendSeq ch' = chSendSeq ch + 1)"
    using s by (auto simp: ch_Send_def split: if_splits option.splits)
  show ?case
  proof (cases "chSendSeq ch' = chSendSeq ch")
    case True
    then show ?thesis using 2 s ch' by simp
  next
    case False
    then show ?thesis using 2 s ch' by (cases i) (auto simp: algebra_simps)
  qed
qed simp

lemma seal_log_plain: "subseq (map snd (seal_log os ms ch)) ms"
proof (induction os ms ch rule: seal_log.induct)
  case (2 os m ms ch)
  obtain ok f ch' where s: "ch_Send os (\<lambda>_. True) m ch = (ok, f, ch')" by (metis prod_cases3)
  then show ?case using 2 [OF s [symmetric] refl] by (auto intro: list_emb_Cons)
qed simp

lemma word_offset_inject:
  assumes "i < 2 ^ 64" and "j < 2 ^ 64" and "(s :: u64) + of_nat i = s + of_nat j"
  shows "i = j"
proof -
  have "(of_nat i :: u64) = of_nat j" using assms(3) by simp
  then have "unat (of_nat i :: u64) = unat (of_nat j :: u64)" by simp
  then show ?thesis using assms(1,2) by (simp add: unat_of_nat)
qed

text \<open>The receiver that has accepted \<open>k\<close> messages waits for nonce number \<open>k\<close>.\<close>

lemma recv_all_prefix:
  assumes "\<forall>n b t p. coOpen os (chRecvKey chR) n b t = Some p \<longrightarrow> (n, p) \<in> set sl"
    and "\<forall>i < length sl. fst (sl ! i) = Nonce (sq + of_nat i) dir" and "length sl < 2 ^ 64"
    and "chRecvSeq chR = sq + of_nat k" and "dir = (\<not> chIsClient chR)" and "k \<le> length sl"
  shows "\<exists>n. recv_all os rs chR = take n (drop k (map snd sl))"
  using assms
proof (induction rs arbitrary: chR k)
  case Nil
  then show ?case by (intro exI [of _ 0]) simp
next
  case (Cons r rs)
  obtain rr ch' where R: "ch_Receive os r chR = (rr, ch')" by fastforce
  show ?case
  proof (cases rr)
    case (RecvMessage p)
    then obtain frame where f: "r = FrameOk frame"
        "AesGcmDecrypt os (chRecvKey chR) (Nonce (chRecvSeq chR) (\<not> chIsClient chR)) frame = Some p"
        "ch' = chR\<lparr>chRecvSeq := chRecvSeq chR + 1\<rparr>"
      using R by (auto simp: ch_Receive_def split: if_splits frame_result.splits option.splits)
    then have "(Nonce (sq + of_nat k) dir, p) \<in> set sl"
      using Cons.prems(1,4,5) by (auto simp: AesGcmDecrypt_def Gcm_def Let_def split: if_splits)
    then obtain i where i: "i < length sl" "sl ! i = (Nonce (sq + of_nat k) dir, p)"
      by (auto simp: in_set_conv_nth)
    then have "sq + of_nat i = sq + of_nat k" using Cons.prems(2) Nonce_inject by (metis fst_conv)
    then have ik: "i = k" using word_offset_inject [of i k sq] i(1) Cons.prems(3,6) by simp
    have "\<exists>n. recv_all os rs ch' = take n (drop (Suc k) (map snd sl))"
      using Cons.prems i(1) ik f(3) by (intro Cons.IH) (simp_all add: algebra_simps)
    then obtain n where "recv_all os rs ch' = take n (drop (Suc k) (map snd sl))" ..
    moreover have "drop k (map snd sl) = p # drop (Suc k) (map snd sl)"
      using i ik by (simp add: Cons_nth_drop_Suc [symmetric])
    ultimately show ?thesis using R RecvMessage by (intro exI [of _ "Suc n"]) simp
  next
    case RecvTimeout
    then have "ch' = chR" using R
      by (auto simp: ch_Receive_def split: if_splits frame_result.splits option.splits)
    then show ?thesis using Cons.IH [OF Cons.prems] R RecvTimeout by simp
  next
    case RecvBroken
    then show ?thesis using R by (intro exI [of _ 0]) simp
  qed
qed

text \<open>
  C7.  Whatever frames, timeouts and errors an attacker in the network makes of the traffic, the
  messages the receiver hands to the program are a prefix of those the sender sealed, each once and in
  the order they were sent: nothing is forged, replayed, reordered or skipped.  The assumption on the
  cipher is the authenticity of AES-GCM: under the receiver's key only what the sender sealed opens,
  under the nonce it was sealed with.
\<close>

theorem received_messages_are_a_prefix_of_the_sent:
  assumes "\<forall>n b t p. coOpen os (chRecvKey chR) n b t = Some p \<longrightarrow> (n, p) \<in> set (seal_log os ms chS)"
    and "chRecvSeq chR = chSendSeq chS" and "chIsClient chR = (\<not> chIsClient chS)"
    and "length ms < 2 ^ 64"
  shows "\<exists>n. recv_all os rs chR = take n (map snd (seal_log os ms chS)) \<and>
    subseq (map snd (seal_log os ms chS)) ms"
proof -
  have "length (map snd (seal_log os ms chS)) \<le> length ms"
    by (rule list_emb_length [OF seal_log_plain])
  then have "\<exists>n. recv_all os rs chR = take n (drop 0 (map snd (seal_log os ms chS)))"
    using assms by (intro recv_all_prefix [where sq = "chSendSeq chS" and dir = "chIsClient chS"])
      (auto simp: seal_log_nth)
  then show ?thesis using seal_log_plain by simp
qed

text \<open>A pair of channels a handshake has left behind, for the concrete runs.\<close>

definition toy_client :: channel where
  "toy_client = \<lparr>chRxBuffer = [], chSessionKey = replicate 32 CHR ''k'', chSendKey = replicate 32 CHR ''c'',
     chRecvKey = replicate 32 CHR ''s'', chIsClient = True, chSendSeq = 0, chRecvSeq = 0, chReady = True\<rparr>"

definition toy_server :: channel where
  "toy_server = toy_client\<lparr>chSendKey := replicate 32 CHR ''s'', chRecvKey := replicate 32 CHR ''c'',
     chIsClient := False\<rparr>"

text \<open>An authentic cipher for one message: only the sealed message opens.\<close>

definition one_message :: crypto_os where
  "one_message = toy_crypto\<lparr>coOpen := (\<lambda>k n b t.
     if n = Nonce 0 True \<and> t = replicate 4 CHR ''t'' @ n \<and> b = ''hi'' then Some ''hi'' else None)\<rparr>"

lemma one_message_log: "seal_log one_message [''hi''] toy_client = [(Nonce 0 True, ''hi'')]"
  by (simp add: ch_Send_def toy_client_def AesGcmEncrypt_def Gcm_def one_message_def toy_crypto_def)

lemma one_message_run:
  "recv_all one_message [FrameTimeout, FrameOk (''hi'' @ replicate 4 CHR ''t'' @ Nonce 0 True),
     FrameOk (''hi'' @ replicate 4 CHR ''t'' @ Nonce 0 True)] toy_server = [''hi'']"
  by (simp add: ch_Receive_def toy_server_def toy_client_def AesGcmDecrypt_def Gcm_def Let_def
      one_message_def kTagSize_def kNonceSize_def Nonce_inject)

theorem received_messages_are_a_prefix_of_the_sent_witness:
  "\<exists>n. recv_all one_message [FrameTimeout, FrameOk (''hi'' @ replicate 4 CHR ''t'' @ Nonce 0 True),
     FrameOk (''hi'' @ replicate 4 CHR ''t'' @ Nonce 0 True)] toy_server = take n [''hi'']"
proof -
  have "\<forall>n b t p. coOpen one_message (chRecvKey toy_server) n b t = Some p \<longrightarrow>
      (n, p) \<in> set (seal_log one_message [''hi''] toy_client)"
    unfolding one_message_log by (simp add: one_message_def)
  from received_messages_are_a_prefix_of_the_sent [OF this] show ?thesis
    unfolding one_message_log by (simp add: toy_server_def toy_client_def del: recv_all.simps)
qed

section \<open>Delivery\<close>

text \<open>The documented behaviour of AES-GCM on a key and nonce of the right size.\<close>

definition seals :: "crypto_os \<Rightarrow> bool" where
  "seals os \<longleftrightarrow> (\<forall>k n p. length k = 32 \<longrightarrow> length n = kNonceSize \<longrightarrow>
     (\<exists>c t. coSeal os k n p = Some (c, t) \<and> length c = length p \<and> length t = kTagSize \<and> coOpen os k n c t = Some p))"

lemma seals_frame:
  assumes "seals os" and "length (chSendKey ch) = 32" and "chReady ch"
    and "length m + kTagSize \<le> kMaxFrame"
  obtains c where "ch_Send os (\<lambda>_. True) m ch = (True, Some c, ch\<lparr>chSendSeq := chSendSeq ch + 1\<rparr>)"
    and "length c = length m + kTagSize"
    and "AesGcmDecrypt os (chSendKey ch) (Nonce (chSendSeq ch) (chIsClient ch)) c = Some m"
proof -
  obtain c t where c: "coSeal os (chSendKey ch) (Nonce (chSendSeq ch) (chIsClient ch)) m = Some (c, t)"
      "length c = length m" "length t = kTagSize"
      "coOpen os (chSendKey ch) (Nonce (chSendSeq ch) (chIsClient ch)) c t = Some m"
    using assms(1,2) Nonce_length unfolding seals_def by blast
  show thesis
    by (rule that [of "c @ t"])
      (use c assms in \<open>simp_all add: ch_Send_def AesGcmEncrypt_def AesGcmDecrypt_def Gcm_def Let_def\<close>)
qed

lemma sealed_frames_open:
  assumes "seals os" and "length (chSendKey chS) = 32" and "chReady chS" and "chReady chR"
    and "chRecvKey chR = chSendKey chS" and "chIsClient chR = (\<not> chIsClient chS)"
    and "chRecvSeq chR = chSendSeq chS" and "\<forall>m \<in> set ms. length m + kTagSize + 8192 \<le> kMaxFrame"
  shows "\<exists>fs. seal_all os ms chS = map Some fs \<and> length fs = length ms \<and>
    (\<forall>f \<in> set fs. length f + 8192 \<le> kMaxFrame) \<and> recv_all os (map FrameOk fs) chR = ms"
  using assms
proof (induction ms arbitrary: chS chR)
  case (Cons m ms)
  let ?S = "chS\<lparr>chSendSeq := chSendSeq chS + 1\<rparr>" and ?R = "chR\<lparr>chRecvSeq := chRecvSeq chR + 1\<rparr>"
  obtain c where c: "ch_Send os (\<lambda>_. True) m chS = (True, Some c, ?S)" "length c = length m + kTagSize"
      "AesGcmDecrypt os (chSendKey chS) (Nonce (chSendSeq chS) (chIsClient chS)) c = Some m"
    using seals_frame [of os chS m] Cons.prems by auto
  have "\<exists>fs. seal_all os ms ?S = map Some fs \<and> length fs = length ms \<and>
      (\<forall>f \<in> set fs. length f + 8192 \<le> kMaxFrame) \<and> recv_all os (map FrameOk fs) ?R = ms"
    using Cons.prems by (intro Cons.IH) simp_all
  then obtain fs where fs: "seal_all os ms ?S = map Some fs" "length fs = length ms"
      "\<forall>f \<in> set fs. length f + 8192 \<le> kMaxFrame" "recv_all os (map FrameOk fs) ?R = ms" by blast
  have "ch_Receive os (FrameOk c) chR = (RecvMessage m, ?R)"
    using c(3) Cons.prems by (simp add: ch_Receive_def)
  then show ?case using c fs Cons.prems(8) by (intro exI [of _ "c # fs"]) simp
qed simp


lemma toy_seals: "seals toy_crypto"
  by (auto simp: seals_def toy_crypto_def kTagSize_def kNonceSize_def)


section \<open>The loops return\<close>

lemma send_loop_returns:
  "\<forall>r. Some r \<in> set answers \<longrightarrow> 1 \<le> r \<Longrightarrow> length data \<le> length answers \<Longrightarrow>
   \<exists>ok w. send_loop answers data wire = Some (ok, w)"
proof (induction answers data wire rule: send_loop.induct)
  case (4 r answers d ds wire)
  have "1 \<le> r" using 4(2) by simp
  then have "length (drop r (d # ds)) \<le> length answers" using 4(3) by simp
  then have "\<exists>ok w. send_loop answers (drop r (d # ds)) (wire @ take r (d # ds)) = Some (ok, w)"
    using 4 by auto
  then show ?case by simp
qed auto

text \<open>
  \<open>SendFrame\<close> returns: each call of \<open>send\<close> fails or takes at least one byte, so as many calls as
  there are bytes are enough.  An oversize frame is refused with nothing written; otherwise what is
  on the wire is a prefix of the length and the frame, the whole of it exactly when \<open>true\<close> is returned
  unless the failing call came after the last byte, which it cannot.
\<close>

theorem SendFrame_returns:
  assumes "\<forall>r. Some r \<in> set answers \<longrightarrow> 1 \<le> r" and "4 + length frame \<le> length answers"
  shows "\<exists>ok w. SendFrame answers frame = Some (ok, w) \<and>
    (kMaxFrame < length frame \<longrightarrow> \<not> ok \<and> w = []) \<and> (\<exists>k. w = take k (frame_bytes frame)) \<and>
    (ok \<longrightarrow> w = frame_bytes frame) \<and> (None \<notin> set answers \<and> length frame \<le> kMaxFrame \<longrightarrow> ok)"
proof (cases "kMaxFrame < length frame")
  case True
  then show ?thesis by (intro exI [of _ False] exI [of _ "[]"]) (auto simp: SendFrame_def intro: exI [of _ 0])
next
  case False
  obtain ok w where r: "send_loop answers (frame_bytes frame) [] = Some (ok, w)"
    using send_loop_returns [OF assms(1), of "frame_bytes frame" "[]"] assms(2) by auto
  have "ok" if "None \<notin> set answers"
  proof -
    have "\<forall>a \<in> set answers. \<exists>r \<ge> 1. a = Some r"
      using assms(1) that by (metis option.exhaust)
    from send_loop_finishes [OF this, of "frame_bytes frame" "[]"] assms(2) r show ?thesis by simp
  qed
  with r send_loop_prefix [OF r] False show ?thesis by (auto simp: SendFrame_def)
qed

theorem SendFrame_returns_witness:
  "\<exists>ok w. SendFrame [Some 3, Some 2, Some 1, Some 1, Some 1, Some 1] ''ab'' = Some (ok, w) \<and>
    ok \<and> w = frame_bytes ''ab''"
  using SendFrame_returns [of "[Some 3, Some 2, Some 1, Some 1, Some 1, Some 1]" "''ab''"]
  by (auto simp: kMaxFrame_def)

text \<open>
  \<open>ReceiveFrame\<close> reads a bounded number of pieces and keeps a bounded buffer, whatever the peer
  sends: starting from a buffer within its limit, it returns after at most \<open>kMaxFrame + 5\<close> non-empty
  pieces; after a frame or a timeout the buffer is within the limit again, and when the peer is
  refused it exceeds the limit by less than one piece.
\<close>

theorem ReceiveFrame_is_bounded:
  assumes "length rx \<le> kMaxFrame + 4" and "\<forall>b. NetData b \<in> set evs \<longrightarrow> b \<noteq> [] \<and> length b \<le> 8192"
    and "ReceiveFrame evs rx = (r, rx', evs')"
  shows "\<exists>k \<le> kMaxFrame + 5 - length rx. evs' = drop k evs \<and> length rx' \<le> kMaxFrame + 4 + 8192 \<and>
    (r \<noteq> FrameBroken \<longrightarrow> length rx' \<le> kMaxFrame + 4)"
  using assms
proof (induction evs rx rule: ReceiveFrame.induct)
  case (1 evs rx)
  show ?case
  proof (cases "buffered_frame rx")
    case (Some x)
    obtain q y where x: "x = (q, y)" by (cases x)
    then have "length y \<le> length rx" using Some by (auto simp: buffered_frame_def Let_def split: if_splits)
    then show ?thesis using 1(2,4) Some x by (intro exI [of _ 0]) (auto simp: ReceiveFrame.simps [of evs])
  next
    case None
    show ?thesis
    proof (cases evs)
      case Nil
      then show ?thesis using 1(2,4) None by (intro exI [of _ 0]) (auto simp: ReceiveFrame.simps [of "[]"])
    next
      case (Cons e evs1)
      show ?thesis
      proof (cases "\<exists>b. e = NetData b \<and> length (rx @ b) \<le> kMaxFrame + 4")
        case True
        then obtain b where b: "e = NetData b" "length (rx @ b) \<le> kMaxFrame + 4" by blast
        then have "b \<noteq> []" using 1(3) Cons by simp
        then have b1: "1 \<le> length b" by (cases b) auto
        have "ReceiveFrame evs1 (rx @ b) = (r, rx', evs')"
          using 1(4) None Cons b by (simp add: ReceiveFrame.simps [of "NetData b # evs1" rx])
        then obtain k where k: "k \<le> kMaxFrame + 5 - length (rx @ b)" "evs' = drop k evs1"
            "length rx' \<le> kMaxFrame + 4 + 8192" "r \<noteq> FrameBroken \<longrightarrow> length rx' \<le> kMaxFrame + 4"
          using 1(1) [OF None Cons b(1)] b(2) 1(3) Cons by auto
        then show ?thesis using Cons b1 b(2) by (intro exI [of _ "Suc k"]) auto
      next
        case False
        then show ?thesis using 1(2,3,4) None Cons
          by (intro exI [of _ 1]) (auto simp: ReceiveFrame.simps [of "e # evs1"] split: net_event.splits if_splits)
      qed
    qed
  qed
qed

lemma short_frame_run:
  "ReceiveFrame [NetData (be4 1), NetData [CHR 0x61], NetClosed] [] = (FrameOk [CHR 0x61], [], [NetClosed])"
proof -
  have "buffered_frame [] = None" by (simp add: buffered_frame_def)
  moreover have "buffered_frame (be4 1) = None"
    using buffered_frame_incomplete [of "[CHR 0x61]" 4] by (simp add: frame_bytes_def kMaxFrame_def)
  moreover have "buffered_frame (be4 1 @ [CHR 0x61]) = Some (FrameOk [CHR 0x61], [])"
    using buffered_frame_complete [of "[CHR 0x61]" "[]"] by (simp add: frame_bytes_def kMaxFrame_def)
  ultimately show ?thesis
    by (simp add: ReceiveFrame.simps [of "_ # _"] kMaxFrame_def)
qed

theorem ReceiveFrame_is_bounded_witness:
  "\<exists>k \<le> kMaxFrame + 5. [NetClosed] = drop k [NetData (be4 1), NetData [CHR 0x61], NetClosed]"
  using ReceiveFrame_is_bounded [OF _ _ short_frame_run] by (auto simp: be4_def)

end
