(* ===== verification/LogChain.thy ===== *)
theory LogChain
  imports SecureChannel_Facts ActuatorManager
begin

text \<open>
  \<open>src/logging/LogChain.h/.cpp\<close>, \<open>JsonLinesLogger.h/.cpp\<close> and \<open>EventLogWriter.cpp\<close>: the log file
  whose lines carry the hash of the line before, its rotation, its verification (with the
  \<open>verify-log\<close> command of \<open>service/main.cpp\<close>), and the entries of the Windows event log.  A file
  system is a map from paths to contents; what the system answers to one \<open>WriteLine\<close> is a record.
\<close>

section \<open>The chain\<close>

definition newline :: char where "newline = CHR 0x0A"
definition carriage :: char where "carriage = CHR 0x0D"

definition kGenesisHash :: string where "kGenesisHash = replicate 64 CHR ''0''"

definition LineHash :: "crypto_os \<Rightarrow> string \<Rightarrow> string" where
  "LineHash os line = ToHex (Sha256 os line)"

definition ChainLine :: "string \<Rightarrow> string \<Rightarrow> string" where
  "ChainLine line prevHash =
     (if length line < 2 \<or> last line \<noteq> CHR ''}'' then line
      else butlast line @ CHR 0x2C # CHR 0x22 # ''prev_hash'' @ CHR 0x22 # CHR 0x3A # CHR 0x22 #
           prevHash @ [CHR 0x22, CHR ''}''])"

text \<open>The last 64 KiB, without its trailing line ends; the line after the last newline in it.\<close>

definition strip_line_ends :: "string \<Rightarrow> string" where
  "strip_line_ends s = rev (dropWhile (\<lambda>c. c = newline \<or> c = carriage) (rev s))"

definition after_last_newline :: "string \<Rightarrow> string" where
  "after_last_newline s = rev (takeWhile (\<lambda>c. c \<noteq> newline) (rev s))"

definition LastLineHash :: "crypto_os \<Rightarrow> string option \<Rightarrow> string" where
  "LastLineHash os file = (case file of
      None \<Rightarrow> []
    | Some content \<Rightarrow>
        if content = [] then []
        else (let tail = strip_line_ends (drop (length content - 65536) content)
              in if tail = [] then [] else LineHash os (after_last_newline tail)))"

text \<open>\<open>std::getline\<close> until it fails; a last line without a newline counts.\<close>

fun getlines :: "string \<Rightarrow> string list" where
  "getlines [] = []"
| "getlines (c # cs) =
     (if c = newline then [] # getlines cs
      else (case getlines cs of [] \<Rightarrow> [[c]] | l # ls \<Rightarrow> (c # l) # ls))"

record chain_report =
  crLines :: nat
  crChained :: nat
  crUnchained :: nat
  crBrokenLine :: nat
  crMessage :: string

definition report_ok :: "chain_report \<Rightarrow> bool" where
  "report_ok r = (crBrokenLine r = 0)"

definition empty_report :: chain_report where
  "empty_report = \<lparr>crLines = 0, crChained = 0, crUnchained = 0, crBrokenLine = 0, crMessage = []\<rparr>"

definition broken :: "chain_report \<Rightarrow> string \<Rightarrow> chain_report" where
  "broken r m = r\<lparr>crBrokenLine := crLines r, crMessage := m\<rparr>"

text \<open>
  The loop's body on one non-empty line: it returns a broken report or goes on with the variables
  \<open>previous\<close> (if there is one), \<open>seenChained\<close> and the report.
\<close>

type_synonym verify_state = "string option \<times> bool \<times> chain_report"

definition verify_step :: "crypto_os \<Rightarrow> string \<Rightarrow> verify_state \<Rightarrow> string \<Rightarrow> chain_report + verify_state" where
  "verify_step os expected st line =
     (let (previous, seenChained, r) = st; r1 = r\<lparr>crLines := crLines r + 1\<rparr> in
      case coJson os line of
        None \<Rightarrow> Inl (broken r1 ''line is not a JSON object'')
      | Some j \<Rightarrow>
          if \<not> is_object j then Inl (broken r1 ''line is not a JSON object'')
          else
            (case jfind j ''prev_hash'' of
               Some (JStr prev) \<Rightarrow>
                 (let want = (case previous of Some p \<Rightarrow> LineHash os p | None \<Rightarrow> expected) in
                  if want \<noteq> [] \<and> prev \<noteq> want
                  then Inl (broken r1 (if previous \<noteq> None
                    then ''prev_hash does not match the line before it (edited, inserted or removed line)''
                    else ''first line does not link to the end of the older rotated file''))
                  else Inr (Some line, True, r1\<lparr>crChained := crChained r1 + 1\<rparr>))
             | _ \<Rightarrow>
                 if seenChained then Inl (broken r1 ''prev_hash missing after the chain started'')
                 else Inr (Some line, seenChained, r1\<lparr>crUnchained := crUnchained r1 + 1\<rparr>)))"

definition chomp :: "string \<Rightarrow> string" where
  "chomp raw = (if raw \<noteq> [] \<and> last raw = carriage then butlast raw else raw)"

definition finished :: "chain_report \<Rightarrow> chain_report" where
  "finished r = r\<lparr>crMessage := (if crChained r = 0 then ''no chained lines'' else ''chain intact'')\<rparr>"

fun verify_lines :: "crypto_os \<Rightarrow> string \<Rightarrow> verify_state \<Rightarrow> string list \<Rightarrow> chain_report" where
  "verify_lines os expected st [] = finished (snd (snd st))"
| "verify_lines os expected st (raw # ls) =
     (if chomp raw = [] then verify_lines os expected st ls
      else (case verify_step os expected st (chomp raw) of
          Inl r \<Rightarrow> r
        | Inr st' \<Rightarrow> verify_lines os expected st' ls))"

definition VerifyChain :: "crypto_os \<Rightarrow> string \<Rightarrow> string \<Rightarrow> chain_report" where
  "VerifyChain os content expectedFirstPrev =
     verify_lines os expectedFirstPrev (None, False, empty_report) (getlines content)"

section \<open>The logger\<close>

type_synonym fs = "wstring \<Rightarrow> string option"

record json_logger =
  jlPath :: wstring
  jlMaxFileBytes :: nat
  jlMaxRotatedFiles :: int
  jlOpen :: bool
  jlCurrentSize :: nat
  jlLastHash :: string

definition new_logger :: "wstring \<Rightarrow> nat \<Rightarrow> int \<Rightarrow> json_logger" where
  "new_logger path maxFileBytes maxRotatedFiles =
     \<lparr>jlPath = path, jlMaxFileBytes = maxFileBytes, jlMaxRotatedFiles = maxRotatedFiles, jlOpen = False,
      jlCurrentSize = 0, jlLastHash = []\<rparr>"

text \<open>
  The answers during one call: whether the two \<open>CreateFileW\<close> and their \<open>GetFileSizeEx\<close> succeed,
  whether a file can be deleted or moved, and what \<open>WriteFile\<close> returns with the bytes it wrote.
\<close>

record write_env =
  weOpen :: bool
  weSize :: bool
  weReopen :: bool
  weResize :: bool
  weDelete :: "wstring \<Rightarrow> bool"
  weMove :: "wstring \<Rightarrow> bool"
  weWrite :: "nat \<Rightarrow> bool \<times> nat"

definition RotatedName :: "wstring \<Rightarrow> nat \<Rightarrow> wstring" where
  "RotatedName path index = path @ ''.'' @ to_string index"

definition delete_file :: "write_env \<Rightarrow> wstring \<Rightarrow> fs \<Rightarrow> fs" where
  "delete_file env p fs = (if weDelete env p then fs(p := None) else fs)"

definition move_file :: "write_env \<Rightarrow> wstring \<Rightarrow> wstring \<Rightarrow> fs \<Rightarrow> fs" where
  "move_file env from to fs =
     (if fs from = None \<or> \<not> weMove env from then fs else (fs(to := fs from))(from := None))"

definition EnsureOpen :: "crypto_os \<Rightarrow> bool \<Rightarrow> bool \<Rightarrow> json_logger \<Rightarrow> fs \<Rightarrow> bool \<times> json_logger \<times> fs" where
  "EnsureOpen os opened sized lg fs =
     (if jlOpen lg then (True, lg, fs)
      else
        (let h = (if jlLastHash lg = []
                  then (let h0 = LastLineHash os (fs (jlPath lg)) in if h0 = [] then kGenesisHash else h0)
                  else jlLastHash lg);
             lg1 = lg\<lparr>jlLastHash := h\<rparr>
         in if \<not> opened then (False, lg1, fs)
            else
              (let content = (case fs (jlPath lg) of None \<Rightarrow> [] | Some c \<Rightarrow> c)
               in (True, lg1\<lparr>jlOpen := True, jlCurrentSize := (if sized then length content else 0)\<rparr>,
                   fs(jlPath lg := Some content)))))"

text \<open>The loop of \<open>Rotate\<close> runs \<open>i\<close> from \<open>maxRotatedFiles - 1\<close> down to 1.\<close>

fun shift_rotated :: "write_env \<Rightarrow> wstring \<Rightarrow> nat \<Rightarrow> fs \<Rightarrow> fs" where
  "shift_rotated env path 0 fs = fs"
| "shift_rotated env path (Suc i) fs =
     shift_rotated env path i (move_file env (RotatedName path (Suc i)) (RotatedName path (Suc (Suc i))) fs)"

definition Rotate :: "write_env \<Rightarrow> json_logger \<Rightarrow> fs \<Rightarrow> json_logger \<times> fs" where
  "Rotate env lg fs =
     (let lg1 = lg\<lparr>jlOpen := False, jlCurrentSize := 0\<rparr>; path = jlPath lg; n = nat (jlMaxRotatedFiles lg)
      in if jlMaxRotatedFiles lg \<le> 0 then (lg1, delete_file env path fs)
         else (lg1, move_file env path (RotatedName path 1)
                 (shift_rotated env path (n - 1) (delete_file env (RotatedName path n) fs))))"

definition append_data :: "crypto_os \<Rightarrow> write_env \<Rightarrow> string \<Rightarrow> json_logger \<Rightarrow> fs \<Rightarrow> bool \<times> json_logger \<times> fs" where
  "append_data os env chained lg fs =
     (let data = chained @ [newline];
          (ok, written) = weWrite env (length data);
          fs1 = fs(jlPath lg := Some ((case fs (jlPath lg) of None \<Rightarrow> [] | Some c \<Rightarrow> c) @ take written data))
      in if \<not> ok \<or> written \<noteq> length data then (False, lg, fs1)
         else (True, lg\<lparr>jlCurrentSize := jlCurrentSize lg + written, jlLastHash := LineHash os chained\<rparr>, fs1))"

definition WriteLine :: "crypto_os \<Rightarrow> write_env \<Rightarrow> string \<Rightarrow> json_logger \<Rightarrow> fs \<Rightarrow> bool \<times> json_logger \<times> fs" where
  "WriteLine os env line lg fs =
     (let (opened, lg1, fs1) = EnsureOpen os (weOpen env) (weSize env) lg fs in
      if \<not> opened then (False, lg1, fs1)
      else
        (let chained = ChainLine line (jlLastHash lg1); data = chained @ [newline] in
         if 0 < jlCurrentSize lg1 \<and> jlMaxFileBytes lg1 < jlCurrentSize lg1 + length data
         then (let (lg2, fs2) = Rotate env lg1 fs1;
                   (reopened, lg3, fs3) = EnsureOpen os (weReopen env) (weResize env) lg2 fs2
               in if \<not> reopened then (False, lg3, fs3) else append_data os env chained lg3 fs3)
         else append_data os env chained lg1 fs1))"

section \<open>The entries\<close>

text \<open>The library's printer (replacing invalid UTF-8) is \<open>dump\<close>; the clock's text is \<open>now\<close>.\<close>

definition ThresholdName :: "threshold_type \<Rightarrow> string" where
  "ThresholdName t = (case t of ThHigh \<Rightarrow> ''high'' | ThCritical \<Rightarrow> ''critical'' | ThLow \<Rightarrow> ''low'')"

definition StateName :: "process_state \<Rightarrow> string" where
  "StateName s = (case s of StNormal \<Rightarrow> ''normal'' | StThrottled \<Rightarrow> ''throttled'' | StSuspended \<Rightarrow> ''suspended'')"

definition ActionName :: "process_state \<Rightarrow> string" where
  "ActionName s = (case s of StThrottled \<Rightarrow> ''priority_lowered'' | StSuspended \<Rightarrow> ''threads_suspended''
     | StNormal \<Rightarrow> ''recovered'')"

definition jUInt :: "dword \<Rightarrow> json" where "jUInt w = JInt (uint w)"

definition Entry :: "string \<Rightarrow> string \<Rightarrow> (string \<times> json) list" where
  "Entry now logType = [(''log_type'', JStr logType), (''timestamp'', JStr now)]"

definition sample_entry :: "string \<Rightarrow> dword \<Rightarrow> double \<Rightarrow> json" where
  "sample_entry now processId cpuPercent =
     JObj (Entry now ''sample'' @ [(''process_id'', jUInt processId), (''cpu_percent'', JReal cpuPercent)])"

definition threshold_entry :: "string \<Rightarrow> dword \<Rightarrow> threshold_type \<Rightarrow> int \<Rightarrow> double \<Rightarrow> json" where
  "threshold_entry now processId type consecutiveSamples cpuPercent =
     JObj (Entry now ''threshold_event'' @ [(''process_id'', jUInt processId),
       (''threshold'', JStr (ThresholdName type)), (''consecutive_samples'', JInt consecutiveSamples),
       (''cpu_percent'', JReal cpuPercent)])"

definition actuator_entry ::
  "string \<Rightarrow> dword \<Rightarrow> wstring \<Rightarrow> dword \<Rightarrow> process_state \<Rightarrow> process_state \<Rightarrow> double \<Rightarrow> bool \<Rightarrow> string \<Rightarrow> json" where
  "actuator_entry now batchId batchName criticalId from to cpuPercent succeeded trigger =
     JObj (Entry now ''actuator_action'' @ [(''batch_process_id'', jUInt batchId),
       (''batch_process_name'', JStr batchName), (''critical_process_id'', jUInt criticalId),
       (''action'', JStr (ActionName to)), (''from_state'', JStr (StateName from)),
       (''to_state'', JStr (StateName to)), (''cpu_percent'', JReal cpuPercent),
       (''actuation_succeeded'', JBool succeeded), (''trigger'', JStr trigger)])"

fun add_fields :: "(string \<times> json) list \<Rightarrow> (string \<times> json) list \<Rightarrow> (string \<times> json) list" where
  "add_fields j [] = j"
| "add_fields j (f # fs) =
     add_fields (if fst f \<noteq> ''log_type'' \<and> fst f \<noteq> ''timestamp'' then amap_put (fst f) (snd f) j else j) fs"

definition event_entry :: "string \<Rightarrow> string \<Rightarrow> (string \<times> json) list \<Rightarrow> json" where
  "event_entry now logType flds = JObj (add_fields (Entry now logType) flds)"

definition LogSample where
  "LogSample os env dump now pid cpu lg fs = WriteLine os env (dump (sample_entry now pid cpu)) lg fs"

definition LogThresholdEvent where
  "LogThresholdEvent os env dump now pid ty n cpu lg fs =
     WriteLine os env (dump (threshold_entry now pid ty n cpu)) lg fs"

definition LogActuatorAction where
  "LogActuatorAction os env dump now bid bname cid from to cpu ok trigger lg fs =
     WriteLine os env (dump (actuator_entry now bid bname cid from to cpu ok trigger)) lg fs"

definition LogEvent where
  "LogEvent os env dump now logType flds lg fs = WriteLine os env (dump (event_entry now logType flds)) lg fs"

section \<open>The Windows event log\<close>

definition EventIdFor :: "process_state \<Rightarrow> nat" where
  "EventIdFor to = (case to of StThrottled \<Rightarrow> 1000 | StSuspended \<Rightarrow> 1001 | StNormal \<Rightarrow> 1002)"

datatype event_type = EvError | EvWarning | EvInformation

text \<open>\<open>fmt1\<close> is the \<open>%.1f\<close> of \<open>swprintf\<close>; \<open>None\<close> when the source could not be registered.\<close>

definition ReportActuatorAction ::
  "bool \<Rightarrow> (double \<Rightarrow> wstring) \<Rightarrow> dword \<Rightarrow> wstring \<Rightarrow> dword \<Rightarrow> process_state \<Rightarrow> process_state \<Rightarrow> double \<Rightarrow> bool
     \<Rightarrow> (event_type \<times> nat \<times> wstring) option" where
  "ReportActuatorAction source fmt1 batchId batchName criticalId from to cpuPercent succeeded =
     (if \<not> source then None
      else
        (let details = '' (PID '' @ to_string (unat batchId) @ ''): '' @ StateName from @ '' -> '' @ StateName to @
               '' ('' @ ActionName to @ ''). Critical process PID '' @ to_string (unat criticalId) @ '' at '' @
               fmt1 cpuPercent @ ''% CPU.'';
             message = batchName @ details @
               (if succeeded then [] else '' The OS call did not fully take effect.'')
         in Some (if to = StSuspended \<or> \<not> succeeded then EvWarning else EvInformation, EventIdFor to, message)))"

text \<open>A message of the daemon's own, with its type and number.\<close>

definition ReportMessage :: "bool \<Rightarrow> event_type \<Rightarrow> nat \<Rightarrow> wstring \<Rightarrow> (event_type \<times> nat \<times> wstring) option" where
  "ReportMessage source type eventId message = (if \<not> source then None else Some (type, eventId, message))"

section \<open>The verify-log command\<close>

text \<open>Oldest rotated file first; each report is kept with its file.\<close>

definition log_files :: "fs \<Rightarrow> wstring \<Rightarrow> wstring list" where
  "log_files fs lp =
     filter (\<lambda>f. fs f \<noteq> None) (map (RotatedName lp) (rev [1..<100])) @ (if fs lp \<noteq> None then [lp] else [])"

fun verify_files :: "crypto_os \<Rightarrow> fs \<Rightarrow> string \<Rightarrow> wstring list \<Rightarrow> (wstring \<times> chain_report) list" where
  "verify_files os fs expected [] = []"
| "verify_files os fs expected (f # rest) =
     (f, VerifyChain os (case fs f of None \<Rightarrow> [] | Some c \<Rightarrow> c) expected) #
     verify_files os fs (LastLineHash os (fs f)) rest"

text \<open>The exit code with the reports printed.\<close>

definition VerifyLog :: "crypto_os \<Rightarrow> fs \<Rightarrow> wstring \<Rightarrow> nat \<times> (wstring \<times> chain_report) list" where
  "VerifyLog os fs lp =
     (let files = log_files fs lp; reports = verify_files os fs [] files
      in if files = [] then (2, []) else (if \<forall>r \<in> set reports. report_ok (snd r) then 0 else 3, reports))"

end
