(* ===== verification/LogChain_Facts.thy ===== *)
theory LogChain_Facts
  imports LogChain "HOL-Library.Sublist"
begin

text \<open>
  Facts on the log: what verification accepts, what the last line's hash is, how rotation moves the
  files, and the invariant of the files a logger writes.
\<close>

section \<open>Lines\<close>

definition unlines :: "string list \<Rightarrow> string" where
  "unlines ls = concat (map (\<lambda>l. l @ [newline]) ls)"

lemma unlines_simps [simp]:
  "unlines [] = []" "unlines (l # ls) = l @ newline # unlines ls" "unlines (ls @ ms) = unlines ls @ unlines ms"
  by (simp_all add: unlines_def)

lemma getlines_line: "newline \<notin> set l \<Longrightarrow> getlines (l @ newline # s) = l # getlines s"
  by (induction l) auto

lemma getlines_unlines: "\<forall>l \<in> set ls. newline \<notin> set l \<Longrightarrow> getlines (unlines ls) = ls"
  by (induction ls) (auto simp: getlines_line)

text \<open>A line of the log as the logger writes it: an object linked to \<open>prev\<close>.\<close>

definition line_link :: "crypto_os \<Rightarrow> string \<Rightarrow> string \<Rightarrow> bool" where
  "line_link os l prev \<longleftrightarrow> (\<exists>m. coJson os l = Some (JObj m) \<and> map_of m ''prev_hash'' = Some (JStr prev))"

definition line_shape :: "string \<Rightarrow> bool" where
  "line_shape l \<longleftrightarrow> l \<noteq> [] \<and> newline \<notin> set l \<and> last l \<noteq> carriage \<and> length l < 65536"

fun linked :: "crypto_os \<Rightarrow> string \<Rightarrow> string list \<Rightarrow> bool" where
  "linked os h [] = True"
| "linked os h (l # ls) = (line_link os l h \<and> linked os (LineHash os l) ls)"

definition end_hash :: "crypto_os \<Rightarrow> string \<Rightarrow> string list \<Rightarrow> string" where
  "end_hash os h ls = (if ls = [] then h else LineHash os (last ls))"

lemma linked_append: "linked os h (ls @ ms) \<longleftrightarrow> linked os h ls \<and> linked os (end_hash os h ls) ms"
  by (induction ls arbitrary: h) (auto simp: end_hash_def)

lemma end_hash_append: "end_hash os h (ls @ ms) = end_hash os (end_hash os h ls) ms"
  by (simp add: end_hash_def)

lemma verify_step_linked:
  assumes "line_link os l h" and "case previous of Some p \<Rightarrow> LineHash os p = h | None \<Rightarrow> ex = h \<or> ex = []"
  shows "verify_step os ex (previous, seen, r) l =
    Inr (Some l, True, r\<lparr>crLines := crLines r + 1, crChained := crChained r + 1\<rparr>)"
  using assms by (auto simp: verify_step_def line_link_def Let_def split: option.splits)

lemma chomp_line: "line_shape l \<Longrightarrow> chomp l = l"
  by (simp add: chomp_def line_shape_def)

lemma verify_lines_linked:
  assumes "\<forall>l \<in> set ls. line_shape l" and "linked os h ls" and "crBrokenLine r = 0"
    and "case previous of Some p \<Rightarrow> LineHash os p = h | None \<Rightarrow> ex = h \<or> ex = []"
  shows "report_ok (verify_lines os ex (previous, seen, r) ls)"
  using assms
proof (induction ls arbitrary: h previous seen r)
  case Nil
  then show ?case by (simp add: report_ok_def finished_def)
next
  case (Cons l ls)
  then have "l \<noteq> []" "chomp l = l" by (simp_all add: line_shape_def chomp_line)
  moreover have "verify_step os ex (previous, seen, r) l =
      Inr (Some l, True, r\<lparr>crLines := crLines r + 1, crChained := crChained r + 1\<rparr>)"
    using Cons.prems by (intro verify_step_linked) simp_all
  moreover have "report_ok (verify_lines os ex (Some l, True, r\<lparr>crLines := crLines r + 1, crChained := crChained r + 1\<rparr>) ls)"
    using Cons.prems by (intro Cons.IH [where h = "LineHash os l"]) auto
  ultimately show ?case by simp
qed

lemma dropWhile_line_end:
  "line_shape l \<Longrightarrow> strip_line_ends (s @ l @ [newline]) = s @ l"
  unfolding line_shape_def strip_line_ends_def
  by (cases l rule: rev_cases) (auto simp: newline_def)

lemma takeWhile_newline: "newline \<notin> set l \<Longrightarrow> takeWhile (\<lambda>c. c \<noteq> newline) (l @ newline # s) = l"
  by (induction l) auto

lemma after_last_newline_line: "newline \<notin> set l \<Longrightarrow> after_last_newline (s @ newline # l) = l"
  "newline \<notin> set l \<Longrightarrow> after_last_newline l = l"
  using takeWhile_newline [of "rev l" "rev s"]
  by (simp add: after_last_newline_def, subst after_last_newline_def, subst takeWhile_eq_all_conv [THEN iffD2]) auto

lemma LastLineHash_unlines:
  assumes "line_shape l" and "\<forall>k \<in> set ls. newline \<notin> set k"
  shows "LastLineHash os (Some (unlines (ls @ [l]))) = LineHash os l"
proof -
  let ?c = "unlines (ls @ [l])"
  let ?s = "drop (length ?c - 65536) (unlines ls)"
  have c: "?c = unlines ls @ l @ [newline]" by simp
  have "length ?c - 65536 \<le> length (unlines ls)" using assms(1) by (auto simp: line_shape_def)
  then have tail: "drop (length ?c - 65536) ?c = ?s @ l @ [newline]" unfolding c by simp
  have "after_last_newline (?s @ l) = l"
  proof (cases "?s = []")
    case True
    then show ?thesis using assms(1) after_last_newline_line(2) by (simp add: line_shape_def)
  next
    case False
    then obtain ks k where ks: "ls = ks @ [k]" by (cases ls rule: rev_cases) auto
    have "last (unlines ls) = newline" unfolding ks by simp
    then have "last ?s = newline" using False by (simp add: last_drop)
    then obtain s0 where "?s = s0 @ [newline]" using False by (metis append_butlast_last_id)
    then show ?thesis using assms(1) after_last_newline_line(1) by (simp add: line_shape_def)
  qed
  moreover have "l \<noteq> []" using assms(1) by (simp add: line_shape_def)
  ultimately show ?thesis
    using dropWhile_line_end [OF assms(1), of ?s] unfolding LastLineHash_def
    by (simp only: option.case tail) (simp add: Let_def)
qed

section \<open>Names\<close>

lemma RotatedName_inject [simp]: "RotatedName p i = RotatedName p j \<longleftrightarrow> i = j"
  by (simp add: RotatedName_def to_string_inject)

lemma RotatedName_not_path [simp]: "RotatedName p i \<noteq> p" "p \<noteq> RotatedName p i"
  by (simp_all add: RotatedName_def)

definition slot :: "fs \<Rightarrow> wstring \<Rightarrow> nat \<Rightarrow> string option" where
  "slot fs p i = fs (RotatedName p i)"

text \<open>Contiguous rotated files move up by one, the newest first slot becomes free.\<close>

lemma shift_rotated_slots:
  assumes "\<forall>f. weMove env f" and "\<forall>i \<ge> 1. i \<le> k \<longrightarrow> slot fs p i = None \<longrightarrow> slot fs p (Suc i) = None"
    and "slot fs p (Suc k) = None"
  shows "slot (shift_rotated env p k fs) p i =
      (if 1 \<le> i \<and> i \<le> Suc k then (if i = 1 then None else slot fs p (i - 1)) else slot fs p i)"
  using assms(2,3)
proof (induction k arbitrary: fs)
  case 0
  then show ?case by (auto simp: le_Suc_eq)
next
  case (Suc k)
  let ?fs = "move_file env (RotatedName p (Suc k)) (RotatedName p (Suc (Suc k))) fs"
  have at: "slot ?fs p j = (if j = Suc k then None else if j = Suc (Suc k) then slot fs p (Suc k) else slot fs p j)" for j
    using assms(1) Suc.prems(2) by (auto simp: move_file_def slot_def)
  have "slot (shift_rotated env p k ?fs) p i =
      (if 1 \<le> i \<and> i \<le> Suc k then (if i = 1 then None else slot ?fs p (i - 1)) else slot ?fs p i)"
    using Suc.prems(1) by (intro Suc.IH) (simp_all add: at)
  then show ?case unfolding at by auto
qed

lemma shift_rotated_other:
  "\<forall>j. f \<noteq> RotatedName p j \<Longrightarrow> shift_rotated env p k fs f = fs f"
  by (induction k arbitrary: fs) (auto simp: move_file_def)

section \<open>The files of a log\<close>

text \<open>
  \<open>log_files_are fs p segs\<close>: the lines of the log file are the first segment, those of the rotated
  files the following ones, and there are no other rotated files.
\<close>

definition log_files_are :: "fs \<Rightarrow> wstring \<Rightarrow> string list list \<Rightarrow> bool" where
  "log_files_are fs p segs \<longleftrightarrow> segs \<noteq> [] \<and> fs p = Some (unlines (hd segs)) \<and>
     (\<forall>i \<ge> 1. slot fs p i = (if i < length segs then Some (unlines (segs ! i)) else None))"

definition log_lines :: "string list list \<Rightarrow> string list" where
  "log_lines segs = concat (rev segs)"

definition log_ok :: "crypto_os \<Rightarrow> nat \<Rightarrow> string \<Rightarrow> string list list \<Rightarrow> bool" where
  "log_ok os B h segs \<longleftrightarrow> (\<forall>s \<in> set segs. (\<forall>l \<in> set s. line_shape l) \<and> length (unlines s) \<le> B) \<and>
     (\<forall>s \<in> set (tl segs). s \<noteq> []) \<and> linked os h (log_lines segs)"

definition hash_text :: "string \<Rightarrow> bool" where
  "hash_text h \<longleftrightarrow> length h = 64 \<and> set h \<subseteq> set hex_digits"

definition hash_works :: "crypto_os \<Rightarrow> bool" where
  "hash_works os \<longleftrightarrow> (\<forall>d. length (Sha256 os d) = 32)"

text \<open>
  A serialised object the logger can write: printed without line ends, shorter than the tail that is
  read back, and parsed again with the link that was appended.
\<close>

definition loggable :: "crypto_os \<Rightarrow> nat \<Rightarrow> string \<Rightarrow> bool" where
  "loggable os B line \<longleftrightarrow> 2 \<le> length line \<and> last line = CHR ''}'' \<and> newline \<notin> set line \<and>
     length line + 80 < 65536 \<and> length line + 80 \<le> B \<and>
     (\<forall>h. hash_text h \<longrightarrow> line_link os (ChainLine line h) h)"

definition log_inv :: "crypto_os \<Rightarrow> nat \<Rightarrow> json_logger \<Rightarrow> fs \<Rightarrow> string \<Rightarrow> string list list \<Rightarrow> bool" where
  "log_inv os B lg fs h segs \<longleftrightarrow> jlOpen lg \<and> jlMaxFileBytes lg \<le> B \<and> log_files_are fs (jlPath lg) segs \<and>
     log_ok os B h segs \<and> length segs \<le> Suc (nat (jlMaxRotatedFiles lg)) \<and>
     jlLastHash lg = end_hash os h (log_lines segs) \<and> hash_text (jlLastHash lg) \<and> jlCurrentSize lg = length (unlines (hd segs))"

text \<open>A system that grants every request.\<close>

definition granting :: "write_env \<Rightarrow> bool" where
  "granting env \<longleftrightarrow> weOpen env \<and> weSize env \<and> weReopen env \<and> weResize env \<and> (\<forall>f. weDelete env f) \<and>
     (\<forall>f. weMove env f) \<and> (\<forall>n. weWrite env n = (True, n))"

lemma rotate_files:
  assumes "log_files_are fs p (s # segs)" and "granting env" and "jlPath lg = p" and "0 < jlMaxRotatedFiles lg"
    and "length (s # segs) \<le> Suc (nat (jlMaxRotatedFiles lg))"
  shows "snd (Rotate env lg fs) p = None \<and>
    (\<forall>i \<ge> 1. slot (snd (Rotate env lg fs)) p i =
       (let segs' = [] # s # take (nat (jlMaxRotatedFiles lg) - 1) segs in
        if i < length segs' then Some (unlines (segs' ! i)) else None))"
proof -
  define n where "n = nat (jlMaxRotatedFiles lg)"
  have n: "1 \<le> n" "length segs \<le> n" using assms(4,5) by (auto simp: n_def)
  let ?d = "delete_file env (RotatedName p n) fs"
  let ?m = "shift_rotated env p (n - 1) ?d"
  have d: "slot ?d p i = (if i = n then None else slot fs p i)" for i
    using assms(2) by (auto simp: delete_file_def slot_def granting_def)
  have fs: "slot fs p i = (if i < Suc (length segs) then Some (unlines ((s # segs) ! i)) else None)" if "1 \<le> i" for i
    using assms(1) that by (simp add: log_files_are_def)
  have m: "slot ?m p i = (if 1 \<le> i \<and> i \<le> Suc (n - 1) then (if i = 1 then None else slot ?d p (i - 1)) else slot ?d p i)" for i
    using assms(2) n by (intro shift_rotated_slots) (auto simp: d fs granting_def)
  have mp: "?m p = Some (unlines s)"
  proof -
    have "?m p = ?d p" by (rule shift_rotated_other) simp
    then show ?thesis using assms(1) by (simp add: delete_file_def log_files_are_def)
  qed
  have R: "snd (Rotate env lg fs) = move_file env p (RotatedName p 1) ?m"
    using assms(3,4) by (simp add: Rotate_def Let_def n_def)
  have r: "slot (snd (Rotate env lg fs)) p i = (if i = 1 then Some (unlines s) else slot ?m p i)" for i
    using mp assms(2) unfolding R by (auto simp: move_file_def slot_def granting_def)
  have "slot (snd (Rotate env lg fs)) p i = (let segs' = [] # s # take (n - 1) segs in
        if i < length segs' then Some (unlines (segs' ! i)) else None)" if i: "1 \<le> i" for i
  proof (cases "i = 1")
    case False
    then obtain j where j: "i = Suc (Suc j)" using i by (metis One_nat_def not_less_eq_eq old.nat.exhaust le_zero_eq)
    show ?thesis
      using n unfolding r m d Let_def j by (auto simp: fs)
  qed (simp add: r)
  then show ?thesis using mp assms(2) unfolding n_def [symmetric] R
    by (auto simp: move_file_def granting_def)
qed

section \<open>Writing\<close>

lemma hash_text_LineHash: "hash_works os \<Longrightarrow> hash_text (LineHash os l)"
proof -
  have "set (ToHex b) \<subseteq> set hex_digits" for b
  proof (induction b)
    case (Cons c cs)
    have "byte c div 16 < length hex_digits" "byte c mod 16 < length hex_digits"
      using byte_less [of c] by (simp_all add: hex_digits_def)
    then show ?case using Cons by (simp add: nth_mem)
  qed simp
  then show "hash_works os \<Longrightarrow> hash_text (LineHash os l)"
    by (simp add: hash_text_def hash_works_def LineHash_def length_ToHex)
qed

lemma hash_text_genesis: "hash_text kGenesisHash"
  by (simp add: hash_text_def kGenesisHash_def hex_digits_def)

lemma hash_text_nonempty: "hash_text h \<Longrightarrow> h \<noteq> []"
  by (auto simp: hash_text_def)

lemma ChainLine_shape:
  assumes "loggable os B line" and "hash_text h"
  shows "line_shape (ChainLine line h)" and "line_link os (ChainLine line h) h"
    and "length (ChainLine line h) + 1 \<le> B"
proof -
  have c: "ChainLine line h = butlast line @ CHR 0x2C # CHR 0x22 # ''prev_hash'' @ CHR 0x22 # CHR 0x3A # CHR 0x22 #
      h @ [CHR 0x22, CHR ''}'']"
    using assms(1) by (simp add: ChainLine_def loggable_def)
  have n: "newline \<notin> set h" using assms(2) by (auto simp: hash_text_def hex_digits_def newline_def)
  have nb: "newline \<notin> set (butlast line)" using assms(1) by (meson in_set_butlastD loggable_def)
  have len: "length (ChainLine line h) + 1 = length line + 80"
    using assms unfolding c loggable_def hash_text_def by simp
  have "newline \<notin> set (ChainLine line h)" using n nb unfolding c by (simp add: newline_def)
  moreover have "last (ChainLine line h) = CHR ''}''" "ChainLine line h \<noteq> []" unfolding c by simp_all
  ultimately show "line_shape (ChainLine line h)"
    using len assms(1) by (simp add: line_shape_def loggable_def carriage_def)
  show "line_link os (ChainLine line h) h" using assms by (simp add: loggable_def)
  show "length (ChainLine line h) + 1 \<le> B" using len assms(1) by (simp add: loggable_def)
qed

lemma append_data_granted:
  assumes "granting env" and "fs (jlPath lg) = Some (unlines s)"
  shows "append_data os env c lg fs =
    (True, lg\<lparr>jlCurrentSize := jlCurrentSize lg + length c + 1, jlLastHash := LineHash os c\<rparr>,
     fs(jlPath lg := Some (unlines (s @ [c]))))"
  using assms by (simp add: append_data_def granting_def Let_def)

lemma log_files_are_put:
  "log_files_are fs p (s # segs) \<Longrightarrow> log_files_are (fs(p := Some (unlines s'))) p (s' # segs)"
  by (simp add: log_files_are_def slot_def nth_Cons')

text \<open>What one granted write leaves: the old lines but the oldest file's, and the new line.\<close>

definition extends_log :: "string list list \<Rightarrow> string \<Rightarrow> string list list \<Rightarrow> bool" where
  "extends_log segs c segs' \<longleftrightarrow> segs' \<noteq> [] \<and> hd segs' \<noteq> [] \<and> last (hd segs') = c \<and>
     (\<exists>dropped. log_lines segs @ [c] = dropped @ log_lines segs')"

lemma end_hash_last: "log_lines (s # segs) = log_lines segs @ s"
  by (simp add: log_lines_def)

lemma write_in_place:
  assumes inv: "log_inv os B lg fs h (s # segs)" and "granting env" and "loggable os B line" and "hash_works os"
    and fits: "jlCurrentSize lg = 0 \<or> jlCurrentSize lg + length (ChainLine line (jlLastHash lg) @ [newline]) \<le> jlMaxFileBytes lg"
  defines "c \<equiv> ChainLine line (jlLastHash lg)"
  shows "\<exists>lg' fs'. append_data os env c lg fs = (True, lg', fs') \<and> log_inv os B lg' fs' h ((s @ [c]) # segs) \<and>
    jlPath lg' = jlPath lg \<and> jlMaxFileBytes lg' = jlMaxFileBytes lg \<and> jlMaxRotatedFiles lg' = jlMaxRotatedFiles lg"
proof -
  have files: "log_files_are fs (jlPath lg) (s # segs)" and ok: "log_ok os B h (s # segs)"
    and lh: "jlLastHash lg = end_hash os h (log_lines (s # segs))" and ht: "hash_text (jlLastHash lg)"
    and sz: "jlCurrentSize lg = length (unlines s)" and op: "jlOpen lg" and mx: "jlMaxFileBytes lg \<le> B"
    and ls: "length (s # segs) \<le> Suc (nat (jlMaxRotatedFiles lg))"
    using inv by (auto simp: log_inv_def)
  note c = ChainLine_shape [OF assms(3) ht, folded c_def]
  have "length (unlines (s @ [c])) \<le> B"
    using fits c(3) sz mx by (auto simp: c_def)
  moreover have "linked os h (log_lines ((s @ [c]) # segs))"
    using ok c(2) unfolding log_ok_def end_hash_last append_assoc [symmetric]
    by (simp add: linked_append lh end_hash_last end_hash_append)
  ultimately have ok': "log_ok os B h ((s @ [c]) # segs)" using ok c(1) by (auto simp: log_ok_def)
  have p: "fs (jlPath lg) = Some (unlines s)" using files by (simp add: log_files_are_def)
  have "end_hash os h (log_lines ((s @ [c]) # segs)) = LineHash os c"
    by (simp add: end_hash_def end_hash_last)
  then show ?thesis
    unfolding append_data_granted [of env fs lg s os c, OF assms(2) p]
    using log_files_are_put [OF files, of "s @ [c]"] ok' op mx ls sz hash_text_LineHash [OF assms(4)]
    by (simp add: log_inv_def)
qed

lemma rotated_log:
  assumes inv: "log_inv os B lg fs h (s # segs)" and "granting env" and "s \<noteq> []"
  shows "\<exists>lg' fs' h' segs'. Rotate env lg fs = (lg', fs') \<and> \<not> jlOpen lg' \<and>
    log_inv os B (lg'\<lparr>jlOpen := True, jlCurrentSize := 0\<rparr>) (fs'(jlPath lg := Some [])) h' ([] # segs') \<and>
    fs' (jlPath lg) = None \<and> jlPath lg' = jlPath lg \<and> jlMaxFileBytes lg' = jlMaxFileBytes lg \<and>
    jlMaxRotatedFiles lg' = jlMaxRotatedFiles lg \<and> jlLastHash lg' = jlLastHash lg \<and>
    (\<exists>dropped. log_lines (s # segs) = dropped @ log_lines ([] # segs'))"
proof -
  have files: "log_files_are fs (jlPath lg) (s # segs)" and ok: "log_ok os B h (s # segs)"
    and lh: "jlLastHash lg = end_hash os h (log_lines (s # segs))" and ht: "hash_text (jlLastHash lg)"
    and op: "jlOpen lg" and mx: "jlMaxFileBytes lg \<le> B"
    and ls: "length (s # segs) \<le> Suc (nat (jlMaxRotatedFiles lg))"
    using inv by (auto simp: log_inv_def)
  have lg': "fst (Rotate env lg fs) = lg\<lparr>jlOpen := False, jlCurrentSize := 0\<rparr>"
    by (simp add: Rotate_def Let_def)
  show ?thesis
  proof (cases "0 < jlMaxRotatedFiles lg")
    case False
    then have segs: "segs = []" using ls by simp
    have fs': "snd (Rotate env lg fs) = fs(jlPath lg := None)"
      using False assms(2) by (simp add: Rotate_def Let_def delete_file_def granting_def)
    have "log_files_are (fs(jlPath lg := Some [])) (jlPath lg) ([] # segs)"
      using log_files_are_put [OF files, of "[]"] by simp
    moreover have "log_ok os B (jlLastHash lg) ([] # segs)"
      by (simp add: segs log_ok_def log_lines_def)
    ultimately show ?thesis
      using lg' fs' mx ls ht segs
      by (intro exI [of _ "fst (Rotate env lg fs)"] exI [of _ "snd (Rotate env lg fs)"] exI [of _ "jlLastHash lg"]
          exI [of _ segs]) (simp add: log_inv_def log_lines_def end_hash_def prod_eq_iff)
  next
    case True
    define keep where "keep = take (nat (jlMaxRotatedFiles lg) - 1) segs"
    obtain lost where lost: "segs = keep @ lost" unfolding keep_def by (metis append_take_drop_id)
    have R: "snd (Rotate env lg fs) (jlPath lg) = None"
        "\<forall>i \<ge> 1. slot (snd (Rotate env lg fs)) (jlPath lg) i =
          (let segs' = [] # s # keep in if i < length segs' then Some (unlines (segs' ! i)) else None)"
      using rotate_files [OF files assms(2) refl True ls] unfolding keep_def by blast+
    have files': "log_files_are ((snd (Rotate env lg fs))(jlPath lg := Some [])) (jlPath lg) ([] # s # keep)"
      using R(2) by (simp add: log_files_are_def slot_def Let_def)
    have lines: "log_lines (s # segs) = log_lines lost @ log_lines ([] # s # keep)"
      by (simp add: log_lines_def lost)
    have "linked os (end_hash os h (log_lines lost)) (log_lines ([] # s # keep))"
      using ok unfolding log_ok_def lines by (simp add: linked_append)
    then have ok': "log_ok os B (end_hash os h (log_lines lost)) ([] # s # keep)"
      using ok assms(3) unfolding log_ok_def lost by auto
    have "length ([] # s # keep) \<le> Suc (nat (jlMaxRotatedFiles lg))"
      using True by (simp add: keep_def)
    then show ?thesis
      using lg' R(1) files' ok' mx ht lines
      by (intro exI [of _ "fst (Rotate env lg fs)"] exI [of _ "snd (Rotate env lg fs)"]
          exI [of _ "end_hash os h (log_lines lost)"] exI [of _ "s # keep"])
        (auto simp: log_inv_def lh end_hash_append prod_eq_iff)
  qed
qed

lemma EnsureOpen_open: "jlOpen lg \<Longrightarrow> EnsureOpen os a b lg fs = (True, lg, fs)"
  by (simp add: EnsureOpen_def)

text \<open>Every granted write succeeds, keeps the invariant and adds its line at the end.\<close>

lemma WriteLine_inv:
  assumes inv: "log_inv os B lg fs h segs" and env: "granting env" and line: "loggable os B line"
    and hw: "hash_works os"
  shows "\<exists>lg' fs' h' segs'. WriteLine os env line lg fs = (True, lg', fs') \<and> log_inv os B lg' fs' h' segs' \<and>
    extends_log segs (ChainLine line (jlLastHash lg)) segs' \<and> jlPath lg' = jlPath lg \<and>
    jlMaxFileBytes lg' = jlMaxFileBytes lg \<and> jlMaxRotatedFiles lg' = jlMaxRotatedFiles lg"
proof -
  let ?c = "ChainLine line (jlLastHash lg)"
  obtain s rest where segs: "segs = s # rest" using inv by (cases segs) (auto simp: log_inv_def log_files_are_def)
  have op: "jlOpen lg" and sz: "jlCurrentSize lg = length (unlines s)" using inv segs by (auto simp: log_inv_def)
  show ?thesis
  proof (cases "0 < jlCurrentSize lg \<and> jlMaxFileBytes lg < jlCurrentSize lg + length (?c @ [newline])")
    case False
    then have W: "WriteLine os env line lg fs = append_data os env ?c lg fs"
      by (auto simp: WriteLine_def EnsureOpen_open op Let_def)
    have fits: "jlCurrentSize lg = 0 \<or> jlCurrentSize lg + length (?c @ [newline]) \<le> jlMaxFileBytes lg"
      using False by auto
    have ext: "extends_log segs ?c ((s @ [?c]) # rest)"
      unfolding extends_log_def segs by (simp add: log_lines_def)
    from write_in_place [OF inv [unfolded segs] env line hw fits] ext show ?thesis
      unfolding W by blast
  next
    case True
    then have "s \<noteq> []" using sz by auto
    from rotated_log [OF inv [unfolded segs] env this] obtain lg2 fs2 h' segs' dropped where
      R: "Rotate env lg fs = (lg2, fs2)" "\<not> jlOpen lg2"
        "log_inv os B (lg2\<lparr>jlOpen := True, jlCurrentSize := 0\<rparr>) (fs2(jlPath lg := Some [])) h' ([] # segs')"
        "fs2 (jlPath lg) = None" "jlPath lg2 = jlPath lg" "jlMaxFileBytes lg2 = jlMaxFileBytes lg"
        "jlMaxRotatedFiles lg2 = jlMaxRotatedFiles lg" "jlLastHash lg2 = jlLastHash lg"
        "log_lines (s # rest) = dropped @ log_lines ([] # segs')" by blast
    let ?lg3 = "lg2\<lparr>jlOpen := True, jlCurrentSize := 0\<rparr>"
    have "jlLastHash lg \<noteq> []" using inv hash_text_nonempty unfolding log_inv_def by blast
    then have "EnsureOpen os (weReopen env) (weResize env) lg2 fs2 = (True, ?lg3, fs2(jlPath lg := Some []))"
      using R env by (simp add: EnsureOpen_def Let_def granting_def)
    then have W: "WriteLine os env line lg fs = append_data os env ?c ?lg3 (fs2(jlPath lg := Some []))"
      using True R(1) by (simp add: WriteLine_def EnsureOpen_open op Let_def)
    have z: "jlCurrentSize ?lg3 = 0 \<or>
        jlCurrentSize ?lg3 + length (ChainLine line (jlLastHash ?lg3) @ [newline]) \<le> jlMaxFileBytes ?lg3" by simp
    have "\<exists>d. log_lines (s # rest) @ [?c] = d @ log_lines (([] @ [?c]) # segs')"
      using R(9) by (auto simp: log_lines_def)
    then have "extends_log segs ?c (([] @ [?c]) # segs')" unfolding extends_log_def segs by simp
    with write_in_place [OF R(3) env line hw z] R(5-8) show ?thesis unfolding W by auto
  qed
qed

section \<open>Opening\<close>

text \<open>A closed logger over no files, or over a log that a previous run left.\<close>

lemma EnsureOpen_inv:
  assumes "jlLastHash lg = []" and "\<not> jlOpen lg" and "jlMaxFileBytes lg \<le> B" and "hash_works os"
    and "segs = [] \<and> fs (jlPath lg) = None \<and> (\<forall>i \<ge> 1. slot fs (jlPath lg) i = None) \<or>
      log_files_are fs (jlPath lg) segs \<and> log_ok os B h segs \<and> hd segs \<noteq> [] \<and>
      length segs \<le> Suc (nat (jlMaxRotatedFiles lg))"
  shows "\<exists>lg1 fs1 h' segs'. EnsureOpen os True True lg fs = (True, lg1, fs1) \<and> log_inv os B lg1 fs1 h' segs' \<and>
    log_lines segs' = log_lines segs \<and> jlPath lg1 = jlPath lg \<and> jlMaxFileBytes lg1 = jlMaxFileBytes lg \<and>
    jlMaxRotatedFiles lg1 = jlMaxRotatedFiles lg"
  using assms(5)
proof
  assume new: "segs = [] \<and> fs (jlPath lg) = None \<and> (\<forall>i \<ge> 1. slot fs (jlPath lg) i = None)"
  let ?lg1 = "lg\<lparr>jlLastHash := kGenesisHash, jlOpen := True, jlCurrentSize := 0\<rparr>"
  have "EnsureOpen os True True lg fs = (True, ?lg1, fs(jlPath lg := Some []))"
    using new assms(1,2) by (simp add: EnsureOpen_def Let_def LastLineHash_def)
  moreover have "log_inv os B ?lg1 (fs(jlPath lg := Some [])) kGenesisHash [[]]"
    using new assms(3) by (auto simp: log_inv_def log_files_are_def log_ok_def log_lines_def end_hash_def
        hash_text_genesis slot_def)
  ultimately show ?thesis using new
    by (intro exI [of _ ?lg1] exI [of _ "fs(jlPath lg := Some [])"] exI [of _ kGenesisHash] exI [of _ "[[]]"])
      (simp add: log_lines_def)
next
  assume old: "log_files_are fs (jlPath lg) segs \<and> log_ok os B h segs \<and> hd segs \<noteq> [] \<and>
      length segs \<le> Suc (nat (jlMaxRotatedFiles lg))"
  then obtain s rest where segs: "segs = s # rest" by (cases segs) (auto simp: log_files_are_def)
  then obtain ls l where s: "s = ls @ [l]" using old by (cases s rule: rev_cases) auto
  have p: "fs (jlPath lg) = Some (unlines s)" using old segs by (simp add: log_files_are_def)
  have shape: "\<forall>k \<in> set s. line_shape k" using old segs by (simp add: log_ok_def)
  then have "LastLineHash os (Some (unlines s)) = LineHash os l"
    unfolding s by (intro LastLineHash_unlines) (auto simp: line_shape_def)
  then have L: "LastLineHash os (fs (jlPath lg)) = LineHash os l" "LineHash os l \<noteq> []"
    using p hash_text_nonempty [OF hash_text_LineHash [OF assms(4)]] by simp_all
  let ?lg1 = "lg\<lparr>jlLastHash := LineHash os l, jlOpen := True, jlCurrentSize := length (unlines s)\<rparr>"
  have f: "fs(jlPath lg := Some (unlines s)) = fs" using p by auto
  have "EnsureOpen os True True lg fs = (True, ?lg1, fs)"
    using L assms(1,2) p f by (simp add: EnsureOpen_def Let_def)
  moreover have "end_hash os h (log_lines segs) = LineHash os l"
    by (simp add: segs s end_hash_def log_lines_def)
  then have "log_inv os B ?lg1 fs h segs"
    using old assms(3) hash_text_LineHash [OF assms(4)] segs by (simp add: log_inv_def)
  ultimately show ?thesis
    by (intro exI [of _ ?lg1] exI [of _ fs] exI [of _ h] exI [of _ segs]) simp
qed

end
