(* ===== verification/LogChain_Properties.thy ===== *)
theory LogChain_Properties
  imports LogChain_Facts
begin

text \<open>
  The properties of the log: what the daemon wrote is verified as intact across rotations and
  restarts, an altered log is not, and the log's size on disk is bounded.
\<close>

section \<open>Runs of the logger\<close>

datatype log_op = OpLine write_env string | LoggerRestart

fun run_log :: "crypto_os \<Rightarrow> log_op list \<Rightarrow> json_logger \<times> fs \<Rightarrow> json_logger \<times> fs" where
  "run_log os [] st = st"
| "run_log os (OpLine env line # ops) st = run_log os ops (snd (WriteLine os env line (fst st) (snd st)))"
| "run_log os (LoggerRestart # ops) st =
     run_log os ops (new_logger (jlPath (fst st)) (jlMaxFileBytes (fst st)) (jlMaxRotatedFiles (fst st)), snd st)"

fun op_ok :: "crypto_os \<Rightarrow> nat \<Rightarrow> log_op \<Rightarrow> bool" where
  "op_ok os B (OpLine env line) \<longleftrightarrow> granting env \<and> loggable os B line"
| "op_ok os B LoggerRestart \<longleftrightarrow> True"

definition no_log :: "fs \<Rightarrow> wstring \<Rightarrow> bool" where
  "no_log fs p \<longleftrightarrow> fs p = None \<and> (\<forall>i \<ge> 1. slot fs p i = None)"

definition log_on_disk :: "crypto_os \<Rightarrow> nat \<Rightarrow> json_logger \<Rightarrow> fs \<Rightarrow> string list list \<Rightarrow> bool" where
  "log_on_disk os B lg fs segs \<longleftrightarrow>
     segs = [] \<and> no_log fs (jlPath lg) \<or>
     log_files_are fs (jlPath lg) segs \<and> (\<exists>h. log_ok os B h segs) \<and> hd segs \<noteq> [] \<and>
     length segs \<le> Suc (nat (jlMaxRotatedFiles lg))"

definition logger_at_rest :: "crypto_os \<Rightarrow> nat \<Rightarrow> json_logger \<Rightarrow> fs \<Rightarrow> string list list \<Rightarrow> bool" where
  "logger_at_rest os B lg fs segs \<longleftrightarrow> jlMaxFileBytes lg \<le> B \<and> log_on_disk os B lg fs segs \<and>
     ((\<exists>h. log_inv os B lg fs h segs) \<or> \<not> jlOpen lg \<and> jlLastHash lg = [])"

lemma inv_on_disk:
  "log_inv os B lg fs h segs \<Longrightarrow> hd segs \<noteq> [] \<Longrightarrow> logger_at_rest os B lg fs segs"
  by (auto simp: logger_at_rest_def log_on_disk_def log_inv_def)

lemma WriteLine_opened:
  assumes "EnsureOpen os True True lg fs = (True, lg1, fs1)" and "granting env"
  shows "WriteLine os env line lg fs = WriteLine os env line lg1 fs1"
proof -
  have "jlOpen lg1" using assms(1) by (auto simp: EnsureOpen_def Let_def split: if_splits)
  then have "EnsureOpen os (weOpen env) (weSize env) lg1 fs1 = EnsureOpen os (weOpen env) (weSize env) lg fs"
    using assms by (simp add: EnsureOpen_open granting_def)
  then show ?thesis unfolding WriteLine_def by simp
qed

lemma write_at_rest:
  assumes "logger_at_rest os B lg fs segs" and "granting env" and "loggable os B line" and "hash_works os"
  shows "\<exists>lg' fs' segs' h. WriteLine os env line lg fs = (True, lg', fs') \<and> logger_at_rest os B lg' fs' segs' \<and>
    extends_log segs (ChainLine line h) segs' \<and> jlPath lg' = jlPath lg \<and>
    jlMaxFileBytes lg' = jlMaxFileBytes lg \<and> jlMaxRotatedFiles lg' = jlMaxRotatedFiles lg"
proof -
  have "\<exists>lg1 fs1 h' segs1. WriteLine os env line lg fs = WriteLine os env line lg1 fs1 \<and>
      log_inv os B lg1 fs1 h' segs1 \<and> log_lines segs1 = log_lines segs \<and> jlPath lg1 = jlPath lg \<and>
      jlMaxFileBytes lg1 = jlMaxFileBytes lg \<and> jlMaxRotatedFiles lg1 = jlMaxRotatedFiles lg"
  proof (cases "\<exists>h. log_inv os B lg fs h segs")
    case True
    then show ?thesis by blast
  next
    case False
    then have closed: "\<not> jlOpen lg" "jlLastHash lg = []" "jlMaxFileBytes lg \<le> B"
      using assms(1) by (auto simp: logger_at_rest_def)
    obtain h where "segs = [] \<and> fs (jlPath lg) = None \<and> (\<forall>i \<ge> 1. slot fs (jlPath lg) i = None) \<or>
        log_files_are fs (jlPath lg) segs \<and> log_ok os B h segs \<and> hd segs \<noteq> [] \<and>
        length segs \<le> Suc (nat (jlMaxRotatedFiles lg))"
      using assms(1) unfolding logger_at_rest_def log_on_disk_def no_log_def by blast
    from EnsureOpen_inv [OF closed(2,1,3) assms(4) this] show ?thesis
      using WriteLine_opened [OF _ assms(2)] by metis
  qed
  then obtain lg1 fs1 h' segs1 where o: "WriteLine os env line lg fs = WriteLine os env line lg1 fs1"
      "log_inv os B lg1 fs1 h' segs1" "log_lines segs1 = log_lines segs" "jlPath lg1 = jlPath lg"
      "jlMaxFileBytes lg1 = jlMaxFileBytes lg" "jlMaxRotatedFiles lg1 = jlMaxRotatedFiles lg" by blast
  from WriteLine_inv [OF o(2) assms(2,3,4)] obtain lg' fs' h2 segs' where
    w: "WriteLine os env line lg1 fs1 = (True, lg', fs')" "log_inv os B lg' fs' h2 segs'"
      "extends_log segs1 (ChainLine line (jlLastHash lg1)) segs'" "jlPath lg' = jlPath lg1"
      "jlMaxFileBytes lg' = jlMaxFileBytes lg1" "jlMaxRotatedFiles lg' = jlMaxRotatedFiles lg1" by blast
  have "extends_log segs (ChainLine line (jlLastHash lg1)) segs'"
    using w(3) o(3) by (simp add: extends_log_def)
  moreover have "logger_at_rest os B lg' fs' segs'"
    using w(2,3) by (intro inv_on_disk) (auto simp: extends_log_def)
  ultimately show ?thesis using o w by metis
qed

lemma new_logger_sel [simp]:
  "jlPath (new_logger p m n) = p" "jlMaxFileBytes (new_logger p m n) = m"
  "jlMaxRotatedFiles (new_logger p m n) = n" "jlLastHash (new_logger p m n) = []" "\<not> jlOpen (new_logger p m n)"
  by (simp_all add: new_logger_def)

lemma restart_at_rest:
  "logger_at_rest os B lg fs segs \<Longrightarrow>
   logger_at_rest os B (new_logger (jlPath lg) (jlMaxFileBytes lg) (jlMaxRotatedFiles lg)) fs segs"
  by (simp add: logger_at_rest_def log_on_disk_def)

text \<open>The last line logged is the last line on disk.\<close>

fun logged :: "log_op list \<Rightarrow> string list" where
  "logged [] = []"
| "logged (OpLine env line # ops) = line # logged ops"
| "logged (LoggerRestart # ops) = logged ops"

lemma run_log_at_rest:
  assumes "logger_at_rest os B lg fs segs" and "\<forall>op \<in> set ops. op_ok os B op" and "hash_works os"
  shows "\<exists>lg' fs' segs'. run_log os ops (lg, fs) = (lg', fs') \<and> logger_at_rest os B lg' fs' segs' \<and>
    jlPath lg' = jlPath lg \<and> jlMaxRotatedFiles lg' = jlMaxRotatedFiles lg \<and>
    (if logged ops = [] then segs' = segs else \<exists>h. segs' \<noteq> [] \<and> hd segs' \<noteq> [] \<and>
       last (hd segs') = ChainLine (last (logged ops)) h)"
  using assms
proof (induction ops arbitrary: lg fs segs)
  case Nil
  then show ?case by auto
next
  case (Cons op ops)
  show ?case
  proof (cases op)
    case (OpLine env line)
    then have "granting env" "loggable os B line" using Cons.prems(2) by simp_all
    from write_at_rest [OF Cons.prems(1) this Cons.prems(3)] obtain lg1 fs1 segs1 h where
      w: "WriteLine os env line lg fs = (True, lg1, fs1)" "logger_at_rest os B lg1 fs1 segs1"
        "extends_log segs (ChainLine line h) segs1" "jlPath lg1 = jlPath lg"
        "jlMaxRotatedFiles lg1 = jlMaxRotatedFiles lg" by blast
    have ne: "segs1 \<noteq> []"
      using w(3) by (simp add: extends_log_def)
    from Cons.IH [OF w(2) _ Cons.prems(3)] Cons.prems(2) obtain lg' fs' segs' where
      r: "run_log os ops (lg1, fs1) = (lg', fs')" "logger_at_rest os B lg' fs' segs'" "jlPath lg' = jlPath lg1"
        "jlMaxRotatedFiles lg' = jlMaxRotatedFiles lg1"
        "if logged ops = [] then segs' = segs1 else \<exists>h. segs' \<noteq> [] \<and> hd segs' \<noteq> [] \<and>
          last (hd segs') = ChainLine (last (logged ops)) h" by auto
    have "\<exists>h. segs' \<noteq> [] \<and> hd segs' \<noteq> [] \<and> last (hd segs') = ChainLine (last (logged (op # ops))) h"
      using r(5) w(3) ne OpLine by (auto simp: extends_log_def split: if_splits)
    moreover have "run_log os (op # ops) (lg, fs) = (lg', fs')" using r(1) w(1) OpLine by simp
    moreover have "logged (op # ops) \<noteq> []" using OpLine by simp
    ultimately show ?thesis using r(2-4) w(4,5) by (intro exI [of _ lg'] exI [of _ fs'] exI [of _ segs']) simp
  next
    case LoggerRestart
    have "\<forall>op \<in> set ops. op_ok os B op" using Cons.prems(2) by simp
    from Cons.IH [OF restart_at_rest [OF Cons.prems(1)] this Cons.prems(3)] show ?thesis
      unfolding LoggerRestart by (simp only: run_log.simps logged.simps fst_conv snd_conv new_logger_sel)
  qed
qed

section \<open>Verification of an untouched log\<close>

lemma VerifyChain_linked:
  assumes "\<forall>l \<in> set ls. line_shape l" and "linked os h ls" and "ex = [] \<or> ex = h"
  shows "report_ok (VerifyChain os (unlines ls) ex)"
proof -
  have "getlines (unlines ls) = ls" using assms(1) by (intro getlines_unlines) (simp add: line_shape_def)
  then show ?thesis
    unfolding VerifyChain_def using assms
    by (auto intro!: verify_lines_linked [where h = h] simp: empty_report_def)
qed

lemma verify_files_linked:
  assumes "\<forall>x \<in> set fsegs. fs (fst x) = Some (unlines (snd x)) \<and> (\<forall>l \<in> set (snd x). line_shape l)"
    and "\<forall>x \<in> set (butlast fsegs). snd x \<noteq> []" and "linked os h (concat (map snd fsegs))"
    and "ex = [] \<or> ex = h"
  shows "\<forall>r \<in> set (verify_files os fs ex (map fst fsegs)). report_ok (snd r)"
  using assms
proof (induction fsegs arbitrary: h ex)
  case (Cons x xs)
  obtain f s where x: "x = (f, s)" by (cases x)
  have s: "fs f = Some (unlines s)" "\<forall>l \<in> set s. line_shape l" using Cons.prems(1) x by auto
  have l: "linked os h s" "linked os (end_hash os h s) (concat (map snd xs))"
    using Cons.prems(3) x by (simp_all add: linked_append)
  have first: "report_ok (VerifyChain os (unlines s) ex)"
    using VerifyChain_linked [OF s(2) l(1) Cons.prems(4)] .
  have "\<forall>r \<in> set (verify_files os fs (LastLineHash os (fs f)) (map fst xs)). report_ok (snd r)"
  proof (cases "xs = []")
    case False
    then have "s \<noteq> []" using Cons.prems(2) x by simp
    then obtain ls l where ll: "s = ls @ [l]" by (cases s rule: rev_cases) auto
    have "LastLineHash os (fs f) = LineHash os l"
      unfolding s(1) ll using s(2) ll by (intro LastLineHash_unlines) (auto simp: line_shape_def)
    then have "LastLineHash os (fs f) = end_hash os h s" by (simp add: ll end_hash_def)
    then show ?thesis using Cons.prems(1,2) l(2) False
      by (intro Cons.IH [where h = "end_hash os h s"]) simp_all
  qed simp
  then show ?case using first s(1) x by simp
qed simp

lemma log_files_of:
  assumes "log_files_are fs p segs" and "length segs \<le> 100"
  shows "log_files fs p = map (RotatedName p) (rev [1..<length segs]) @ [p]"
proof -
  have up: "[1..<100] = [1..<length segs] @ [length segs..<100]"
    using assms upt_add_eq_append [of 1 "length segs" "100 - length segs"]
    by (simp add: log_files_are_def Suc_leI del: upt_Suc)
  have "filter (\<lambda>i. fs (RotatedName p i) \<noteq> None) [1..<100] = filter (\<lambda>i. i < length segs) [1..<100]"
    using assms(1) by (intro filter_cong) (auto simp: log_files_are_def slot_def)
  also have "\<dots> = [1..<length segs]"
    unfolding up by (simp add: filter_False del: upt_Suc)
  finally have f: "filter (\<lambda>i. fs (RotatedName p i) \<noteq> None) [1..<100] = [1..<length segs]" .
  then show ?thesis
    using assms(1) by (simp add: log_files_def filter_map comp_def rev_filter [symmetric] log_files_are_def del: upt_Suc)
qed

lemma intact_log_verifies:
  assumes "log_files_are fs p segs" and "log_ok os B h segs" and "length segs \<le> 100"
  shows "fst (VerifyLog os fs p) = 0"
proof -
  define name where "name = (\<lambda>i. if i = 0 then p else RotatedName p i)"
  define fsegs where "fsegs = map (\<lambda>i. (name i, segs ! i)) (rev [0..<length segs])"
  have ne: "segs \<noteq> []" using assms(1) by (simp add: log_files_are_def)
  have split: "[0..<length segs] = 0 # [1..<length segs]" using ne by (simp add: upt_conv_Cons)
  have names: "map fst fsegs = log_files fs p"
    unfolding log_files_of [OF assms(1,3)] fsegs_def split by (simp add: name_def comp_def)
  have segs: "concat (map snd fsegs) = log_lines segs"
    by (simp add: fsegs_def log_lines_def comp_def rev_map [symmetric] map_nth)
  have "\<forall>x \<in> set fsegs. fs (fst x) = Some (unlines (snd x)) \<and> (\<forall>l \<in> set (snd x). line_shape l)"
    using assms(1,2) by (auto simp: fsegs_def name_def log_files_are_def slot_def log_ok_def hd_conv_nth)
  moreover have "\<forall>x \<in> set (butlast fsegs). snd x \<noteq> []"
  proof -
    have "butlast fsegs = map (\<lambda>i. (name i, segs ! i)) (rev [1..<length segs])"
      by (simp add: fsegs_def split)
    then show ?thesis using assms(2) ne
      by (auto simp: log_ok_def in_set_conv_nth nth_tl Ball_def)
        (metis One_nat_def Suc_le_D Suc_less_eq2 length_tl diff_Suc_1 nth_tl nth_mem)
  qed
  ultimately have "\<forall>r \<in> set (verify_files os fs [] (map fst fsegs)). report_ok (snd r)"
    using assms(2) by (intro verify_files_linked [where h = h]) (simp_all add: segs log_ok_def)
  moreover have "log_files fs p \<noteq> []" using log_files_of [OF assms(1,3)] by simp
  ultimately show ?thesis by (simp add: VerifyLog_def names)
qed

lemma fresh_at_rest:
  "no_log fs p \<Longrightarrow> maxBytes \<le> B \<Longrightarrow> logger_at_rest os B (new_logger p maxBytes n) fs []"
  by (simp add: logger_at_rest_def log_on_disk_def)

text \<open>
  C9.  Nothing the daemon does breaks its own log.  Starting with no log, after any sequence of
  writes that the system grants, with rotations as they come and restarts of the daemon anywhere
  between them, \<open>verify-log\<close> finds every file intact and returns 0, and the line written last is the
  last one of the current file.
\<close>

theorem written_log_verifies:
  assumes "no_log fs p" and "maxBytes \<le> B" and "n \<le> 99" and "hash_works os"
    and "\<forall>op \<in> set ops. op_ok os B op" and "logged ops \<noteq> []"
    and "run_log os ops (new_logger p maxBytes n, fs) = (lg', fs')"
  shows "fst (VerifyLog os fs' p) = 0 \<and>
    (\<exists>ls h. fs' p = Some (unlines (ls @ [ChainLine (last (logged ops)) h])))"
proof -
  from run_log_at_rest [OF fresh_at_rest [OF assms(1,2)] assms(5,4), of n] obtain segs h where
    r: "logger_at_rest os B lg' fs' segs" "jlPath lg' = p" "jlMaxRotatedFiles lg' = n"
      "segs \<noteq> []" "hd segs \<noteq> []" "last (hd segs) = ChainLine (last (logged ops)) h"
    using assms(6,7) by auto
  then have d: "log_files_are fs' p segs" "\<exists>h. log_ok os B h segs" "length segs \<le> Suc (nat n)"
    by (auto simp: logger_at_rest_def log_on_disk_def)
  have "length segs \<le> 100" using d(3) assms(3) by simp
  then have "fst (VerifyLog os fs' p) = 0" using d intact_log_verifies by blast
  moreover have "fs' p = Some (unlines (butlast (hd segs) @ [ChainLine (last (logged ops)) h]))"
    using d(1) r(5,6) append_butlast_last_id [of "hd segs"] by (simp add: log_files_are_def)
  ultimately show ?thesis by blast
qed


section \<open>Tampering\<close>

definition prev_of :: "crypto_os \<Rightarrow> string \<Rightarrow> string option" where
  "prev_of os l = (case coJson os l of
      None \<Rightarrow> None
    | Some j \<Rightarrow> (case jfind j ''prev_hash'' of Some (JStr h) \<Rightarrow> Some h | _ \<Rightarrow> None))"

text \<open>The lines verification looks at: without a trailing carriage return, and not empty.\<close>

definition nonempty_lines :: "string \<Rightarrow> string list" where
  "nonempty_lines content = filter (\<lambda>l. l \<noteq> []) (map chomp (getlines content))"

fun links_ok :: "crypto_os \<Rightarrow> string option \<Rightarrow> string list \<Rightarrow> bool" where
  "links_ok os previous [] = True"
| "links_ok os previous (l # ls) =
     ((\<forall>h p. prev_of os l = Some h \<and> previous = Some p \<longrightarrow> h = LineHash os p) \<and> links_ok os (Some l) ls)"

lemma verify_step_accepts:
  assumes "verify_step os ex (previous, seen, r) l = Inr st'" and "\<forall>x. LineHash os x \<noteq> []"
  shows "(\<forall>h p. prev_of os l = Some h \<and> previous = Some p \<longrightarrow> h = LineHash os p) \<and>
    (\<forall>h. prev_of os l = Some h \<and> previous = None \<longrightarrow> ex = [] \<or> h = ex) \<and>
    fst st' = Some l \<and> (prev_of os l = None \<longrightarrow> crUnchained (snd (snd st')) = crUnchained r + 1) \<and>
    (prev_of os l \<noteq> None \<longrightarrow> crUnchained (snd (snd st')) = crUnchained r)"
  using assms
  by (auto simp: verify_step_def prev_of_def Let_def split: option.splits json.splits if_splits)

lemma verify_step_refuses:
  assumes "verify_step os ex (previous, seen, r) l = Inl b"
  shows "crBrokenLine b = Suc (crLines r)"
proof (cases "coJson os l")
  case None
  then have "b = broken (r\<lparr>crLines := crLines r + 1\<rparr>) ''line is not a JSON object''"
    using assms unfolding verify_step_def Let_def by (simp only: prod.case option.case sum.inject)
  then show ?thesis by (simp add: broken_def)
next
  case (Some j)
  show ?thesis
  proof (cases "is_object j")
    case False
    then show ?thesis using assms Some unfolding verify_step_def Let_def by (simp add: broken_def) force
  next
    case True
    show ?thesis
    proof (cases "\<exists>h. jfind j ''prev_hash'' = Some (JStr h)")
      case True
      then show ?thesis using assms Some \<open>is_object j\<close> unfolding verify_step_def Let_def
        by (auto simp: broken_def simp del: char_of_nat split: if_splits)
    next
      case False
      then have "(case jfind j ''prev_hash'' of Some (JStr h) \<Rightarrow> f h | _ \<Rightarrow> g) = g" for f :: "string \<Rightarrow> chain_report + verify_state" and g
        by (auto split: option.splits json.splits)
      then show ?thesis using assms Some True unfolding verify_step_def Let_def
        by (simp only: prod.case option.case simp_thms if_False) (auto simp: broken_def split: if_splits)
    qed
  qed
qed

lemma verify_lines_links:
  assumes "report_ok (verify_lines os ex (previous, seen, r) raws)" and "\<forall>x. LineHash os x \<noteq> []"
  shows "links_ok os previous (filter (\<lambda>l. l \<noteq> []) (map chomp raws)) \<and>
    crUnchained (verify_lines os ex (previous, seen, r) raws) =
      crUnchained r + length (filter (\<lambda>l. prev_of os l = None) (filter (\<lambda>l. l \<noteq> []) (map chomp raws)))"
  using assms(1)
proof (induction raws arbitrary: previous seen r)
  case Nil
  then show ?case by (simp add: finished_def)
next
  case (Cons raw raws)
  show ?case
  proof (cases "chomp raw = []")
    case True
    then show ?thesis using Cons by simp
  next
    case False
    show ?thesis
    proof (cases "verify_step os ex (previous, seen, r) (chomp raw)")
      case (Inl b)
      then have "\<not> report_ok b" using verify_step_refuses by (simp add: report_ok_def)
      then show ?thesis using Cons.prems False Inl by simp
    next
      case (Inr st')
      obtain p' seen' r' where st': "st' = (p', seen', r')" by (metis prod_cases3)
      note a = verify_step_accepts [OF Inr assms(2)]
      have "report_ok (verify_lines os ex (p', seen', r') raws)" using Cons.prems False Inr st' by simp
      from Cons.IH [OF this] a show ?thesis using False Inr st' by auto
    qed
  qed
qed

lemma VerifyChain_entries:
  assumes "report_ok (VerifyChain os content ex)" and "\<forall>x. LineHash os x \<noteq> []"
  shows "links_ok os None (nonempty_lines content)"
    and "crUnchained (VerifyChain os content ex) = length (filter (\<lambda>l. prev_of os l = None) (nonempty_lines content))"
  using verify_lines_links [OF assms(1) [unfolded VerifyChain_def] assms(2)]
  by (simp_all add: VerifyChain_def nonempty_lines_def empty_report_def)

lemma links_ok_snoc:
  "links_ok os previous (ls @ [x, l]) \<Longrightarrow> links_ok os previous (ls @ [x]) \<and>
   (\<forall>h. prev_of os l = Some h \<longrightarrow> h = LineHash os x)"
  by (induction ls arbitrary: previous) auto

lemma links_pin_suffix:
  "\<forall>x \<in> set ls. \<forall>y \<in> set ls'. LineHash os x = LineHash os y \<longrightarrow> x = y \<Longrightarrow> links_ok os None ls \<Longrightarrow> \<forall>l \<in> set ls. prev_of os l \<noteq> None \<Longrightarrow> links_ok os None ls' \<Longrightarrow>
    ls \<noteq> [] \<Longrightarrow> ls' \<noteq> [] \<Longrightarrow> last ls = last ls' \<Longrightarrow> suffix ls ls' \<or> suffix ls' ls"
proof (induction ls arbitrary: ls' rule: rev_induct)
  case (snoc l xs)
  obtain ys where ls': "ls' = ys @ [l]" using snoc.prems(6,7) by (cases ls' rule: rev_cases) auto
  consider "xs = []" | "ys = []" | a x b y where "xs = a @ [x]" "ys = b @ [y]"
    by (metis rev_exhaust)
  then show ?case
  proof cases
    case 3
    obtain h where h: "prev_of os l = Some h" using snoc.prems(3) by auto
    have x: "links_ok os None xs" "h = LineHash os x"
      using links_ok_snoc [of os None a x l] snoc.prems(2) 3 h by auto
    have y: "links_ok os None ys" "h = LineHash os y"
      using links_ok_snoc [of os None b y l] snoc.prems(4) 3 h ls' by auto
    have sub: "\<forall>x \<in> set xs. \<forall>y \<in> set ys. LineHash os x = LineHash os y \<longrightarrow> x = y"
        "\<forall>l \<in> set xs. prev_of os l \<noteq> None"
      using snoc.prems(1,3) ls' by simp_all
    have "x \<in> set xs" "y \<in> set ys" "LineHash os x = LineHash os y" using x(2) y(2) 3 by simp_all
    then have "x = y" using sub(1) by blast
    then have "last xs = last ys" "xs \<noteq> []" "ys \<noteq> []" using 3 by simp_all
    from snoc.IH [OF sub(1) x(1) sub(2) y(1) this(2,3,1)] have "suffix xs ys \<or> suffix ys xs" .
    then show ?thesis unfolding ls' by simp
  qed (simp_all add: ls' suffix_def)
qed simp

text \<open>
  C8.  Tampering is detected.  As long as the lines involved show no collision of the hash, take a log whose every line is chained and
  any other file that verification also accepts and that ends in the same line.  Then their lines are
  the same, as far back as the shorter one goes: no line before the last can be edited, inserted,
  removed or reordered.  What can go unnoticed is only what the header of the chain admits, the loss
  of lines at an end.
\<close>

theorem altered_log_is_detected:
  assumes "hash_works os"
    and "\<forall>x \<in> set (nonempty_lines content). \<forall>y \<in> set (nonempty_lines content'). LineHash os x = LineHash os y \<longrightarrow> x = y"
    and "report_ok (VerifyChain os content ex)" and "crUnchained (VerifyChain os content ex) = 0"
    and "report_ok (VerifyChain os content' ex')"
    and "nonempty_lines content \<noteq> []" and "nonempty_lines content' \<noteq> []"
    and "last (nonempty_lines content) = last (nonempty_lines content')"
  shows "suffix (nonempty_lines content) (nonempty_lines content') \<or> suffix (nonempty_lines content') (nonempty_lines content)"
proof -
  have ne: "\<forall>x. LineHash os x \<noteq> []" using hash_text_nonempty hash_text_LineHash [OF assms(1)] by blast
  note c = VerifyChain_entries [OF assms(3) ne]
  note c' = VerifyChain_entries(1) [OF assms(5) ne]
  have "\<forall>l \<in> set (nonempty_lines content). prev_of os l \<noteq> None"
    using c(2) assms(4) by (simp add: filter_empty_conv)
  from links_pin_suffix [OF assms(2) c(1) this c' assms(6-8)] show ?thesis .
qed

section \<open>Concrete runs\<close>

definition log_toy :: crypto_os where
  "log_toy = \<lparr>coHash = (\<lambda>h k d. Some (replicate 31 CHR ''x'' @ [char_of (length d)])),
     coSeal = (\<lambda>k n p. None), coOpen = (\<lambda>k n b t. None),
     coJson = (\<lambda>s. Some (JObj [(''prev_hash'', JStr (take 64 (drop (length s - 66) s)))])),
     coPrint = (\<lambda>j. [])\<rparr>"

lemma log_toy_works: "hash_works log_toy"
  by (simp add: hash_works_def Sha256_def Hash_def log_toy_def)

definition grant_env :: write_env where
  "grant_env = \<lparr>weOpen = True, weSize = True, weReopen = True, weResize = True, weDelete = (\<lambda>f. True),
     weMove = (\<lambda>f. True), weWrite = (\<lambda>n. (True, n))\<rparr>"

lemma grant_env_grants: "granting grant_env"
  by (simp add: granting_def grant_env_def)

lemma log_toy_links: "length h = 64 \<Longrightarrow> line_link log_toy (a @ h @ [x, y]) h"
  by (simp add: line_link_def log_toy_def)

lemma log_toy_loggable: "loggable log_toy 200 ''{}''" "loggable log_toy 200 ''{a}''"
proof -
  have *: "ChainLine ''{}'' h = (''{'' @ CHR 0x2C # CHR 0x22 # ''prev_hash'' @ [CHR 0x22, CHR 0x3A, CHR 0x22]) @ h @
      [CHR 0x22, CHR ''}'']"
    "ChainLine ''{a}'' h = (''{a'' @ CHR 0x2C # CHR 0x22 # ''prev_hash'' @ [CHR 0x22, CHR 0x3A, CHR 0x22]) @ h @
      [CHR 0x22, CHR ''}'']" for h
    by (simp_all add: ChainLine_def)
  show "loggable log_toy 200 ''{}''" "loggable log_toy 200 ''{a}''"
    unfolding loggable_def * by (auto simp: hash_text_def newline_def log_toy_links simp del: append.simps append_assoc)
qed

theorem written_log_verifies_witness:
  "\<exists>lg' fs'. run_log log_toy [OpLine grant_env ''{}'', LoggerRestart, OpLine grant_env ''{a}'']
     (new_logger ''log'' 100 2, \<lambda>f. None) = (lg', fs') \<and> fst (VerifyLog log_toy fs' ''log'') = 0"
proof -
  let ?ops = "[OpLine grant_env ''{}'', LoggerRestart, OpLine grant_env ''{a}'']"
  obtain lg' fs' where r: "run_log log_toy ?ops (new_logger ''log'' 100 2, \<lambda>f. None) = (lg', fs')"
    by (metis surj_pair)
  have "no_log (\<lambda>f. None) ''log''" "\<forall>op \<in> set ?ops. op_ok log_toy 200 op"
    using log_toy_loggable grant_env_grants by (simp_all add: no_log_def slot_def)
  from written_log_verifies [OF this(1) _ _ log_toy_works this(2) _ r] r show ?thesis by simp
qed


definition toy_line1 :: string where "toy_line1 = ''{'' @ kGenesisHash @ ''.}''"
definition toy_line2 :: string where "toy_line2 = ''{a'' @ LineHash log_toy toy_line1 @ ''.}''"

lemma toy_lines:
  "line_shape toy_line1" "line_shape toy_line2" "linked log_toy kGenesisHash [toy_line1, toy_line2]"
  "LineHash log_toy toy_line1 \<noteq> LineHash log_toy toy_line2"
proof -
  have len: "length (LineHash log_toy toy_line1) = 64" "length kGenesisHash = 64"
    using hash_text_LineHash [OF log_toy_works] hash_text_genesis by (simp_all add: hash_text_def)
  have "newline \<notin> set (LineHash log_toy toy_line1)" "newline \<notin> set kGenesisHash"
    using hash_text_LineHash [OF log_toy_works, of toy_line1] hash_text_genesis
    by (auto simp: hash_text_def hex_digits_def newline_def)
  then show "line_shape toy_line1" "line_shape toy_line2"
    using len by (simp_all add: line_shape_def toy_line1_def toy_line2_def newline_def carriage_def)
  have "length toy_line1 = 67" "length toy_line2 = 68" using len by (simp_all add: toy_line1_def toy_line2_def)
  then show "LineHash log_toy toy_line1 \<noteq> LineHash log_toy toy_line2"
    by (simp add: LineHash_def Sha256_def Hash_def log_toy_def) code_simp
  have "line_link log_toy toy_line1 kGenesisHash" "line_link log_toy toy_line2 (LineHash log_toy toy_line1)"
    by (simp only: toy_line1_def, rule log_toy_links, rule len, simp only: toy_line2_def, rule log_toy_links, rule len)
  then show "linked log_toy kGenesisHash [toy_line1, toy_line2]" by simp
qed

lemma nonempty_lines_unlines: "\<forall>l \<in> set ls. line_shape l \<Longrightarrow> nonempty_lines (unlines ls) = ls"
proof -
  assume a: "\<forall>l \<in> set ls. line_shape l"
  then have "getlines (unlines ls) = ls" by (intro getlines_unlines) (simp add: line_shape_def)
  moreover have "filter (\<lambda>l. l \<noteq> []) (map chomp ls) = ls"
    using a by (induction ls) (auto simp: chomp_line, auto simp: line_shape_def)
  ultimately show ?thesis by (simp add: nonempty_lines_def)
qed

theorem altered_log_is_detected_witness:
  "suffix [toy_line1, toy_line2] [toy_line2] \<or> suffix [toy_line2] [toy_line1, toy_line2]"
proof -
  have links: "linked log_toy (LineHash log_toy toy_line1) [toy_line2]" using toy_lines(3) by simp
  have e: "nonempty_lines (unlines [toy_line1, toy_line2]) = [toy_line1, toy_line2]"
      "nonempty_lines (unlines [toy_line2]) = [toy_line2]"
    using toy_lines(1,2) by (intro nonempty_lines_unlines; simp)+
  have ok: "report_ok (VerifyChain log_toy (unlines [toy_line1, toy_line2]) [])"
      "report_ok (VerifyChain log_toy (unlines [toy_line2]) [])"
    using toy_lines(1,2) VerifyChain_linked [OF _ toy_lines(3), of "[]"] VerifyChain_linked [OF _ links, of "[]"]
    by simp_all
  have ne: "\<forall>x. LineHash log_toy x \<noteq> []" using hash_text_nonempty hash_text_LineHash [OF log_toy_works] by blast
  have "prev_of log_toy toy_line1 \<noteq> None" "prev_of log_toy toy_line2 \<noteq> None"
    by (simp_all add: prev_of_def log_toy_def)
  then have "crUnchained (VerifyChain log_toy (unlines [toy_line1, toy_line2]) []) = 0"
    unfolding VerifyChain_entries(2) [OF ok(1) ne] e by simp
  from altered_log_is_detected [OF log_toy_works _ ok(1) this ok(2), unfolded e] toy_lines(4)
  show ?thesis by auto
qed

section \<open>False alarms\<close>

lemma unreadable_line_is_reported:
  "\<exists>x \<in> set raws. chomp x \<noteq> [] \<and> coJson os (chomp x) = None \<Longrightarrow> \<not> report_ok (verify_lines os ex st raws)"
proof (induction raws arbitrary: st)
  case (Cons raw raws)
  obtain p seen r where st: "st = (p, seen, r)" by (metis prod_cases3)
  show ?case
  proof (cases "chomp raw = []")
    case True
    then show ?thesis using Cons by auto
  next
    case False
    show ?thesis
    proof (cases "verify_step os ex st (chomp raw)")
      case (Inl b)
      then show ?thesis using verify_step_refuses False st by (simp add: report_ok_def)
    next
      case (Inr st')
      then have "coJson os (chomp raw) \<noteq> None"
        by (cases "coJson os (chomp raw)") (simp_all add: verify_step_def st Let_def)
      then have "\<exists>x \<in> set raws. chomp x \<noteq> [] \<and> coJson os (chomp x) = None" using Cons.prems by auto
      from Cons.IH [OF this] show ?thesis using False Inr by simp
    qed
  qed
qed simp

text \<open>
  A service stopped in the middle of a line leaves it without its newline.  After the restart the next
  line is appended to it, and the log counts as tampered with.
\<close>

lemma torn_line_breaks_log:
  assumes "fs p = Some (unlines ls @ t)" and "t \<noteq> []" and "newline \<notin> set t" and "\<forall>l \<in> set ls. newline \<notin> set l"
    and "\<forall>c. coJson os (t @ c) = None" and "granting env" and "newline \<notin> set line" and "last line = CHR ''}''"
    and "2 \<le> length line" and "hash_works os" and "length (unlines ls @ t) + length line + 80 \<le> maxBytes"
    and "WriteLine os env line (new_logger p maxBytes n) fs = (ok, lg', fs')"
  shows "ok \<and> fst (VerifyLog os fs' p) = 3"
proof -
  let ?h = "LastLineHash os (Some (unlines ls @ t))"
  have tail: "?h = [] \<or> hash_text ?h"
    using hash_text_LineHash [OF assms(10)] by (auto simp: LastLineHash_def Let_def)
  define h where "h = (if ?h = [] then kGenesisHash else ?h)"
  have ht: "hash_text h" using tail hash_text_genesis by (auto simp: h_def)
  define c where "c = ChainLine line h"
  have cl: "c = butlast line @ CHR 0x2C # CHR 0x22 # ''prev_hash'' @ CHR 0x22 # CHR 0x3A # CHR 0x22 #
      h @ [CHR 0x22, CHR ''}'']"
    using assms(8,9) by (simp add: c_def ChainLine_def)
  have len: "length c + 1 = length line + 80" using ht assms(9) unfolding cl hash_text_def by simp
  have nl: "newline \<notin> set c" using assms(7) ht in_set_butlastD [of newline line]
    unfolding cl by (auto simp: hash_text_def hex_digits_def newline_def)
  let ?lg = "(new_logger p maxBytes n)\<lparr>jlLastHash := h, jlOpen := True, jlCurrentSize := length (unlines ls @ t)\<rparr>"
  have f: "fs(p := Some (unlines ls @ t)) = fs" using assms(1) by auto
  have "EnsureOpen os (weOpen env) (weSize env) (new_logger p maxBytes n) fs = (True, ?lg, fs)"
    using assms(1,6) f by (simp add: EnsureOpen_def Let_def granting_def h_def)
  then have "WriteLine os env line (new_logger p maxBytes n) fs = append_data os env c ?lg fs"
    using len assms(11) by (simp add: WriteLine_def Let_def c_def [symmetric])
  also have "\<dots> = (True, ?lg\<lparr>jlCurrentSize := length (unlines ls @ t) + length c + 1, jlLastHash := LineHash os c\<rparr>,
      fs(p := Some (unlines ls @ (t @ c) @ [newline])))"
    using assms(1,6) by (simp add: append_data_def granting_def Let_def)
  finally have w: "ok" "fs' p = Some (unlines (ls @ [t @ c]))" using assms(12) by auto
  have "\<forall>l \<in> set (ls @ [t @ c]). newline \<notin> set l" using assms(3,4) nl by auto
  then have g: "getlines (unlines (ls @ [t @ c])) = ls @ [t @ c]" by (rule getlines_unlines)
  have "last (t @ c) \<noteq> carriage" unfolding cl by (simp add: carriage_def)
  then have "chomp (t @ c) = t @ c" by (simp add: chomp_def)
  then have bad: "\<not> report_ok (VerifyChain os (unlines (ls @ [t @ c])) ex)" for ex
    unfolding VerifyChain_def g using assms(2,5) by (intro unreadable_line_is_reported) simp
  have "\<exists>r \<in> set (verify_files os fs' ex (fl @ [p])). \<not> report_ok (snd r)" for ex fl
    using bad w(2) by (induction fl arbitrary: ex) auto
  then show ?thesis using w by (auto simp: VerifyLog_def log_files_def Let_def)
qed

text \<open>
  When the service stops between a rotation and the next line (the disk is full, the new file cannot be
  opened), its successor sees only the missing or empty current file and starts a new chain.
\<close>

lemma restart_after_rotation_breaks_log:
  assumes "fs p = None" and "slot fs p 1 = Some (unlines (ls @ [l]))" and "line_shape l"
    and "\<forall>k \<in> set ls. newline \<notin> set k"
    and "LineHash os l \<noteq> kGenesisHash" and "granting env" and "loggable os B line" and "hash_works os"
    and "WriteLine os env line (new_logger p maxBytes n) fs = (ok, lg', fs')"
  shows "ok \<and> fst (VerifyLog os fs' p) = 3"
proof -
  let ?c = "ChainLine line kGenesisHash"
  let ?lg = "(new_logger p maxBytes n)\<lparr>jlLastHash := kGenesisHash, jlOpen := True\<rparr>"
  have "EnsureOpen os (weOpen env) (weSize env) (new_logger p maxBytes n) fs = (True, ?lg, fs(p := Some []))"
    using assms(1,6) by (simp add: EnsureOpen_def Let_def granting_def LastLineHash_def new_logger_def)
  then have "WriteLine os env line (new_logger p maxBytes n) fs = append_data os env ?c ?lg (fs(p := Some []))"
    by (simp add: WriteLine_def Let_def new_logger_def)
  also have "\<dots> = (True, ?lg\<lparr>jlCurrentSize := length ?c + 1, jlLastHash := LineHash os ?c\<rparr>,
      fs(p := Some (unlines [?c])))"
    using append_data_granted [OF assms(6), of "fs(p := Some [])" ?lg "[]" os ?c] by (simp add: new_logger_def)
  finally have w: "ok" "fs' = fs(p := Some (unlines [?c]))" using assms(9) by auto
  note c = ChainLine_shape [OF assms(7) hash_text_genesis]
  have ne: "\<forall>x. LineHash os x \<noteq> []" using hash_text_nonempty hash_text_LineHash [OF assms(8)] by blast
  have "getlines (unlines [?c]) = [?c]" using c(1) by (intro getlines_unlines) (simp add: line_shape_def)
  moreover have "?c \<noteq> []" "chomp ?c = ?c" using c(1) chomp_line by (auto simp: line_shape_def)
  moreover have "\<exists>b. verify_step os (LineHash os l) (None, False, empty_report) ?c = Inl b"
  proof (rule ccontr)
    assume "\<nexists>b. verify_step os (LineHash os l) (None, False, empty_report) ?c = Inl b"
    then obtain st' where s: "verify_step os (LineHash os l) (None, False, empty_report) ?c = Inr st'"
      by (cases "verify_step os (LineHash os l) (None, False, empty_report) ?c") auto
    moreover have "prev_of os ?c = Some kGenesisHash" using c(2) by (auto simp: line_link_def prev_of_def)
    ultimately show False
      using verify_step_accepts [OF s ne] ne assms(5) by simp
  qed
  ultimately have bad: "\<not> report_ok (VerifyChain os (unlines [?c]) (LineHash os l))"
    using verify_step_refuses by (auto simp: VerifyChain_def report_ok_def)
  have older: "LastLineHash os (fs' (RotatedName p 1)) = LineHash os l"
    using LastLineHash_unlines [OF assms(3,4), of os] assms(2) by (simp add: w(2) slot_def)
  have "verify_files os fs' ex (fl @ [RotatedName p 1, p]) \<noteq> [] \<and>
      (\<exists>r \<in> set (verify_files os fs' ex (fl @ [RotatedName p 1, p])). \<not> report_ok (snd r))" for ex fl
    using bad older by (induction fl arbitrary: ex) (auto simp: w(2))
  moreover have "\<exists>fl. log_files fs' p = fl @ [RotatedName p 1, p]"
  proof -
    have "1 < n \<Longrightarrow> rev [1..<n] = rev [2..<n] @ [1]" for n by (simp add: upt_conv_Cons numeral_2_eq_2)
    from this [of 100] have up: "rev [1..<100] = rev [2..<100] @ [1]" by (simp only: one_less_numeral_iff semiring_norm)
    have "fs' (RotatedName p 1) \<noteq> None" "fs' p \<noteq> None" using assms(2) by (simp_all add: w(2) slot_def)
    then show ?thesis unfolding log_files_def up map_append filter_append
      by (intro exI [of _ "filter (\<lambda>f. fs' f \<noteq> None) (map (RotatedName p) (rev [2..<100]))"]) (simp del: upt.simps map_append)
  qed
  ultimately show ?thesis using w(1) by (auto simp: VerifyLog_def Let_def)
qed

text \<open>A rotated file numbered above \<open>maxRotatedFiles\<close>, left by an earlier configuration, stays.\<close>

lemma Rotate_keeps_older_files:
  assumes "int i > jlMaxRotatedFiles lg" and "1 < i"
  shows "slot (snd (Rotate env lg fs)) (jlPath lg) i = slot fs (jlPath lg) i"
proof -
  have s: "slot (shift_rotated env p k fs) p i = slot fs p i" if "Suc k < i" for p k fs
    using that by (induction k arbitrary: fs) (auto simp: move_file_def slot_def)
  have "Suc (nat (jlMaxRotatedFiles lg) - 1) < i" using assms by linarith
  from s [OF this] assms show ?thesis
    by (auto simp: Rotate_def Let_def delete_file_def move_file_def slot_def)
qed

end
