(* ===== verification/Http.thy ===== *)
theory Http
  imports SecureChannel_Facts
begin

text \<open>
  \<open>src/service/HttpServer.h/.cpp\<close>: the dashboard's HTTP server, without its sockets.  A connection is
  the list of pieces \<open>recv\<close> returns, an empty piece or the end of the list being a closed or timed
  out connection; the answer is the text sent back.  The handler is a function of the request and of
  the state it acts on; \<open>None\<close> is an exception it throws.  \<open>tolower\<close> is that of the C locale.
\<close>

section \<open>Text\<close>

definition kMaxHeader :: nat where "kMaxHeader = 16 * 1024"
definition kMaxBody :: nat where "kMaxBody = 256 * 1024"

definition crlf :: string where "crlf = [CHR 0x0D, CHR 0x0A]"

text \<open>\<open>std::string::find\<close>; a non-empty pattern.\<close>

fun find_sub :: "string \<Rightarrow> string \<Rightarrow> nat option" where
  "find_sub pat [] = None"
| "find_sub pat (c # cs) =
     (if take (length pat) (c # cs) = pat then Some 0 else map_option Suc (find_sub pat cs))"

fun split_char :: "char \<Rightarrow> string \<Rightarrow> string list" where
  "split_char d [] = [[]]"
| "split_char d (c # cs) =
     (if c = d then [] # split_char d cs
      else (case split_char d cs of [] \<Rightarrow> [[c]] | w # ws \<Rightarrow> (c # w) # ws))"

definition before_char :: "char \<Rightarrow> string \<Rightarrow> string" where
  "before_char d s = takeWhile (\<lambda>c. c \<noteq> d) s"

text \<open>What follows the first occurrence; \<open>None\<close> when there is none.\<close>

definition after_char :: "char \<Rightarrow> string \<Rightarrow> string option" where
  "after_char d s = (case dropWhile (\<lambda>c. c \<noteq> d) s of [] \<Rightarrow> None | _ # r \<Rightarrow> Some r)"

definition ascii_lower :: "char \<Rightarrow> char" where
  "ascii_lower c = (if 65 \<le> byte c \<and> byte c \<le> 90 then char_of (byte c + 32) else c)"

definition c_space :: "char \<Rightarrow> bool" where
  "c_space c = (byte c = 32 \<or> (9 \<le> byte c \<and> byte c \<le> 13))"

text \<open>\<open>strtoull\<close> in base 10: saturating, a sign negates modulo \<open>2\<^sup>64\<close>, 0 when there are no digits.\<close>

definition strtoull :: "string \<Rightarrow> nat" where
  "strtoull s =
     (let s1 = dropWhile c_space s;
          (neg, s2) = (case s1 of [] \<Rightarrow> (False, [])
             | c # r \<Rightarrow> if c = CHR ''-'' then (True, r) else if c = CHR ''+'' then (False, r) else (False, s1));
          v = digits_value (takeWhile is_digit s2)
      in if v \<ge> 2 ^ 64 then 2 ^ 64 - 1 else if neg \<and> v \<noteq> 0 then 2 ^ 64 - v else v)"

section \<open>Requests\<close>

fun UrlDecode :: "string \<Rightarrow> string" where
  "UrlDecode [] = []"
| "UrlDecode (c # cs) =
     (if c = CHR ''+'' then CHR '' '' # UrlDecode cs
      else if c = CHR ''%'' then
        (case cs of
           a # b # r \<Rightarrow>
             (case (hex_value a, hex_value b) of
                (Some hi, Some lo) \<Rightarrow> char_of (hi * 16 + lo) # UrlDecode r
              | _ \<Rightarrow> c # UrlDecode cs)
         | _ \<Rightarrow> c # UrlDecode cs)
      else c # UrlDecode cs)"

record http_request =
  rqMethod :: string
  rqPath :: string
  rqQuery :: string
  rqHeaders :: "(string \<times> string) list"
  rqBody :: string

definition Header :: "string \<Rightarrow> http_request \<Rightarrow> string" where
  "Header lowerName r = (case map_of (rqHeaders r) lowerName of None \<Rightarrow> [] | Some v \<Rightarrow> v)"

fun find_param :: "string \<Rightarrow> string list \<Rightarrow> string" where
  "find_param name [] = []"
| "find_param name (pair # ps) =
     (if UrlDecode (before_char CHR ''='' pair) = name
      then (case after_char CHR ''='' pair of None \<Rightarrow> [] | Some v \<Rightarrow> UrlDecode v)
      else find_param name ps)"

definition QueryParam :: "string \<Rightarrow> http_request \<Rightarrow> string" where
  "QueryParam name r = find_param name (split_char CHR ''&'' (rqQuery r))"

record http_response =
  rsStatus :: nat
  rsContentType :: string
  rsBody :: string

definition json_type :: string where "json_type = ''application/json; charset=utf-8''"

definition default_response :: http_response where
  "default_response = \<lparr>rsStatus = 200, rsContentType = json_type, rsBody = []\<rparr>"

definition StatusText :: "nat \<Rightarrow> string" where
  "StatusText status =
     (if status = 200 then ''OK'' else if status = 204 then ''No Content'' else if status = 400 then ''Bad Request''
      else if status = 401 then ''Unauthorized'' else if status = 403 then ''Forbidden''
      else if status = 404 then ''Not Found'' else if status = 405 then ''Method Not Allowed''
      else if status = 413 then ''Payload Too Large'' else if status = 500 then ''Internal Server Error''
      else ''Error'')"

section \<open>One connection\<close>

text \<open>Reading until the blank line: the data so far, the length of the head, the pieces left.\<close>

fun read_head :: "string list \<Rightarrow> string \<Rightarrow> (string \<times> nat \<times> string list) option" where
  "read_head [] data = None"
| "read_head (piece # pieces) data =
     (if piece = [] then None
      else (case find_sub (crlf @ crlf) (data @ piece) of
          Some e \<Rightarrow> Some (data @ piece, e, pieces)
        | None \<Rightarrow> if length (data @ piece) > kMaxHeader then None else read_head pieces (data @ piece)))"

fun read_body :: "string list \<Rightarrow> nat \<Rightarrow> string \<Rightarrow> string option" where
  "read_body [] n body = (if length body < n then None else Some (take n body))"
| "read_body (piece # pieces) n body =
     (if length body < n then (if piece = [] then None else read_body pieces n (body @ piece))
      else Some (take n body))"

function header_lines :: "string \<Rightarrow> string list" where
  "header_lines s =
     (if s = [] then []
      else (case find_sub crlf s of
          None \<Rightarrow> [s]
        | Some e \<Rightarrow> take e s # header_lines (drop (e + 2) s)))"
  by auto
termination by (relation "measure length") auto

declare header_lines.simps [simp del]

definition add_header :: "(string \<times> string) list \<Rightarrow> string \<Rightarrow> (string \<times> string) list" where
  "add_header hs line = (case after_char CHR '':'' line of
      None \<Rightarrow> hs
    | Some v \<Rightarrow> amap_put (map ascii_lower (before_char CHR '':'' line))
        (dropWhile (\<lambda>c. c = CHR '' '' \<or> c = CHR 0x09) v) hs)"

text \<open>The request line and the headers; \<open>None\<close> when the line has no two spaces.\<close>

definition parse_head :: "string \<Rightarrow> http_request option" where
  "parse_head head =
     (let lineEnd = find_sub crlf head;
          requestLine = (case lineEnd of None \<Rightarrow> head | Some e \<Rightarrow> take e head)
      in case after_char CHR '' '' requestLine of
           None \<Rightarrow> None
         | Some r1 \<Rightarrow>
             (case after_char CHR '' '' r1 of
                None \<Rightarrow> None
              | Some r2 \<Rightarrow>
                  (let target = before_char CHR '' '' r1;
                       rest = (case lineEnd of None \<Rightarrow> [] | Some e \<Rightarrow> drop (e + 2) head)
                   in Some \<lparr>rqMethod = before_char CHR '' '' requestLine, rqPath = before_char CHR ''?'' target,
                        rqQuery = (case after_char CHR ''?'' target of None \<Rightarrow> [] | Some q \<Rightarrow> q),
                        rqHeaders = foldl add_header [] (header_lines rest), rqBody = []\<rparr>)))"

text \<open>The texts the server writes: the quotation mark is a character code.\<close>

definition quote :: "string \<Rightarrow> string" where "quote s = CHR 0x22 # s @ [CHR 0x22]"

definition failure_body :: "string \<Rightarrow> string" where
  "failure_body m = ''{'' @ quote ''ok'' @ '':false,'' @ quote ''message'' @ '':'' @ quote m @ ''}''"

definition with_failure :: "nat \<Rightarrow> string \<Rightarrow> http_response" where
  "with_failure status m = default_response\<lparr>rsStatus := status, rsBody := failure_body m\<rparr>"

definition security_headers :: string where
  "security_headers =
     crlf @ ''Cache-Control: no-store'' @ crlf @ ''X-Content-Type-Options: nosniff'' @ crlf @
     ''X-Frame-Options: DENY'' @ crlf @ ''Referrer-Policy: no-referrer'' @ crlf @
     ''Content-Security-Policy: default-src '' @ CHR 0x27 # ''self'' @ CHR 0x27 # ''; script-src '' @
     CHR 0x27 # ''self'' @ CHR 0x27 # ''; style-src '' @ CHR 0x27 # ''self'' @ CHR 0x27 # ''; img-src '' @
     CHR 0x27 # ''self'' @ CHR 0x27 # '' data:; connect-src '' @ CHR 0x27 # ''self'' @ CHR 0x27 #
     ''; frame-ancestors '' @ CHR 0x27 # ''none'' @ CHR 0x27 # ''; base-uri '' @ CHR 0x27 # ''none'' @ CHR 0x27 #
     ''; form-action '' @ CHR 0x27 # ''none'' @ [CHR 0x27]"

definition render :: "http_response \<Rightarrow> string" where
  "render res = ''HTTP/1.1 '' @ to_string (rsStatus res) @ '' '' @ StatusText (rsStatus res) @ crlf @
     ''Content-Type: '' @ rsContentType res @ crlf @ ''Content-Length: '' @ to_string (length (rsBody res)) @
     security_headers @ crlf @ ''Connection: close'' @ crlf @ crlf @ rsBody res"

text \<open>\<open>Serve\<close>: the response if one is sent, and the state the handler leaves.\<close>

definition Serve ::
  "(http_request \<Rightarrow> 's \<Rightarrow> http_response option \<times> 's) \<Rightarrow> string list \<Rightarrow> 's \<Rightarrow> http_response option \<times> 's" where
  "Serve handler pieces st =
     (case read_head pieces [] of
        None \<Rightarrow> (None, st)
      | Some (data, headerEnd, rest) \<Rightarrow>
          (case parse_head (take headerEnd data) of
             None \<Rightarrow> (Some (with_failure 400 ''bad request''), st)
           | Some req \<Rightarrow>
               (let n = strtoull (Header ''content-length'' req) in
                if n > kMaxBody then (Some (with_failure 413 ''request too large''), st)
                else (case read_body rest n (drop (headerEnd + 4) data) of
                    None \<Rightarrow> (None, st)
                  | Some body \<Rightarrow>
                      (case handler (req\<lparr>rqBody := body\<rparr>) st of
                         (None, st') \<Rightarrow> (Some (with_failure 500 ''internal error''), st')
                       | (Some res, st') \<Rightarrow> (Some res, st'))))))"

section \<open>The server\<close>

text \<open>\<open>SendAll\<close>: what reaches the client when the calls of \<open>send\<close> take so many bytes or fail.\<close>

fun SendAll :: "nat option list \<Rightarrow> string \<Rightarrow> string" where
  "SendAll (Some n # rest) (c # cs) = take n (c # cs) @ SendAll rest (drop n (c # cs))"
| "SendAll _ _ = []"

datatype listen_answer = LnNoWinsock | LnNoSocket | LnRefused nat | LnOk

record http_server =
  hsPort :: int
  hsRunning :: bool

definition new_server :: http_server where
  "new_server = \<lparr>hsPort = 0, hsRunning = False\<rparr>"

definition hs_Stop :: "http_server \<Rightarrow> http_server" where
  "hs_Stop s = s\<lparr>hsRunning := False\<rparr>"

text \<open>The reason when the port cannot be bound; the socket is on the loopback address only.\<close>

definition hs_Start :: "listen_answer \<Rightarrow> int \<Rightarrow> http_server \<Rightarrow> string option \<times> http_server" where
  "hs_Start answer port s0 =
     (let s = hs_Stop s0 in case answer of
        LnNoWinsock \<Rightarrow> (Some ''WSAStartup failed'', s)
      | LnNoSocket \<Rightarrow> (Some ''socket() failed'', s)
      | LnRefused err \<Rightarrow> (Some (''cannot listen on 127.0.0.1:'' @ int_to_string port @ '' (error '' @ to_string err @
          ''; is the port in use?)''), s)
      | LnOk \<Rightarrow> (None, s\<lparr>hsPort := port, hsRunning := True\<rparr>))"

text \<open>
  The accept loop: each turn finds \<open>stopping_\<close> set or not, and a client with the pieces it sends, or
  none.
\<close>

fun hs_Loop ::
  "(http_request \<Rightarrow> 's \<Rightarrow> http_response option \<times> 's) \<Rightarrow> (bool \<times> string list option) list \<Rightarrow> 's
     \<Rightarrow> http_response option list \<times> 's" where
  "hs_Loop handler [] st = ([], st)"
| "hs_Loop handler ((stopping, client) # turns) st =
     (if stopping then ([], st)
      else (case client of
          None \<Rightarrow> hs_Loop handler turns st
        | Some pieces \<Rightarrow>
            (let (r, st1) = Serve handler pieces st; (rs, st2) = hs_Loop handler turns st1 in (r # rs, st2))))"

section \<open>Query strings\<close>

text \<open>A client's encoding: letters and digits as they are, every other byte in hexadecimal.\<close>

definition plain_char :: "char \<Rightarrow> bool" where
  "plain_char c \<longleftrightarrow> (48 \<le> byte c \<and> byte c \<le> 57) \<or> (65 \<le> byte c \<and> byte c \<le> 90) \<or> (97 \<le> byte c \<and> byte c \<le> 122)"

fun url_encode :: "string \<Rightarrow> string" where
  "url_encode [] = []"
| "url_encode (c # cs) = (if plain_char c then [c] else CHR ''%'' # ToHex [c]) @ url_encode cs"

fun query_of :: "(string \<times> string) list \<Rightarrow> string" where
  "query_of [] = []"
| "query_of [(k, v)] = url_encode k @ CHR ''='' # url_encode v"
| "query_of ((k, v) # ps) = url_encode k @ CHR ''='' # url_encode v @ CHR ''&'' # query_of ps"

lemma UrlDecode_encode: "UrlDecode (url_encode s) = s"
proof (induction s)
  case (Cons c cs)
  show ?case
  proof (cases "plain_char c")
    case True
    then have "c \<noteq> CHR ''+''" "c \<noteq> CHR ''%''" by (auto simp: plain_char_def byte_def)
    then show ?thesis using True Cons by simp
  next
    case False
    have "byte c div 16 < 16" using byte_less [of c] by simp
    then show ?thesis using False Cons by (simp add: hex_value_digit)
  qed
qed simp

lemma hex_digit_chars: "n < 16 \<Longrightarrow> hex_digits ! n \<noteq> CHR ''='' \<and> hex_digits ! n \<noteq> CHR ''&''"
proof -
  have "\<forall>n \<in> set [0..<16]. hex_digits ! n \<noteq> CHR ''='' \<and> hex_digits ! n \<noteq> CHR ''&''" by code_simp
  then show "n < 16 \<Longrightarrow> ?thesis" by simp
qed

lemma url_encode_chars: "CHR ''='' \<notin> set (url_encode s)" "CHR ''&'' \<notin> set (url_encode s)"
proof -
  have "CHR ''='' \<notin> set (url_encode s) \<and> CHR ''&'' \<notin> set (url_encode s)"
  proof (induction s)
    case (Cons c cs)
    have "byte c div 16 < 16" using byte_less [of c] by simp
    then show ?case using Cons hex_digit_chars [of "byte c div 16"] hex_digit_chars [of "byte c mod 16"]
      by (auto simp: plain_char_def byte_def)
  qed simp
  then show "CHR ''='' \<notin> set (url_encode s)" "CHR ''&'' \<notin> set (url_encode s)" by auto
qed

lemma split_char_none: "d \<notin> set s \<Longrightarrow> split_char d s = [s]"
  by (induction s) auto

lemma split_char_first: "d \<notin> set s \<Longrightarrow> split_char d (s @ d # t) = s # split_char d t"
  by (induction s) auto

lemma before_after_char:
  "d \<notin> set s \<Longrightarrow> before_char d (s @ d # t) = s" "d \<notin> set s \<Longrightarrow> after_char d (s @ d # t) = Some t"
  by (induction s) (auto simp: before_char_def after_char_def)

lemma split_query:
  "ps \<noteq> [] \<Longrightarrow> split_char CHR ''&'' (query_of ps) = map (\<lambda>(k, v). url_encode k @ CHR ''='' # url_encode v) ps"
proof (induction ps rule: query_of.induct)
  case (2 k v)
  then show ?case using url_encode_chars by (simp add: split_char_none)
next
  case (3 k v p ps)
  have "CHR ''&'' \<notin> set (url_encode k @ CHR ''='' # url_encode v)" using url_encode_chars by simp
  from split_char_first [OF this] 3 show ?case by simp
qed simp

text \<open>
  C36.  A query string is read back.  For any list of names and values, however many and whatever bytes
  they hold, the value found under a name in the encoded query is that of its first occurrence in the
  list, and empty when there is none; this is what the endpoints that take a parameter receive.
\<close>

theorem query_round_trip:
  assumes "rqQuery r = query_of ps" and "ps \<noteq> []"
  shows "QueryParam name r = (case map_of ps name of None \<Rightarrow> [] | Some v \<Rightarrow> v)"
proof -
  have "find_param name (map (\<lambda>(k, v). url_encode k @ CHR ''='' # url_encode v) qs) =
      (case map_of qs name of None \<Rightarrow> [] | Some v \<Rightarrow> v)" for qs
    using url_encode_chars(1) by (induction qs) (auto simp: before_after_char UrlDecode_encode)
  then show ?thesis using assms by (simp add: QueryParam_def split_query)
qed

theorem query_round_trip_witness:
  "QueryParam ''offset'' \<lparr>rqMethod = ''GET'', rqPath = ''/api/log'', rqQuery = query_of [(''a'', ''&=''), (''offset'', ''17'')],
     rqHeaders = [], rqBody = []\<rparr> = ''17''"
  using query_round_trip [of "\<lparr>rqMethod = ''GET'', rqPath = ''/api/log'',
      rqQuery = query_of [(''a'', ''&=''), (''offset'', ''17'')], rqHeaders = [], rqBody = []\<rparr>"
      "[(''a'', ''&=''), (''offset'', ''17'')]" "''offset''"] by simp

end
