(* ===== verification/SessionGuard.thy ===== *)
theory SessionGuard
  imports SecureChannel_Facts
begin

text \<open>
  \<open>src/service/SessionGuard.h\<close>: the dashboard's session.  A time point is an integer number of
  nanoseconds; the time of a call and the key the generator would hand out are its arguments.
\<close>

definition seconds :: "int \<Rightarrow> int" where "seconds n = n * 1000000000"

record session_limits =
  slIdle :: int
  slAbsolute :: int
  slMaxFailures :: int
  slFailureWindow :: int
  slLockout :: int

definition default_limits :: session_limits where
  "default_limits = \<lparr>slIdle = seconds (30 * 60), slAbsolute = seconds (12 * 60 * 60), slMaxFailures = 10,
     slFailureWindow = seconds 60, slLockout = seconds 60\<rparr>"

datatype session_result = SrOk | SrInvalid | SrExpired | SrLocked

record session_guard =
  sgKey :: string
  sgIssued :: int
  sgLastUse :: int
  sgLockedUntil :: int
  sgFailures :: "int list"

definition new_guard :: session_guard where
  "new_guard = \<lparr>sgKey = [], sgIssued = 0, sgLastUse = 0, sgLockedUntil = 0, sgFailures = []\<rparr>"

definition ExpiredLocked :: "session_limits \<Rightarrow> int \<Rightarrow> session_guard \<Rightarrow> bool" where
  "ExpiredLocked L t g = (t - sgLastUse g > slIdle L \<or> t - sgIssued g > slAbsolute L)"

definition CurrentOrNewKey :: "session_limits \<Rightarrow> int \<Rightarrow> string \<Rightarrow> session_guard \<Rightarrow> string \<times> session_guard" where
  "CurrentOrNewKey L t fresh g =
     (let g' = (if sgKey g = [] \<or> ExpiredLocked L t g
                then g\<lparr>sgKey := fresh, sgIssued := t, sgLastUse := t\<rparr> else g)
      in (sgKey g', g'))"

text \<open>The loop drops failures from the front while they are outside the window.\<close>

definition recent_failures :: "session_limits \<Rightarrow> int \<Rightarrow> int list \<Rightarrow> int list" where
  "recent_failures L t fs = dropWhile (\<lambda>f. t - f > slFailureWindow L) (fs @ [t])"

definition Check :: "session_limits \<Rightarrow> int \<Rightarrow> string \<Rightarrow> session_guard \<Rightarrow> session_result \<times> session_guard" where
  "Check L t presented g =
     (if t < sgLockedUntil g then (SrLocked, g)
      else if sgKey g = [] \<or> \<not> ConstantTimeEqual presented (sgKey g) then
        (let fs = recent_failures L t (sgFailures g) in
         if int (length fs) \<ge> slMaxFailures L
         then (SrLocked, g\<lparr>sgLockedUntil := t + slLockout L, sgFailures := []\<rparr>)
         else (SrInvalid, g\<lparr>sgFailures := fs\<rparr>))
      else if ExpiredLocked L t g then (SrExpired, g\<lparr>sgKey := []\<rparr>)
      else (SrOk, g\<lparr>sgLastUse := t\<rparr>))"

definition Revoke :: "session_guard \<Rightarrow> session_guard" where
  "Revoke g = g\<lparr>sgKey := []\<rparr>"

section \<open>Runs\<close>

text \<open>The calls of a run, in order; a \<open>GeIssue\<close> carries the key the generator would return.\<close>

datatype guard_event = GeIssue int string | GeCheck int string | GeRevoke

fun guard_step :: "session_limits \<Rightarrow> guard_event \<Rightarrow> session_guard \<Rightarrow> session_guard" where
  "guard_step L (GeIssue t k) g = snd (CurrentOrNewKey L t k g)"
| "guard_step L (GeCheck t p) g = snd (Check L t p g)"
| "guard_step L GeRevoke g = Revoke g"

fun guard_run :: "session_limits \<Rightarrow> guard_event list \<Rightarrow> session_guard \<Rightarrow> session_guard" where
  "guard_run L [] g = g"
| "guard_run L (e # es) g = guard_run L es (guard_step L e g)"

lemma guard_run_append: "guard_run L (a @ b) g = guard_run L b (guard_run L a g)"
  by (induction a arbitrary: g) auto

text \<open>The key in force was issued at the recorded time, and not revoked since.\<close>

definition key_history :: "guard_event list \<Rightarrow> session_guard \<Rightarrow> bool" where
  "key_history evs g \<longleftrightarrow> (sgKey g = [] \<or>
     (\<exists>a b. evs = a @ GeIssue (sgIssued g) (sgKey g) # b \<and> GeRevoke \<notin> set b))"

lemma key_history_step:
  assumes "key_history evs g"
  shows "key_history (evs @ [e]) (guard_step L e g)"
proof -
  have keep: "key_history (evs @ [e]) g'" if "sgKey g' = sgKey g" "sgIssued g' = sgIssued g" "e \<noteq> GeRevoke" for g'
  proof (cases "sgKey g = []")
    case False
    then obtain a b where "evs = a @ GeIssue (sgIssued g) (sgKey g) # b" "GeRevoke \<notin> set b"
      using assms unfolding key_history_def by blast
    then have "evs @ [e] = a @ GeIssue (sgIssued g') (sgKey g') # (b @ [e])" "GeRevoke \<notin> set (b @ [e])"
      using that by simp_all
    then show ?thesis unfolding key_history_def by blast
  qed (simp add: key_history_def that)
  have gone: "key_history (evs @ [e]) g'" if "sgKey g' = []" for g'
    using that by (simp add: key_history_def)
  show ?thesis
  proof (cases e)
    case (GeIssue t k)
    show ?thesis
    proof (cases "sgKey g = [] \<or> ExpiredLocked L t g")
      case True
      have "\<exists>a b. evs @ [GeIssue t k] = a @ GeIssue t k # b \<and> GeRevoke \<notin> set b" by force
      then show ?thesis using GeIssue True by (simp add: CurrentOrNewKey_def Let_def key_history_def)
    next
      case False
      then show ?thesis using GeIssue keep by (simp add: CurrentOrNewKey_def Let_def)
    qed
  next
    case (GeCheck t p)
    then show ?thesis using keep gone by (auto simp: Check_def Let_def)
  next
    case GeRevoke
    then show ?thesis using gone by (simp add: Revoke_def)
  qed
qed

lemma key_history_run: "key_history evs g \<Longrightarrow> key_history (evs @ es) (guard_run L es g)"
proof (induction es arbitrary: evs g)
  case (Cons e es)
  from Cons.IH [OF key_history_step [OF Cons.prems, of e L]] show ?case by simp
qed simp

section \<open>Properties\<close>

text \<open>
  C34.  An accepted key is a live one.  If a call is answered \<open>Ok\<close> after any run, the text presented is
  non-empty and is a key the generator issued in that run, at most the absolute lifetime ago, not
  signed out since, with the last accepted use at most the idle limit ago; and the guard was not
  locked.
\<close>

theorem accepted_key_is_live:
  assumes "fst (Check L t presented (guard_run L evs new_guard)) = SrOk"
  shows "presented \<noteq> [] \<and> sgLockedUntil (guard_run L evs new_guard) \<le> t \<and>
    t - sgLastUse (guard_run L evs new_guard) \<le> slIdle L \<and>
    (\<exists>a i b. evs = a @ GeIssue i presented # b \<and> GeRevoke \<notin> set b \<and> t - i \<le> slAbsolute L)"
proof -
  let ?g = "guard_run L evs new_guard"
  have h: "key_history evs ?g"
    using key_history_run [of "[]" new_guard evs L] by (simp add: key_history_def new_guard_def)
  have ok: "\<not> t < sgLockedUntil ?g" "sgKey ?g \<noteq> []" "presented = sgKey ?g" "\<not> ExpiredLocked L t ?g"
    using assms by (auto simp: Check_def Let_def split: if_splits)
  then obtain a b where "evs = a @ GeIssue (sgIssued ?g) presented # b" "GeRevoke \<notin> set b"
    using h unfolding key_history_def by blast
  moreover have "t - sgIssued ?g \<le> slAbsolute L" "t - sgLastUse ?g \<le> slIdle L"
    using ok(4) by (simp_all add: ExpiredLocked_def)
  ultimately show ?thesis using ok by auto
qed

theorem accepted_key_is_live_witness:
  "\<exists>a i b. [GeIssue 5 ''k'', GeCheck 7 ''x''] = a @ GeIssue i ''k'' # b \<and> GeRevoke \<notin> set b \<and>
     9 - i \<le> slAbsolute default_limits"
  using accepted_key_is_live [of default_limits 9 "''k''" "[GeIssue 5 ''k'', GeCheck 7 ''x'']"]
  by (simp add: Check_def CurrentOrNewKey_def Let_def new_guard_def default_limits_def seconds_def
      recent_failures_def ExpiredLocked_def)

text \<open>A run of wrong keys; only calls that find the guard unlocked are compared with the key.\<close>

fun guesses_compared :: "session_limits \<Rightarrow> (int \<times> string) list \<Rightarrow> session_guard \<Rightarrow> nat" where
  "guesses_compared L [] g = 0"
| "guesses_compared L ((t, p) # gs) g =
     (if t < sgLockedUntil g then 0 else 1) + guesses_compared L gs (snd (Check L t p g))"

lemma locked_compares_nothing:
  "\<forall>x \<in> set gs. fst x < sgLockedUntil g \<Longrightarrow> guesses_compared L gs g = 0"
  by (induction gs) (auto simp: Check_def)

lemma recent_suffix:
  assumes "\<forall>f \<in> set new. t - f \<le> slFailureWindow L" and "0 \<le> slFailureWindow L"
  shows "\<exists>old'. recent_failures L t (old @ new) = old' @ new @ [t]"
proof -
  have "dropWhile (\<lambda>f. t - f > slFailureWindow L) (new @ [t]) = new @ [t]"
    using assms by (cases new) auto
  then show ?thesis unfolding recent_failures_def append_assoc
    by (induction old) auto
qed

lemma guesses_bound:
  assumes "\<forall>x \<in> set gs. t0 \<le> fst x \<and> fst x < t0 + slFailureWindow L \<and> snd x \<noteq> sgKey g"
    and "slFailureWindow L \<le> slLockout L" and "0 \<le> slFailureWindow L"
    and "sgFailures g = old @ new" and "\<forall>f \<in> set new. t0 \<le> f \<and> f \<le> t0 + slFailureWindow L"
    and "int (length new) < slMaxFailures L"
  shows "int (guesses_compared L gs g) + int (length new) \<le> slMaxFailures L"
  using assms(1,4,5,6)
proof (induction gs arbitrary: g old new)
  case (Cons x gs)
  obtain t p where x: "x = (t, p)" by (cases x)
  then have t: "t0 \<le> t" "t < t0 + slFailureWindow L" "p \<noteq> sgKey g" using Cons.prems(1) by auto
  show ?case
  proof (cases "t < sgLockedUntil g")
    case True
    then have "Check L t p g = (SrLocked, g)" by (simp add: Check_def)
    then show ?thesis using True Cons x by simp
  next
    case False
    have "\<forall>f \<in> set new. t - f \<le> slFailureWindow L" using Cons.prems(3) t by auto
    then obtain old' where fs: "recent_failures L t (sgFailures g) = old' @ new @ [t]"
      using recent_suffix assms(3) Cons.prems(2) by metis
    show ?thesis
    proof (cases "int (length (recent_failures L t (sgFailures g))) \<ge> slMaxFailures L")
      case True
      then have "Check L t p g = (SrLocked, g\<lparr>sgLockedUntil := t + slLockout L, sgFailures := []\<rparr>)"
        using False t(3) by (simp add: Check_def Let_def)
      moreover have "guesses_compared L gs (g\<lparr>sgLockedUntil := t + slLockout L, sgFailures := []\<rparr>) = 0"
        using Cons.prems(1) t(1) assms(2) by (intro locked_compares_nothing) fastforce
      ultimately show ?thesis using False x Cons.prems(4) by simp
    next
      case ok: False
      let ?g = "g\<lparr>sgFailures := old' @ new @ [t]\<rparr>"
      have "Check L t p g = (SrInvalid, ?g)"
        using False t(3) ok fs by (simp add: Check_def Let_def)
      moreover have "int (length (new @ [t])) < slMaxFailures L" using ok fs by simp
      then have "int (guesses_compared L gs ?g) + int (length (new @ [t])) \<le> slMaxFailures L"
        using Cons.prems(1,3) t by (intro Cons.IH [where old = old']) auto
      ultimately show ?thesis using False x by simp
    qed
  qed
qed simp



end
