(* ===== verification/Dashboard.thy ===== *)
theory Dashboard
  imports Http SessionGuard ProcessTable Json
begin

text \<open>
  \<open>src/service/Dashboard.h/.cpp\<close>: the handler of the dashboard's HTTP requests.  The daemon it calls is
  the record \<open>daemon_api\<close>, whose operations act on a state of any type \<open>'d\<close> and may throw (\<open>None\<close>);
  the theory of the daemon provides it.  The JSON library's printer and parser and the static files
  are parameters.
\<close>

section \<open>What the handler uses\<close>

record 'd daemon_api =
  daStatus :: "'d \<Rightarrow> string \<times> 'd"
  daReadLog :: "int \<Rightarrow> 'd \<Rightarrow> string"
  daSafetyOf :: "string \<Rightarrow> 'd \<Rightarrow> safety_info"
  daHandleCommand :: "string \<Rightarrow> 'd \<Rightarrow> string option \<times> 'd"
  daSetRole :: "string \<Rightarrow> string \<Rightarrow> bool \<Rightarrow> 'd \<Rightarrow> string option \<times> 'd"

record dash_env =
  deLimits :: session_limits
  deNow :: int
  dePort :: nat
  deFile :: "string \<Rightarrow> string option"
  deRoot :: string
  deDump :: "json \<Rightarrow> string"
  deParse :: "string \<Rightarrow> json option"
  deProcesses :: string

section \<open>Responses\<close>

definition json_reply :: "dash_env \<Rightarrow> nat \<Rightarrow> json \<Rightarrow> http_response" where
  "json_reply env status j = default_response\<lparr>rsStatus := status, rsBody := deDump env j\<rparr>"

definition error_reply :: "dash_env \<Rightarrow> nat \<Rightarrow> string \<Rightarrow> http_response" where
  "error_reply env status m = json_reply env status (JObj [(''message'', JStr m), (''ok'', JBool False)])"

definition body_reply :: "string \<Rightarrow> http_response" where
  "body_reply b = default_response\<lparr>rsBody := b\<rparr>"

text \<open>\<open>std::stoll\<close> on the offset: \<open>None\<close> where it throws.\<close>

definition stoll :: "string \<Rightarrow> int option" where
  "stoll s =
     (let s1 = dropWhile c_space s;
          (neg, s2) = (case s1 of [] \<Rightarrow> (False, [])
             | c # r \<Rightarrow> if c = CHR ''-'' then (True, r) else if c = CHR ''+'' then (False, r) else (False, s1));
          ds = takeWhile is_digit s2;
          v = (if neg then - int (digits_value ds) else int (digits_value ds))
      in if ds = [] \<or> v < - (2 ^ 63) \<or> v \<ge> 2 ^ 63 then None else Some v)"

definition has_prefix :: "string \<Rightarrow> string \<Rightarrow> bool" where
  "has_prefix p s = (take (length p) s = p)"

definition loopback_host :: "nat \<Rightarrow> string" where
  "loopback_host port = ''127.0.0.1:'' @ to_string port"

definition localhost_name :: "nat \<Rightarrow> string" where
  "localhost_name port = ''localhost:'' @ to_string port"

definition http_scheme :: string where "http_scheme = ''http://''"

definition Authorized :: "dash_env \<Rightarrow> http_request \<Rightarrow> http_response option" where
  "Authorized env req =
     (let host = Header ''host'' req; org = Header ''origin'' req; port = dePort env in
      if host \<noteq> loopback_host port \<and> host \<noteq> localhost_name port
      then Some (error_reply env 403 (''requests must use '' @ http_scheme @ loopback_host port))
      else if org \<noteq> [] \<and> org \<noteq> http_scheme @ loopback_host port \<and> org \<noteq> http_scheme @ localhost_name port
      then Some (error_reply env 403 ''cross-origin requests are not allowed'')
      else None)"

definition assets :: "(string \<times> string \<times> string) list" where
  "assets = [(''/index.html'', ''index.html'', ''text/html; charset=utf-8''),
     (''/app.js'', ''app.js'', ''text/javascript; charset=utf-8''),
     (''/styles.css'', ''styles.css'', ''text/css; charset=utf-8'')]"

definition plain_type :: string where "plain_type = ''text/plain; charset=utf-8''"

definition ServeFile :: "dash_env \<Rightarrow> string \<Rightarrow> http_response" where
  "ServeFile env path =
     (case map_of assets path of
        None \<Rightarrow> \<lparr>rsStatus = 404, rsContentType = plain_type, rsBody = ''Not found''\<rparr>
      | Some (file, type) \<Rightarrow>
          (case deFile env file of
             None \<Rightarrow> \<lparr>rsStatus = 500, rsContentType = plain_type, rsBody = ''Dashboard files not found in '' @
               deRoot env @ ''. Re-run build.cmd or the installer.''\<rparr>
           | Some content \<Rightarrow> \<lparr>rsStatus = 200, rsContentType = type, rsBody = content\<rparr>))"

section \<open>Commands\<close>

definition command_verbs :: "string list" where
  "command_verbs = [''throttle'', ''suspend'', ''resume'', ''release'', ''exempt'']"

definition needs_no_confirmation :: "string \<Rightarrow> bool" where
  "needs_no_confirmation verb = (verb = ''release'' \<or> verb = ''resume'' \<or> verb = ''exempt'')"

definition blank_char :: "char \<Rightarrow> bool" where
  "blank_char c = (c = CHR '' '' \<or> c = CHR 0x09 \<or> c = CHR 0x0D \<or> c = CHR 0x0A)"

definition confirmation_reply :: "dash_env \<Rightarrow> safety_info \<Rightarrow> http_response" where
  "confirmation_reply env s = json_reply env 200 (JObj [(''message'', JStr (siReason s)),
     (''needs_confirmation'', JBool True), (''ok'', JBool False), (''safety'', JStr (SafetyName (siLevel s)))])"

text \<open>The calls of the daemon that change its state, in order.\<close>

datatype daemon_call = CallStatus | CallCommand string | CallRole string string bool

type_synonym 'd handled = "http_response option \<times> 'd \<times> daemon_call list"

definition do_command :: "'d daemon_api \<Rightarrow> string \<Rightarrow> 'd \<Rightarrow> 'd handled" where
  "do_command api line d =
     (let (reply, d') = daHandleCommand api line d in (map_option body_reply reply, d', [CallCommand line]))"

definition command_endpoint :: "'d daemon_api \<Rightarrow> dash_env \<Rightarrow> json \<Rightarrow> 'd \<Rightarrow> 'd handled" where
  "command_endpoint api env body d =
     (case bindE (value_string body ''command'' []) (\<lambda>v. bindE (value_string body ''target'' []) (\<lambda>t. Inr (v, t))) of
        Inl _ \<Rightarrow> (None, d, [])
      | Inr (verb, target) \<Rightarrow>
          if verb \<notin> set command_verbs
          then (Some (error_reply env 400 ''command must be throttle, suspend, resume, release or exempt''), d, [])
          else if target = [] \<or> (\<exists>c \<in> set target. blank_char c)
          then (Some (error_reply env 400 ''target must be a PID or an executable name''), d, [])
          else if needs_no_confirmation verb
          then do_command api (verb @ '' '' @ target) d
          else
            (case value_bool body ''confirm'' False of
               Inl _ \<Rightarrow> (None, d, [])
             | Inr True \<Rightarrow> do_command api (verb @ '' '' @ target) d
             | Inr False \<Rightarrow>
                 (let s = daSafetyOf api target d in
                  if siLevel s = SfSystem \<or> siLevel s = SfService then (Some (confirmation_reply env s), d, [])
                  else do_command api (verb @ '' '' @ target) d)))"

definition role_endpoint :: "'d daemon_api \<Rightarrow> json \<Rightarrow> 'd \<Rightarrow> 'd handled" where
  "role_endpoint api body d =
     (case bindE (value_string body ''name'' []) (\<lambda>n. bindE (value_string body ''role'' []) (\<lambda>r.
             bindE (value_bool body ''confirm'' False) (\<lambda>c. Inr (n, r, c)))) of
        Inl _ \<Rightarrow> (None, d, [])
      | Inr (name, role, c) \<Rightarrow>
          (let (reply, d') = daSetRole api name role c d
           in (map_option body_reply reply, d', [CallRole name role c])))"

definition post_endpoint :: "'d daemon_api \<Rightarrow> dash_env \<Rightarrow> http_request \<Rightarrow> 'd \<Rightarrow> 'd handled" where
  "post_endpoint api env req d =
     (if \<not> has_prefix ''application/json'' (Header ''content-type'' req)
      then (Some (error_reply env 400 ''Content-Type must be application/json''), d, [])
      else (case deParse env (rqBody req) of
          None \<Rightarrow> (Some (error_reply env 400 ''body must be a JSON object''), d, [])
        | Some body \<Rightarrow>
            if \<not> is_object body then (Some (error_reply env 400 ''body must be a JSON object''), d, [])
            else if rqPath req = ''/api/command'' then command_endpoint api env body d
            else role_endpoint api body d))"

definition log_endpoint :: "'d daemon_api \<Rightarrow> dash_env \<Rightarrow> http_request \<Rightarrow> 'd \<Rightarrow> http_response" where
  "log_endpoint api env req d =
     (let off = QueryParam ''offset'' req in
      if off = [] then body_reply (daReadLog api (-1) d)
      else (case stoll off of
          None \<Rightarrow> error_reply env 400 ''bad offset''
        | Some n \<Rightarrow> body_reply (daReadLog api n d)))"

text \<open>What an accepted API call does; the second component tells whether the session is revoked.\<close>

definition api_endpoint :: "'d daemon_api \<Rightarrow> dash_env \<Rightarrow> http_request \<Rightarrow> 'd \<Rightarrow> bool \<times> 'd handled" where
  "api_endpoint api env req d =
     (let m = rqMethod req; p = rqPath req in
      if m = ''POST'' \<and> p = ''/api/logout''
      then (True, Some (json_reply env 200 (JObj [(''message'', JStr ''signed out''), (''ok'', JBool True)])), d, [])
      else if m = ''GET'' \<and> p = ''/api/status'' 
        then (let (s, d') = daStatus api d in (False, Some (body_reply s), d', [CallStatus]))
      else if m = ''GET'' \<and> p = ''/api/processes'' then (False, Some (body_reply (deProcesses env)), d, [])
      else if m = ''GET'' \<and> p = ''/api/log'' then (False, Some (log_endpoint api env req d), d, [])
      else if m = ''POST'' \<and> (p = ''/api/command'' \<or> p = ''/api/role'') then (False, post_endpoint api env req d)
      else (False, Some (error_reply env (if m = ''GET'' \<or> m = ''POST'' then 404 else 405) ''unknown endpoint''), d, []))"

definition denied_reply :: "dash_env \<Rightarrow> session_result \<Rightarrow> http_response" where
  "denied_reply env r = (case r of
      SrLocked \<Rightarrow> error_reply env 429 ''too many invalid tokens; try again in a minute''
    | SrExpired \<Rightarrow> error_reply env 401 (''dashboard session expired; run '' @ CHR 0x27 #
        ''ThreadHaulDaemon.exe dashboard'' @ CHR 0x27 # '' for a new link'')
    | _ \<Rightarrow> error_reply env 401 (''missing or invalid dashboard token; open the dashboard with '' @ CHR 0x27 #
        ''ThreadHaulDaemon.exe dashboard'' @ [CHR 0x27]))"

definition Handle ::
  "'d daemon_api \<Rightarrow> dash_env \<Rightarrow> http_request \<Rightarrow> session_guard \<Rightarrow> 'd \<Rightarrow> session_guard \<times> 'd handled" where
  "Handle api env req g d =
     (case Authorized env req of
        Some res \<Rightarrow> (g, Some res, d, [])
      | None \<Rightarrow>
          if \<not> has_prefix ''/api/'' (rqPath req) then
            (g, Some (if rqMethod req \<noteq> ''GET'' then error_reply env 405 ''method not allowed''
               else ServeFile env (if rqPath req = ''/'' then ''/index.html'' else rqPath req)), d, [])
          else
            (case Check (deLimits env) (deNow env) (Header ''x-threadhaul-token'' req) g of
               (SrOk, g') \<Rightarrow>
                 (let (revoked, h) = api_endpoint api env req d in (if revoked then Revoke g' else g', h))
             | (r, g') \<Rightarrow> (g', Some (denied_reply env r), d, [])))"

section \<open>Starting and stopping\<close>

record dashboard =
  dbServer :: "http_server option"
  dbPort :: int

text \<open>24 random bytes; the program aborts when there are none.\<close>

definition RandomToken :: "string \<Rightarrow> string" where
  "RandomToken bytes = ToHex bytes"

definition dash_Stop :: "dashboard \<Rightarrow> dashboard" where
  "dash_Stop db = db\<lparr>dbServer := None\<rparr>"

definition dash_Start :: "listen_answer \<Rightarrow> int \<Rightarrow> dashboard \<Rightarrow> string option \<times> dashboard" where
  "dash_Start answer port db0 =
     (let db = dash_Stop db0; (err, server) = hs_Start answer port new_server in
      case err of
        Some e \<Rightarrow> (Some e, db)
      | None \<Rightarrow> (None, db\<lparr>dbServer := Some server, dbPort := port\<rparr>))"

definition Url :: "session_limits \<Rightarrow> int \<Rightarrow> string \<Rightarrow> dashboard \<Rightarrow> session_guard \<Rightarrow> string \<times> session_guard" where
  "Url L t fresh db g =
     (let (key, g') = CurrentOrNewKey L t fresh g
      in (http_scheme @ ''127.0.0.1:'' @ int_to_string (dbPort db) @ ''/#token='' @ key, g'))"

lemma dash_Start_port:
  "dash_Start answer port db = (None, db') \<Longrightarrow>
   dbPort db' = port \<and> dbServer db' = Some \<lparr>hsPort = port, hsRunning = True\<rparr>"
  by (auto simp: dash_Start_def hs_Start_def hs_Stop_def new_server_def Let_def split: listen_answer.splits)

section \<open>The process list\<close>

text \<open>\<open>CharLowerBuffW\<close> is a parameter; the lists are those of \<open>ProcessRolesJson\<close>, in lower case.\<close>

record role_lists =
  rlCritical :: "string list"
  rlBatch :: "string list"
  rlProtected :: "string list"
  rlBuiltin :: "string list"
  rlStates :: "(dword \<times> string) list"

definition role_of :: "role_lists \<Rightarrow> string \<Rightarrow> string" where
  "role_of rl key =
     (if key \<in> set (rlCritical rl) then ''critical'' else if key \<in> set (rlBatch rl) then ''batch''
      else if key \<in> set (rlProtected rl) then ''protected'' else ''none'')"

definition tenths :: "double \<Rightarrow> double" where
  "tenths x = of_int (trunc (x * 10 + 1 / 2)) / 10"

definition process_json :: "(wstring \<Rightarrow> string) \<Rightarrow> role_lists \<Rightarrow> table_row \<Rightarrow> json" where
  "process_json lower rl r =
     (let key = lower (rwName r); s = rwSafety r in
      JObj [(''accessible'', JBool (rwAccessible r)), (''cpu_percent'', JReal (tenths (rwCpuPercent r))),
        (''memory_mb'', JReal (tenths (rwWorkingSetMb r))), (''name'', JStr (rwName r)),
        (''path'', JStr (siImagePath s)), (''pid'', JInt (uint (rwPid r))), (''role'', JStr (role_of rl key)),
        (''safety'', JStr (SafetyName (siLevel s))), (''safety_reason'', JStr (siReason s)),
        (''state'', JStr (case map_of (rlStates rl) (rwPid r) of None \<Rightarrow> [] | Some st \<Rightarrow> st)),
        (''system_protected'', JBool (siLevel s = SfEssential \<or> key \<in> set (rlBuiltin rl)))])"

definition Processes :: "(wstring \<Rightarrow> string) \<Rightarrow> role_lists \<Rightarrow> table_row list \<Rightarrow> system_info \<Rightarrow> json" where
  "Processes lower rl rows sys =
     JObj [(''ok'', JBool True), (''processes'', JArr (map (process_json lower rl) rows)),
       (''system'', JObj [(''cpu_percent'', JReal (tenths (syCpuPercent sys))),
          (''logical_cores'', JInt (uint (syLogicalCores sys))),
          (''memory_load_percent'', JReal (syMemoryLoadPercent sys)),
          (''memory_total_gb'', JReal (tenths (syMemoryTotalGb sys))),
          (''memory_used_gb'', JReal (tenths (syMemoryUsedGb sys))),
          (''process_count'', JInt (uint (syProcessCount sys)))])]"

section \<open>Mediation\<close>

lemma do_command_calls: "snd (snd (do_command api line d)) = [CallCommand line]"
  by (simp add: do_command_def split_beta)

text \<open>A command endpoint either leaves the daemon alone or runs one command that passed every check.\<close>

definition command_allowed :: "'d daemon_api \<Rightarrow> json \<Rightarrow> 'd \<Rightarrow> string \<Rightarrow> string \<Rightarrow> bool" where
  "command_allowed api body d verb target \<longleftrightarrow>
     value_string body ''command'' [] = Inr verb \<and> value_string body ''target'' [] = Inr target \<and>
     verb \<in> set command_verbs \<and> target \<noteq> [] \<and> (\<forall>c \<in> set target. \<not> blank_char c) \<and>
     (needs_no_confirmation verb \<or> value_bool body ''confirm'' False = Inr True \<or>
      siLevel (daSafetyOf api target d) = SfNormal \<or> siLevel (daSafetyOf api target d) = SfEssential)"

lemma command_endpoint_calls:
  "snd (command_endpoint api env body d) = (d, []) \<or>
   (\<exists>verb target. command_allowed api body d verb target \<and>
      command_endpoint api env body d = do_command api (verb @ '' '' @ target) d)"
proof (cases "\<exists>verb target. value_string body ''command'' [] = Inr verb \<and> value_string body ''target'' [] = Inr target")
  case False
  then show ?thesis unfolding command_endpoint_def
    by (cases "value_string body ''command'' []"; cases "value_string body ''target'' []")
      (simp_all only: bindE.simps sum.case snd_conv simp_thms, auto)
next
  case True
  then obtain verb target where vt: "value_string body ''command'' [] = Inr verb" "value_string body ''target'' [] = Inr target"
    by blast
  have lvl: "l = SfSystem \<or> l = SfService \<or> l = SfNormal \<or> l = SfEssential" for l by (cases l) auto
  let ?l = "siLevel (daSafetyOf api target d)"
  have "snd (command_endpoint api env body d) = (d, []) \<or>
      (command_allowed api body d verb target \<and>
       command_endpoint api env body d = do_command api (verb @ '' '' @ target) d)"
    unfolding command_endpoint_def command_allowed_def vt bindE.simps sum.case prod.case Let_def
    using lvl [of ?l] by (auto split: if_split sum.split bool.split)
  then show ?thesis by blast
qed

lemma post_endpoint_calls:
  "snd (post_endpoint api env req d) = (d, []) \<or>
   has_prefix ''application/json'' (Header ''content-type'' req) \<and>
   (\<exists>body. deParse env (rqBody req) = Some body \<and> is_object body \<and>
     (rqPath req = ''/api/command'' \<and> (\<exists>verb target. command_allowed api body d verb target \<and>
        post_endpoint api env req d = do_command api (verb @ '' '' @ target) d) \<or>
      rqPath req \<noteq> ''/api/command'' \<and> post_endpoint api env req d = role_endpoint api body d))"
proof (cases "deParse env (rqBody req)")
  case None
  then show ?thesis by (simp add: post_endpoint_def)
next
  case (Some body)
  then show ?thesis using command_endpoint_calls [of api env body d]
    unfolding post_endpoint_def by (auto split: if_split)
qed

text \<open>What an endpoint of the API can do; and that nothing reaches one without the checks.\<close>

lemma api_endpoint_calls:
  assumes "snd (api_endpoint api env req d) = (res, d', calls)"
  shows "calls = [] \<and> d' = d \<or>
    rqMethod req = ''GET'' \<and> rqPath req = ''/api/status'' \<and> calls = [CallStatus] \<and> d' = snd (daStatus api d) \<or>
    rqMethod req = ''POST'' \<and> has_prefix ''application/json'' (Header ''content-type'' req) \<and>
    (\<exists>body. deParse env (rqBody req) = Some body \<and> is_object body \<and>
      (rqPath req = ''/api/command'' \<and> (\<exists>verb target. command_allowed api body d verb target \<and>
         calls = [CallCommand (verb @ '' '' @ target)] \<and> d' = snd (daHandleCommand api (verb @ '' '' @ target) d)) \<or>
       rqPath req = ''/api/role'' \<and> (res, d', calls) = role_endpoint api body d))"
proof (cases "rqMethod req = ''POST'' \<and> (rqPath req = ''/api/command'' \<or> rqPath req = ''/api/role'')")
  case False
  then have "(d', calls) = (d, []) \<or> rqMethod req = ''GET'' \<and> rqPath req = ''/api/status'' \<and>
      (d', calls) = (snd (daStatus api d), [CallStatus])"
    using assms unfolding api_endpoint_def Let_def by (simp only: simp_thms if_False split: if_splits prod.splits) auto
  then show ?thesis by auto
next
  case post: True
  then have "api_endpoint api env req d = (False, post_endpoint api env req d)"
    unfolding api_endpoint_def Let_def by (elim conjE disjE) simp_all
  then have p: "post_endpoint api env req d = (res, d', calls)" using assms by simp
  have "''/api/role'' \<noteq> ''/api/command''" by simp
  then show ?thesis using post_endpoint_calls [of api env req d] p post by (auto simp: do_command_def split_beta)
qed

lemma Handle_checks:
  assumes "Handle api env req g d = (g', res, d', calls)"
  shows "calls = [] \<and> d' = d \<or>
    Header ''host'' req \<in> {loopback_host (dePort env), localhost_name (dePort env)} \<and>
    Header ''origin'' req \<in> {[], http_scheme @ loopback_host (dePort env), http_scheme @ localhost_name (dePort env)} \<and>
    fst (Check (deLimits env) (deNow env) (Header ''x-threadhaul-token'' req) g) = SrOk \<and>
    snd (api_endpoint api env req d) = (res, d', calls)"
proof (cases "Authorized env req = None \<and> has_prefix ''/api/'' (rqPath req)")
  case False
  then show ?thesis using assms unfolding Handle_def
    by (cases "Authorized env req") (simp_all only: option.case if_True if_False simp_thms prod.inject)
next
  case True
  obtain r g1 where c: "Check (deLimits env) (deNow env) (Header ''x-threadhaul-token'' req) g = (r, g1)" by fastforce
  show ?thesis
  proof (cases "r = SrOk")
    case False
    then have "calls = [] \<and> d' = d" using assms True c unfolding Handle_def
      by (cases r) (simp_all only: option.case if_False simp_thms prod.case session_result.case prod.inject)
    then show ?thesis ..
  next
    case ok: True
    then have "snd (api_endpoint api env req d) = (res, d', calls)"
      using assms True c unfolding Handle_def by (simp only: option.case if_False simp_thms prod.case session_result.case)
        (auto simp: split_beta)
    then show ?thesis using True ok c by (auto simp: Authorized_def Let_def split: if_splits)
  qed
qed

text \<open>
  C11.  The dashboard mediates every change.  A request touches the daemon's state only if its Host is
  this machine's own address with the dashboard's port, its Origin is absent or that same address, the
  session accepted its token, and it is either a GET of the status (which refreshes the last processor
  times) or a POST of a JSON object to the command or role endpoint; and then it makes exactly one
  call.  A command passed on is one of the five verbs with a target without blanks, and throttling or
  suspending a process that the daemon classes as part of Windows or as a service was confirmed.
\<close>

theorem dashboard_mediates_changes:
  assumes "Handle api env req g d = (g', res, d', calls)"
  shows "calls = [] \<and> d' = d \<or>
    Header ''host'' req \<in> {loopback_host (dePort env), localhost_name (dePort env)} \<and>
    Header ''origin'' req \<in> {[], http_scheme @ loopback_host (dePort env), http_scheme @ localhost_name (dePort env)} \<and>
    fst (Check (deLimits env) (deNow env) (Header ''x-threadhaul-token'' req) g) = SrOk \<and>
    (rqMethod req = ''GET'' \<and> rqPath req = ''/api/status'' \<and> calls = [CallStatus] \<and> d' = snd (daStatus api d) \<or>
     rqMethod req = ''POST'' \<and> has_prefix ''application/json'' (Header ''content-type'' req) \<and>
     (\<exists>body. deParse env (rqBody req) = Some body \<and> is_object body \<and>
       (rqPath req = ''/api/command'' \<and> (\<exists>verb target. command_allowed api body d verb target \<and>
          calls = [CallCommand (verb @ '' '' @ target)] \<and> d' = snd (daHandleCommand api (verb @ '' '' @ target) d)) \<or>
        rqPath req = ''/api/role'' \<and> (res, d', calls) = role_endpoint api body d)))"
  using Handle_checks [OF assms] api_endpoint_calls [of api env req d res d' calls] by blast

text \<open>A signed-in session exempts the process 7.\<close>

definition toy_api :: "nat daemon_api" where
  "toy_api = \<lparr>daStatus = (\<lambda>d. ([], d)), daReadLog = (\<lambda>n d. []), daSafetyOf = (\<lambda>t d. no_info),
     daHandleCommand = (\<lambda>l d. (Some [], d + 1)), daSetRole = (\<lambda>n r c d. (Some [], d + 1))\<rparr>"

definition toy_body :: json where
  "toy_body = JObj [(''command'', JStr ''exempt''), (''target'', JStr ''7'')]"

definition toy_dash :: dash_env where
  "toy_dash = \<lparr>deLimits = default_limits, deNow = 0, dePort = 80, deFile = (\<lambda>f. None), deRoot = [],
     deDump = (\<lambda>j. []), deParse = (\<lambda>s. Some toy_body), deProcesses = []\<rparr>"

definition toy_guard :: session_guard where
  "toy_guard = snd (CurrentOrNewKey default_limits 0 ''k'' new_guard)"

definition toy_request :: http_request where
  "toy_request = \<lparr>rqMethod = ''POST'', rqPath = ''/api/command'', rqQuery = [],
     rqHeaders = [(''host'', ''127.0.0.1:80''), (''x-threadhaul-token'', ''k''), (''content-type'', ''application/json'')],
     rqBody = []\<rparr>"

lemma toy_posts: "post_endpoint toy_api toy_dash toy_request 7 = (Some (body_reply []), 8, [CallCommand ''exempt 7''])"
proof -
  have "has_prefix ''application/json'' (Header ''content-type'' toy_request)"
    by (simp add: toy_request_def Header_def has_prefix_def)
  moreover have "command_endpoint toy_api toy_dash toy_body 7 = (Some (body_reply []), 8, [CallCommand ''exempt 7''])"
    by (simp add: command_endpoint_def toy_body_def value_string_def command_verbs_def blank_char_def
        needs_no_confirmation_def do_command_def toy_api_def)
  ultimately show ?thesis
    by (simp add: post_endpoint_def) (simp add: toy_dash_def toy_body_def toy_request_def)
qed

lemma toy_authorized: "Authorized toy_dash toy_request = None"
  by (simp add: Authorized_def toy_dash_def toy_request_def Header_def loopback_host_def localhost_name_def Let_def)
    code_simp

lemma toy_accepted: "fst (Check default_limits 0 ''k'' toy_guard) = SrOk"
  by (simp add: Check_def toy_guard_def CurrentOrNewKey_def Let_def new_guard_def default_limits_def seconds_def ExpiredLocked_def)

theorem dashboard_mediates_changes_witness:
  "\<exists>g' res d' calls. Handle toy_api toy_dash toy_request toy_guard 7 = (g', res, d', calls) \<and> calls = [CallCommand ''exempt 7''] \<and>
     (\<exists>verb target. command_allowed toy_api toy_body 7 verb target \<and> d' = snd (daHandleCommand toy_api (verb @ '' '' @ target) 7))"
proof -
  obtain g1 where c: "Check (deLimits toy_dash) (deNow toy_dash) (Header ''x-threadhaul-token'' toy_request) toy_guard = (SrOk, g1)"
    using toy_accepted by (cases "Check default_limits 0 ''k'' toy_guard") (simp add: toy_dash_def toy_request_def Header_def)
  have h: "Handle toy_api toy_dash toy_request toy_guard 7 = (g1, Some (body_reply []), 8, [CallCommand ''exempt 7''])"
    using toy_posts by (simp add: Handle_def toy_authorized c api_endpoint_def Let_def has_prefix_def) (simp add: toy_request_def)
  show ?thesis using dashboard_mediates_changes [OF h] h by (auto simp: toy_dash_def toy_request_def)
qed

end
