(* ===== verification/Controller.thy ===== *)
theory Controller
  imports SecureChannel_Facts LogChain "HOL-Library.List_Lexorder" "HOL-Library.Char_ord"
begin

text \<open>
  \<open>src/controller/main.cpp\<close>: the controller that several daemons connect to.  Each handler of the
  program's threads is one step on the shared state: a connection that arrives, a message received on
  it, its end, a line of the operator's console.  An agent object is shared between the table and its
  thread, so objects live in a store and the table maps hosts to their numbers.  An exception leaves
  the thread and ends the program.
\<close>

section \<open>State\<close>

record agent =
  agHost :: string
  agHeartbeat :: json
  agLastSeen :: u64
  agBiasSent :: double

record controller_config =
  ccToken :: string
  ccPressure :: double
  ccCluster :: double
  ccBias :: double

definition default_controller_config :: controller_config where
  "default_controller_config = \<lparr>ccToken = [], ccPressure = 85, ccCluster = 50, ccBias = 5\<rparr>"

record controller =
  ctAgents :: "(string \<times> nat) list"
  ctStore :: "nat \<Rightarrow> agent"
  ctFailures :: "(string \<times> (int \<times> u64)) list"
  ctNextId :: int
  ctRunning :: bool

definition new_agent :: "string \<Rightarrow> u64 \<Rightarrow> agent" where
  "new_agent host t = \<lparr>agHost = host, agHeartbeat = JNull, agLastSeen = t, agBiasSent = 0\<rparr>"

definition new_controller :: controller where
  "new_controller = \<lparr>ctAgents = [], ctStore = (\<lambda>_. new_agent [] 0), ctFailures = [], ctNextId = 1, ctRunning = True\<rparr>"

datatype controller_failure = CtThrows json_exn | CtUndefined

datatype controller_effect =
    CfSend nat json
  | CfLog string "(string \<times> json) list"
  | CfShow string

definition lift_exn :: "json_exn + 'a \<Rightarrow> controller_failure + 'a" where
  "lift_exn r = (case r of Inl e \<Rightarrow> Inl (CtThrows e) | Inr x \<Rightarrow> Inr x)"

text \<open>The fields of a log entry: those given replace even the type and the time.\<close>

definition LogLine :: "string \<Rightarrow> string \<Rightarrow> (string \<times> json) list \<Rightarrow> json" where
  "LogLine now logType flds = JObj (foldl (\<lambda>j f. omap_put (fst f) (snd f) j) (Entry now logType) flds)"

section \<open>Lockout\<close>

definition LockedOut :: "u64 \<Rightarrow> string \<Rightarrow> controller \<Rightarrow> bool \<times> controller" where
  "LockedOut now peer ct =
     (case map_of (ctFailures ct) peer of
        None \<Rightarrow> (False, ct)
      | Some (n, since) \<Rightarrow>
          if now - since > 60000 then (False, ct\<lparr>ctFailures := amap_erase peer (ctFailures ct)\<rparr>)
          else (n \<ge> 5, ct))"

definition RecordFailure :: "u64 \<Rightarrow> string \<Rightarrow> controller \<Rightarrow> controller" where
  "RecordFailure now peer ct =
     (let (n, since) = (case map_of (ctFailures ct) peer of None \<Rightarrow> (0, 0) | Some f \<Rightarrow> f);
          (n1, since1) = (if now - since > 60000 then (0, now) else (n, since))
      in ct\<lparr>ctFailures := omap_put peer (n1 + 1, since1) (ctFailures ct)\<rparr>)"

section \<open>Coordination\<close>

fun count_hot :: "controller_config \<Rightarrow> (nat \<Rightarrow> agent) \<Rightarrow> nat list \<Rightarrow> json_exn + nat" where
  "count_hot cfg store [] = Inr 0"
| "count_hot cfg store (a # ids) =
     bindE (value_double (agHeartbeat (store a)) ''pressure_percent'' 0) (\<lambda>p.
     bindE (count_hot cfg store ids) (\<lambda>n. Inr (if p \<ge> ccPressure cfg then n + 1 else n)))"

definition bias_message :: "double \<Rightarrow> json" where
  "bias_message bias = JObj [(''offset_percent'', JReal bias), (''type'', JStr ''bias'')]"

definition send_bias ::
  "double \<Rightarrow> nat \<Rightarrow> nat \<Rightarrow> nat \<Rightarrow> (nat \<Rightarrow> agent) \<times> controller_effect list \<Rightarrow> (nat \<Rightarrow> agent) \<times> controller_effect list" where
  "send_bias bias hot count a s =
     (let (store, out) = s in
      if agBiasSent (store a) \<noteq> bias
      then (store(a := (store a)\<lparr>agBiasSent := bias\<rparr>),
            out @ [CfSend a (bias_message bias),
                   CfLog ''cluster_bias'' [(''host'', JStr (agHost (store a))), (''hot_agents'', JInt (int hot)),
                     (''offset_percent'', JReal bias), (''total_agents'', JInt (int count))]])
      else s)"

definition cluster_bias :: "controller_config \<Rightarrow> nat \<Rightarrow> nat \<Rightarrow> double" where
  "cluster_bias cfg hot count =
     (if 100 * real hot / real count \<ge> ccCluster cfg then ccBias cfg else 0)"

definition Rebalance :: "controller_config \<Rightarrow> controller \<Rightarrow> json_exn + (controller \<times> controller_effect list)" where
  "Rebalance cfg ct =
     (let ids = map snd (ctAgents ct) in
      if ids = [] then Inr (ct, [])
      else bindE (count_hot cfg (ctStore ct) ids) (\<lambda>hot.
        let bias = cluster_bias cfg hot (length ids);
            (store, out) = fold (send_bias bias hot (length ids)) ids (ctStore ct, [])
        in Inr (ct\<lparr>ctStore := store\<rparr>, out)))"

section \<open>One agent\<close>

text \<open>The outcome of a new connection: refused, failed or ended by an exception, or served.\<close>

datatype connection = CnRefused | CnRejected string | CnServed string channel | CnThrows json_exn

definition accept_agent ::
  "crypto_os \<Rightarrow> controller_config \<Rightarrow> u64 \<Rightarrow> u64 \<Rightarrow> string \<Rightarrow> string \<Rightarrow> string option \<Rightarrow> string option
     \<Rightarrow> nat \<Rightarrow> controller \<Rightarrow> connection \<times> controller \<times> controller_effect list" where
  "accept_agent os cfg t0 t1 peer sn recv1 recv2 a ct =
     (let (locked, ct0) = LockedOut t0 peer ct in
      if locked then (CnRefused, ct0, [])
      else
        (case ServerHandshake os (ccToken cfg) sn recv1 recv2 new_channel of
           (HsThrows e, host, out) \<Rightarrow> (CnThrows e, ct0, [])
         | (HsError m, host, out) \<Rightarrow>
             (CnRejected m, RecordFailure t1 peer ct0,
              [CfLog ''agent_rejected'' [(''peer'', JStr peer), (''reason'', JStr m)]])
         | (HsReady ch, host, out) \<Rightarrow>
             (CnServed host ch,
              ct0\<lparr>ctStore := (ctStore ct0)(a := new_agent host t1), ctAgents := omap_put host a (ctAgents ct0)\<rparr>,
              [CfLog ''agent_connected'' [(''host'', JStr host), (''peer'', JStr peer), (''secured'', JBool True)]])))"

text \<open>The members of an event that are printed.  Reading a member of a missing event is undefined.\<close>

definition show_event :: "json option \<Rightarrow> controller_failure + unit" where
  "show_event e = (case e of
      None \<Rightarrow> Inl CtUndefined
    | Some v \<Rightarrow> lift_exn (
        bindE (value_string v ''action'' []) (\<lambda>_. bindE (value_string v ''batch_process_name'' []) (\<lambda>_.
        bindE (value_int v ''batch_process_id'' 0) (\<lambda>_. bindE (value_string v ''from_state'' []) (\<lambda>_.
        bindE (value_string v ''to_state'' []) (\<lambda>_. bindE (value_double v ''cpu_percent'' 0) (\<lambda>_.
        bindE (value_string v ''trigger'' []) (\<lambda>_. Inr ())))))))))"

fun object_members :: "json \<Rightarrow> (string \<times> json) list" where
  "object_members (JObj m) = m"
| "object_members _ = []"

definition agent_message ::
  "controller_config \<Rightarrow> u64 \<Rightarrow> nat \<Rightarrow> json option \<Rightarrow> controller \<Rightarrow> controller_failure + (controller \<times> controller_effect list)" where
  "agent_message cfg now a parsed ct =
     (case parsed of
        None \<Rightarrow> Inr (ct, [])
      | Some msg \<Rightarrow>
          if \<not> is_object msg then Inr (ct, [])
          else bindE (lift_exn (value_string msg ''type'' [])) (\<lambda>type.
            let ct1 = ct\<lparr>ctStore := (ctStore ct)(a := (ctStore ct a)\<lparr>agLastSeen := now\<rparr>)\<rparr> in
            if type = ''heartbeat'' then
              (let ct2 = ct1\<lparr>ctStore := (ctStore ct1)(a := (ctStore ct1 a)\<lparr>agHeartbeat := msg\<rparr>)\<rparr>
               in bindE (lift_exn (Rebalance cfg ct2)) (\<lambda>(ct3, out).
                    Inr (ct3, CfLog ''heartbeat'' (object_members msg) # out)))
            else if type = ''event'' then
              bindE (show_event (jfind msg ''event'')) (\<lambda>_.
                Inr (ct1, [CfLog ''agent_event'' (object_members msg), CfShow (agHost (ctStore ct1 a))]))
            else if type = ''command_result'' then
              Inr (ct1, [CfLog ''command_result'' (object_members msg), CfShow (agHost (ctStore ct1 a))])
            else Inr (ct1, [])))"

definition drop_agent :: "nat \<Rightarrow> controller \<Rightarrow> controller" where
  "drop_agent a ct =
     (let host = agHost (ctStore ct a)
      in if map_of (ctAgents ct) host = Some a then ct\<lparr>ctAgents := amap_erase host (ctAgents ct)\<rparr> else ct)"

definition agent_disconnected ::
  "controller_config \<Rightarrow> nat \<Rightarrow> controller \<Rightarrow> json_exn + (controller \<times> controller_effect list)" where
  "agent_disconnected cfg a ct =
     bindE (Rebalance cfg (drop_agent a ct)) (\<lambda>(ct2, out).
       Inr (ct2, CfLog ''agent_disconnected'' [(''host'', JStr (agHost (ctStore ct a)))] # out))"

text \<open>
  One pass of the loop of \<open>ServeAgent\<close>, which ends the connection when the program is stopping or
  the channel is broken.  The first component says whether the loop goes on.
\<close>

definition serve_end ::
  "controller_config \<Rightarrow> nat \<Rightarrow> controller \<Rightarrow> controller_failure + (bool \<times> controller \<times> controller_effect list)" where
  "serve_end cfg a ct = bindE (lift_exn (agent_disconnected cfg a ct)) (\<lambda>(ct', out). Inr (False, ct', out))"

definition serve_turn ::
  "controller_config \<Rightarrow> (string \<Rightarrow> json option) \<Rightarrow> u64 \<Rightarrow> nat \<Rightarrow> recv_result \<Rightarrow> controller
     \<Rightarrow> controller_failure + (bool \<times> controller \<times> controller_effect list)" where
  "serve_turn cfg parse now a got ct =
     (if \<not> ctRunning ct then serve_end cfg a ct
      else (case got of
          RecvBroken \<Rightarrow> serve_end cfg a ct
        | RecvTimeout \<Rightarrow> Inr (True, ct, [])
        | RecvMessage line \<Rightarrow>
            bindE (agent_message cfg now a (parse line) ct) (\<lambda>(ct', out). Inr (True, ct', out))))"

section \<open>The console\<close>

text \<open>What a range-based loop over a JSON value visits.\<close>

fun elements :: "json \<Rightarrow> json list" where
  "elements JNull = []"
| "elements (JArr xs) = xs"
| "elements (JObj m) = map snd m"
| "elements v = [v]"

fun show_batch :: "json list \<Rightarrow> json_exn + unit" where
  "show_batch [] = Inr ()"
| "show_batch (b # bs) =
     bindE (value_string b ''name'' []) (\<lambda>_. bindE (value_int b ''pid'' 0) (\<lambda>_.
     bindE (value_string b ''state'' []) (\<lambda>_. bindE (value_bool b ''manual_hold'' False) (\<lambda>_. show_batch bs))))"

definition show_agent :: "agent \<Rightarrow> json_exn + unit" where
  "show_agent a =
     bindE (value_double (agHeartbeat a) ''pressure_percent'' 0) (\<lambda>_.
       case jfind (agHeartbeat a) ''batch'' of None \<Rightarrow> Inr () | Some bs \<Rightarrow> show_batch (elements bs))"

fun show_agents :: "(nat \<Rightarrow> agent) \<Rightarrow> (string \<times> nat) list \<Rightarrow> json_exn + controller_effect list" where
  "show_agents store [] = Inr []"
| "show_agents store ((host, a) # rest) =
     bindE (show_agent (store a)) (\<lambda>_. bindE (show_agents store rest) (\<lambda>out. Inr (CfShow host # out)))"

definition PrintAgents :: "controller \<Rightarrow> json_exn + controller_effect list" where
  "PrintAgents ct =
     (if ctAgents ct = [] then Inr [CfShow ''no agents connected''] else show_agents (ctStore ct) (ctAgents ct))"

definition white :: "char \<Rightarrow> bool" where
  "white c = (c = CHR '' '' \<or> c \<in> {CHR 0x09, CHR 0x0A, CHR 0x0B, CHR 0x0C, CHR 0x0D})"

definition console_input :: "string \<Rightarrow> string" where
  "console_input line =
     (let l1 = (if take 3 line = [CHR 0xEF, CHR 0xBB, CHR 0xBF] then drop 3 line else line)
      in if l1 \<noteq> [] \<and> last l1 = CHR 0x0D then butlast l1 else l1)"

fun send_commands ::
  "string \<Rightarrow> nat list \<Rightarrow> controller \<Rightarrow> controller \<times> controller_effect list" where
  "send_commands cmd [] ct = (ct, [])"
| "send_commands cmd (a # ids) ct =
     (let msg = JObj [(''command'', JStr cmd), (''id'', JInt (ctNextId ct)), (''type'', JStr ''command'')];
          (ct', out) = send_commands cmd ids (ct\<lparr>ctNextId := ctNextId ct + 1\<rparr>)
      in (ct', CfSend a msg #
          CfLog ''command_sent'' [(''command'', JStr cmd), (''host'', JStr (agHost (ctStore ct a)))] # out))"

definition is_quit :: "string \<Rightarrow> bool" where "is_quit w = (w = ''quit'' \<or> w = ''exit'')"
definition is_list :: "string \<Rightarrow> bool" where "is_list w = (w = ''list'')"
definition is_all :: "string \<Rightarrow> bool" where "is_all w = (w = ''all'')"

text \<open>\<open>same\<close> is \<open>_stricmp\<close>.\<close>

definition Console ::
  "(string \<Rightarrow> string \<Rightarrow> bool) \<Rightarrow> string \<Rightarrow> controller \<Rightarrow> json_exn + (controller \<times> controller_effect list)" where
  "Console same raw ct =
     (let line = console_input raw;
          s = dropWhile white line;
          host = takeWhile (\<lambda>c. \<not> white c) s;
          cmd = dropWhile (\<lambda>c. c = CHR '' '') (drop (length host) s)
      in if host = [] then Inr (ct, [])
         else if is_quit host then Inr (ct\<lparr>ctRunning := False\<rparr>, [])
         else if is_list host then bindE (PrintAgents ct) (\<lambda>out. Inr (ct, out))
         else if cmd = [] then Inr (ct, [CfShow ''usage: <host|all> <command> [target]   |  list  |  quit''])
         else
           (let targets = map snd (filter (\<lambda>(h, a). is_all host \<or> same h host) (ctAgents ct))
            in if targets = [] then Inr (ct, [CfShow (''no agent named '' @ host)])
               else Inr (send_commands cmd targets ct)))"

text \<open>One pass of the loop; \<open>None\<close> is the end of the input.\<close>

definition console_turn ::
  "(string \<Rightarrow> string \<Rightarrow> bool) \<Rightarrow> string option \<Rightarrow> controller \<Rightarrow> json_exn + (bool \<times> controller \<times> controller_effect list)" where
  "console_turn same input ct =
     (if \<not> ctRunning ct then Inr (False, ct, [])
      else (case input of
          None \<Rightarrow> Inr (False, ct, [])
        | Some raw \<Rightarrow> bindE (Console same raw ct) (\<lambda>(ct', out). Inr (ctRunning ct', ct', out))))"

section \<open>Starting\<close>

record controller_args =
  caPort :: int
  caLog :: string
  caConfig :: controller_config

fun controller_options ::
  "(string \<Rightarrow> int) \<Rightarrow> (string \<Rightarrow> double) \<Rightarrow> string list \<Rightarrow> controller_args \<Rightarrow> controller_args" where
  "controller_options atoi atof (k # v # rest) ca =
     controller_options atoi atof rest
       (if k = ''--port'' then ca\<lparr>caPort := atoi v\<rparr>
        else if k = ''--token'' then ca\<lparr>caConfig := (caConfig ca)\<lparr>ccToken := v\<rparr>\<rparr>
        else if k = ''--pressure'' then ca\<lparr>caConfig := (caConfig ca)\<lparr>ccPressure := atof v\<rparr>\<rparr>
        else if k = ''--cluster-percent'' then ca\<lparr>caConfig := (caConfig ca)\<lparr>ccCluster := atof v\<rparr>\<rparr>
        else if k = ''--bias'' then ca\<lparr>caConfig := (caConfig ca)\<lparr>ccBias := atof v\<rparr>\<rparr>
        else if k = ''--log'' then ca\<lparr>caLog := v\<rparr> else ca)"
| "controller_options atoi atof args ca = ca"

text \<open>\<open>None\<close> is the exit for a missing or short token.\<close>

definition controller_main :: "(string \<Rightarrow> int) \<Rightarrow> (string \<Rightarrow> double) \<Rightarrow> string list \<Rightarrow> controller_args option" where
  "controller_main atoi atof args =
     (let ca = controller_options atoi atof args
            \<lparr>caPort = 7878, caLog = ''controller.jsonl'', caConfig = default_controller_config\<rparr>
      in if length (ccToken (caConfig ca)) < kMinSecretLength then None else Some ca)"

text \<open>
  The program up to its console: help, a missing token, a network that cannot be used (the error of
  \<open>WSAStartup\<close>, or of \<open>bind\<close> and \<open>listen\<close>), or listening.
\<close>

record network_answers =
  naStartup :: "int option"
  naBind :: bool
  naListen :: bool
  naError :: int

datatype controller_start =
    CsHelp
  | CsNoToken
  | CsNoNetwork int
  | CsCannotListen int int
  | CsListens controller_args "controller_effect list"

definition is_help :: "string \<Rightarrow> bool" where "is_help w = (w = ''help'' \<or> w = ''--help'')"

definition start_controller ::
  "(string \<Rightarrow> int) \<Rightarrow> (string \<Rightarrow> double) \<Rightarrow> network_answers \<Rightarrow> string list \<Rightarrow> controller_start" where
  "start_controller atoi atof net args =
     (if args \<noteq> [] \<and> is_help (hd args) then CsHelp
      else (case controller_main atoi atof args of
          None \<Rightarrow> CsNoToken
        | Some ca \<Rightarrow>
            (case naStartup net of
               Some e \<Rightarrow> CsNoNetwork e
             | None \<Rightarrow>
                 if \<not> naBind net \<or> \<not> naListen net then CsCannotListen (caPort ca) (naError net)
                 else CsListens ca [CfShow (caLog ca), CfLog ''controller_started'' [(''port'', JInt (caPort ca))]])))"

text \<open>The exit code, and what is logged when the console has ended.\<close>

definition end_controller :: "controller_start \<Rightarrow> int \<times> controller_effect list" where
  "end_controller s = (case s of
      CsHelp \<Rightarrow> (0, [])
    | CsListens ca out \<Rightarrow> (0, [CfLog ''controller_stopped'' []])
    | _ \<Rightarrow> (1, []))"

end
