(* ===== verification/Controller_Properties.thy ===== *)
theory Controller_Properties
  imports Controller
begin

text \<open>
  The properties of the controller: its table stays consistent however its threads interleave, the
  bias it sends is the one the cluster's state calls for, and what ends the program.
\<close>

section \<open>Reachable states\<close>

text \<open>Every connection gets an object of its own; \<open>used\<close> are those handed out so far.\<close>

inductive creach :: "controller_config \<Rightarrow> controller \<Rightarrow> nat set \<Rightarrow> bool" for cfg where
  start: "creach cfg new_controller {}"
| connect: "creach cfg ct used \<Longrightarrow> a \<notin> used \<Longrightarrow>
    accept_agent os cfg t0 t1 peer sn recv1 recv2 a ct = (r, ct', out) \<Longrightarrow> creach cfg ct' (insert a used)"
| message: "creach cfg ct used \<Longrightarrow> agent_message cfg now a parsed ct = Inr (ct', out) \<Longrightarrow> creach cfg ct' used"
| disconnect: "creach cfg ct used \<Longrightarrow> agent_disconnected cfg a ct = Inr (ct', out) \<Longrightarrow> creach cfg ct' used"
| operator: "creach cfg ct used \<Longrightarrow> Console same raw ct = Inr (ct', out) \<Longrightarrow> creach cfg ct' used"

definition table_ok :: "controller \<Rightarrow> nat set \<Rightarrow> bool" where
  "table_ok ct used \<longleftrightarrow> okeys (ctAgents ct) \<and>
     (\<forall>(h, a) \<in> set (ctAgents ct). agHost (ctStore ct a) = h \<and> a \<in> used)"

lemma table_ok_distinct: "table_ok ct used \<Longrightarrow> distinct (map snd (ctAgents ct))"
proof -
  assume ok: "table_ok ct used"
  then have d: "distinct (map fst (ctAgents ct))" using okeys_distinct by (auto simp: table_ok_def)
  have h: "agHost (ctStore ct (snd z)) = fst z" if "z \<in> set (ctAgents ct)" for z
    using ok that by (auto simp: table_ok_def)
  have "inj_on snd (set (ctAgents ct))"
  proof (rule inj_onI)
    fix x y assume xy: "x \<in> set (ctAgents ct)" "y \<in> set (ctAgents ct)" "snd x = snd y"
    then have "fst x = fst y" using h [OF xy(1)] h [OF xy(2)] by simp
    with xy(3) show "x = y" by (rule prod_eqI [rotated])
  qed
  moreover have "distinct (ctAgents ct)" using d by (simp add: distinct_map)
  ultimately show ?thesis by (simp add: distinct_map)
qed

section \<open>Rebalancing\<close>

lemma fold_send_bias:
  assumes "distinct ids"
  shows "fold (send_bias bias hot n) ids (store, out) =
    (\<lambda>a. if a \<in> set ids then (store a)\<lparr>agBiasSent := bias\<rparr> else store a,
     out @ concat (map (\<lambda>a. snd (send_bias bias hot n a (store, []))) ids))"
  using assms
proof (induction ids arbitrary: store out)
  case (Cons a ids)
  let ?s = "\<lambda>b. if b = a then (store a)\<lparr>agBiasSent := bias\<rparr> else store b"
  have step: "send_bias bias hot n a (store, out) = (?s, out @ snd (send_bias bias hot n a (store, [])))"
    by (auto simp: send_bias_def fun_eq_iff)
  have rest: "map (\<lambda>b. snd (send_bias bias hot n b (?s, []))) ids = map (\<lambda>b. snd (send_bias bias hot n b (store, []))) ids"
    using Cons.prems by (auto simp: send_bias_def)
  show ?case
    unfolding fold_simps(2) step using Cons by (simp add: rest fun_eq_iff)
qed simp

definition agent_pressure :: "agent \<Rightarrow> double" where
  "agent_pressure a = (case value_double (agHeartbeat a) ''pressure_percent'' 0 of Inr p \<Rightarrow> p | Inl _ \<Rightarrow> 0)"

definition hot_agents :: "controller_config \<Rightarrow> controller \<Rightarrow> nat" where
  "hot_agents cfg ct = length (filter (\<lambda>a. ccPressure cfg \<le> agent_pressure (ctStore ct a)) (map snd (ctAgents ct)))"

lemma count_hot_length:
  "count_hot cfg store ids = Inr n \<Longrightarrow>
   n = length (filter (\<lambda>a. ccPressure cfg \<le> agent_pressure (store a)) ids)"
  by (induction ids arbitrary: n) (auto simp: bindE_Inr agent_pressure_def split: if_splits)

lemma count_hot_cong:
  "\<forall>a \<in> set ids. agHeartbeat (store' a) = agHeartbeat (store a) \<Longrightarrow> count_hot cfg store' ids = count_hot cfg store ids"
  by (induction ids) auto

definition wanted_bias :: "controller_config \<Rightarrow> controller \<Rightarrow> double" where
  "wanted_bias cfg ct = cluster_bias cfg (hot_agents cfg ct) (length (ctAgents ct))"

fun sends :: "controller_effect list \<Rightarrow> (nat \<times> json) list" where
  "sends [] = []"
| "sends (CfSend a m # out) = (a, m) # sends out"
| "sends (_ # out) = sends out"

lemma sends_append [simp]: "sends (xs @ ys) = sends xs @ sends ys"
  by (induction xs rule: sends.induct) auto

lemma sends_bias:
  "sends (concat (map (\<lambda>a. snd (send_bias bias hot n a (store, []))) ids)) =
   map (\<lambda>a. (a, bias_message bias)) (filter (\<lambda>a. agBiasSent (store a) \<noteq> bias) ids)"
  by (induction ids) (auto simp: send_bias_def)

lemma Rebalance_spec:
  assumes "Rebalance cfg ct = Inr (ct', out)" and "distinct (map snd (ctAgents ct))"
  shows "ctAgents ct' = ctAgents ct \<and> ctFailures ct' = ctFailures ct \<and>
    (\<forall>a. ctStore ct' a = (if a \<in> snd ` set (ctAgents ct)
       then (ctStore ct a)\<lparr>agBiasSent := wanted_bias cfg ct\<rparr> else ctStore ct a)) \<and>
    sends out = map (\<lambda>a. (a, bias_message (wanted_bias cfg ct)))
      (filter (\<lambda>a. agBiasSent (ctStore ct a) \<noteq> wanted_bias cfg ct) (map snd (ctAgents ct)))"
proof (cases "ctAgents ct = []")
  case True
  then show ?thesis using assms(1) by (auto simp: Rebalance_def)
next
  case False
  let ?ids = "map snd (ctAgents ct)"
  obtain hot where h: "count_hot cfg (ctStore ct) ?ids = Inr hot"
    using assms(1) False by (auto simp: Rebalance_def Let_def bindE_Inr)
  have hot: "hot = hot_agents cfg ct" using count_hot_length [OF h] by (simp add: hot_agents_def)
  have b: "cluster_bias cfg hot (length ?ids) = wanted_bias cfg ct"
    by (simp add: wanted_bias_def hot)
  have r: "ct' = ct\<lparr>ctStore := fst (fold (send_bias (wanted_bias cfg ct) hot (length ?ids)) ?ids (ctStore ct, []))\<rparr>"
      "out = snd (fold (send_bias (wanted_bias cfg ct) hot (length ?ids)) ?ids (ctStore ct, []))"
    using assms(1) False h b by (simp_all add: Rebalance_def Let_def split_beta)
  show ?thesis unfolding r fold_send_bias [OF assms(2)] by (simp add: sends_bias del: map_map)
qed

lemma Rebalance_table: "Rebalance cfg ct = Inr (ct', out) \<Longrightarrow> table_ok ct used \<Longrightarrow> table_ok ct' used"
  using Rebalance_spec table_ok_distinct unfolding table_ok_def by fastforce

lemma send_commands_table:
  "ctAgents (fst (send_commands c ids ct)) = ctAgents ct \<and> ctStore (fst (send_commands c ids ct)) = ctStore ct"
  by (induction ids arbitrary: ct) (auto simp: split_beta Let_def)

lemma Console_table:
  "Console same raw ct = Inr (ct', out) \<Longrightarrow> ctAgents ct' = ctAgents ct \<and> ctStore ct' = ctStore ct"
  using send_commands_table
  by (auto simp: Console_def Let_def bindE_Inr split: if_splits; metis fst_conv)

lemma amap_erase_subset: "set (amap_erase k m) \<subseteq> set m"
  by (auto simp: amap_erase_def)

lemma table_ok_store:
  "table_ok ct used \<Longrightarrow> agHost x = agHost (ctStore ct a) \<Longrightarrow> table_ok (ct\<lparr>ctStore := (ctStore ct)(a := x)\<rparr>) used"
  by (auto simp: table_ok_def)

lemma agent_message_table:
  assumes "agent_message cfg now a parsed ct = Inr (ct', out)" and "table_ok ct used"
  shows "table_ok ct' used"
proof (cases parsed)
  case None
  then show ?thesis using assms by (simp add: agent_message_def)
next
  case (Some msg)
  let ?ct1 = "ct\<lparr>ctStore := (ctStore ct)(a := (ctStore ct a)\<lparr>agLastSeen := now\<rparr>)\<rparr>"
  let ?ct2 = "?ct1\<lparr>ctStore := (ctStore ?ct1)(a := (ctStore ?ct1 a)\<lparr>agHeartbeat := msg\<rparr>)\<rparr>"
  have ok1: "table_ok ?ct1 used" by (rule table_ok_store [OF assms(2)]) simp
  have ok2: "table_ok ?ct2 used" by (rule table_ok_store [OF ok1]) simp
  have "ct' = ct \<or> ct' = ?ct1 \<or> (\<exists>o2. Rebalance cfg ?ct2 = Inr (ct', o2))"
  proof (cases "is_object msg")
    case False
    then show ?thesis using assms(1) Some by (simp add: agent_message_def)
  next
    case True
    then obtain type where t: "value_string msg ''type'' [] = Inr type"
      using assms(1) Some by (cases "value_string msg ''type'' []") (simp_all add: agent_message_def lift_exn_def)
    show ?thesis
    proof (cases "type = ''heartbeat''")
      case True
      then show ?thesis using assms(1) Some \<open>is_object msg\<close> t
        by (cases "Rebalance cfg ?ct2") (auto simp: agent_message_def lift_exn_def Let_def split_beta)
    next
      case False
      then show ?thesis using assms(1) Some True t
        by (cases "show_event (jfind msg ''event'')") (simp_all add: agent_message_def lift_exn_def Let_def split: if_splits)
    qed
  qed
  then show ?thesis using assms(2) ok1 Rebalance_table [OF _ ok2] by auto
qed

lemma drop_agent_table: "table_ok ct used \<Longrightarrow> table_ok (drop_agent a ct) used"
  using amap_erase_subset okeys_amap_erase by (fastforce simp: table_ok_def drop_agent_def Let_def)

lemma accept_agent_table:
  assumes "accept_agent os cfg t0 t1 peer sn recv1 recv2 a ct = (r, ct', out)" and "table_ok ct used" and "a \<notin> used"
  shows "table_ok ct' (insert a used)"
proof -
  have L: "ctAgents (snd (LockedOut t0 peer ct)) = ctAgents ct" "ctStore (snd (LockedOut t0 peer ct)) = ctStore ct"
    by (auto simp: LockedOut_def split: option.splits if_splits)
  have R: "ctAgents (RecordFailure t1 peer c) = ctAgents c" "ctStore (RecordFailure t1 peer c) = ctStore c" for c
    by (simp_all add: RecordFailure_def split_beta Let_def)
  consider "ctAgents ct' = ctAgents ct \<and> ctStore ct' = ctStore ct"
    | host where "ctAgents ct' = omap_put host a (ctAgents ct)" "ctStore ct' = (ctStore ct)(a := new_agent host t1)"
    using assms(1) L R
    by (auto simp: accept_agent_def split_beta Let_def split: if_splits prod.splits handshake.splits)
  then show ?thesis
  proof cases
    case 1
    then show ?thesis using assms(2) by (auto simp: table_ok_def)
  next
    case 2
    have keys: "okeys (ctAgents ct)" using assms(2) by (simp add: table_ok_def)
    show ?thesis unfolding table_ok_def 2
    proof (intro conjI ballI)
      show "okeys (omap_put host a (ctAgents ct))" using keys by (rule okeys_omap_put)
    next
      fix x assume x: "x \<in> set (omap_put host a (ctAgents ct))"
      obtain h b where hb: "x = (h, b)" by (cases x)
      have "h = host \<and> b = a \<or> (h, b) \<in> set (ctAgents ct)"
        using x keys unfolding hb omap.member_iff [OF okeys_omap_put [OF keys]] map_of_omap_put [OF keys]
        by (auto split: if_splits dest: map_of_SomeD)
      then show "case x of (h, b) \<Rightarrow> agHost (((ctStore ct)(a := new_agent host t1)) b) = h \<and> b \<in> insert a used"
        using assms(2) assms(3) by (auto simp: hb table_ok_def new_agent_def)
    qed
  qed
qed

lemma creach_table: "creach cfg ct used \<Longrightarrow> table_ok ct used"
proof (induction rule: creach.induct)
  case start
  show ?case by (simp add: table_ok_def new_controller_def okeys_def)
next
  case (connect ct used a os t0 t1 peer sn recv1 recv2 r ct' out)
  then show ?case using accept_agent_table by blast
next
  case (message ct used now a parsed ct' out)
  then show ?case using agent_message_table by blast
next
  case (disconnect ct used a ct' out)
  obtain out' where "Rebalance cfg (drop_agent a ct) = Inr (ct', out')"
    using disconnect.hyps(2) by (auto simp: agent_disconnected_def bindE_Inr)
  then show ?case using Rebalance_table drop_agent_table [OF disconnect.IH] by blast
next
  case (operator ct used same raw ct' out)
  then show ?case using Console_table by (simp add: table_ok_def)
qed

text \<open>The loops of the program stay within the reachable states.\<close>

lemma serve_turn_reaches:
  assumes "creach cfg ct used" and "serve_turn cfg parse now a got ct = Inr (on, ct', out)"
  shows "creach cfg ct' used"
proof -
  have "ct' = ct \<or> (\<exists>parsed o1. agent_message cfg now a parsed ct = Inr (ct', o1)) \<or>
      (\<exists>o1. agent_disconnected cfg a ct = Inr (ct', o1))"
    using assms(2)
    by (auto simp: serve_turn_def serve_end_def bindE_Inr lift_exn_def split: if_splits recv_result.splits sum.splits)
  then show ?thesis using assms(1) by (blast intro: creach.message creach.disconnect)
qed

lemma console_turn_reaches:
  assumes "creach cfg ct used" and "console_turn same input ct = Inr (on, ct', out)"
  shows "creach cfg ct' used"
proof -
  have "ct' = ct \<or> (\<exists>raw o1. Console same raw ct = Inr (ct', o1))"
    using assms(2) by (auto simp: console_turn_def bindE_Inr split: if_splits option.splits)
  then show ?thesis using assms(1) by (blast intro: creach.operator)
qed

text \<open>Once the program is stopping, the next pass of a connection is its last and takes the agent off the table.\<close>

lemma Rebalance_agents: "Rebalance cfg ct = Inr (ct', out) \<Longrightarrow> ctAgents ct' = ctAgents ct"
  by (auto simp: Rebalance_def Let_def bindE_Inr split_beta split: if_splits)

lemma stopping_ends_connections:
  "\<not> ctRunning ct \<Longrightarrow> serve_turn cfg parse now a got ct = Inr (on, ct', out) \<Longrightarrow>
   \<not> on \<and> map_of (ctAgents ct') (agHost (ctStore ct a)) \<noteq> Some a"
  by (auto simp: serve_turn_def serve_end_def agent_disconnected_def drop_agent_def bindE_Inr lift_exn_def Let_def
      map_of_amap_erase dest!: Rebalance_agents split: sum.splits if_splits)

section \<open>Properties\<close>

lemma send_bias_same:
  "\<forall>a \<in> set ids. agBiasSent (store a) = bias \<Longrightarrow> fold (send_bias bias hot n) ids (store, out) = (store, out)"
  by (induction ids) (simp_all add: send_bias_def)

lemma Rebalance_again:
  assumes "Rebalance cfg ct = Inr (ct', out)" and "distinct (map snd (ctAgents ct))"
  shows "Rebalance cfg ct' = Inr (ct', []) \<and> wanted_bias cfg ct' = wanted_bias cfg ct"
proof -
  note r = Rebalance_spec [OF assms]
  have hb: "agHeartbeat (ctStore ct' a) = agHeartbeat (ctStore ct a)" for a using r by simp
  have p: "agent_pressure (ctStore ct' a) = agent_pressure (ctStore ct a)" for a
    by (simp add: agent_pressure_def hb)
  have ag: "ctAgents ct' = ctAgents ct" using r by simp
  have w: "wanted_bias cfg ct' = wanted_bias cfg ct"
    unfolding wanted_bias_def hot_agents_def ag p ..
  show ?thesis
  proof (cases "ctAgents ct = []")
    case True
    then show ?thesis using r w by (simp add: Rebalance_def)
  next
    case False
    have c: "count_hot cfg (ctStore ct') (map snd (ctAgents ct)) = count_hot cfg (ctStore ct) (map snd (ctAgents ct))"
      by (rule count_hot_cong) (simp add: hb)
    obtain hot where h: "count_hot cfg (ctStore ct) (map snd (ctAgents ct)) = Inr hot"
      using assms(1) False by (auto simp: Rebalance_def Let_def bindE_Inr)
    have b: "cluster_bias cfg hot (length (ctAgents ct)) = wanted_bias cfg ct"
      using count_hot_length [OF h] by (simp add: wanted_bias_def hot_agents_def)
    have "\<forall>a \<in> set (map snd (ctAgents ct)). agBiasSent (ctStore ct' a) = wanted_bias cfg ct"
      using r by simp
    then have f: "fold (send_bias (wanted_bias cfg ct) hot n) (map snd (ctAgents ct)) (ctStore ct', []) = (ctStore ct', [])" for n
      by (rule send_bias_same)
    have "Rebalance cfg ct' = Inr (ct'\<lparr>ctStore := ctStore ct'\<rparr>, [])"
      using ag False c h b f by (simp add: Rebalance_def Let_def)
    then show ?thesis using w by simp
  qed
qed

definition is_heartbeat :: "json \<Rightarrow> bool" where
  "is_heartbeat msg \<longleftrightarrow> is_object msg \<and> value_string msg ''type'' [] = Inr ''heartbeat''"

lemma heartbeat_step:
  assumes "is_heartbeat msg"
  shows "agent_message cfg now a (Some msg) ct =
    bindE (lift_exn (Rebalance cfg
        (ct\<lparr>ctStore := (ctStore ct)(a := (ctStore ct a)\<lparr>agLastSeen := now, agHeartbeat := msg\<rparr>)\<rparr>)))
      (\<lambda>(ct3, out). Inr (ct3, CfLog ''heartbeat'' (object_members msg) # out))"
  using assms by (simp add: is_heartbeat_def agent_message_def lift_exn_def Let_def)


text \<open>A run: an agent connects, and reports a pressure above the threshold.\<close>

definition one_agent :: controller where
  "one_agent = new_controller\<lparr>ctAgents := [(''host'', 0)],
     ctStore := (\<lambda>_. new_agent [] 0)(0 := new_agent ''host'' 7)\<rparr>"

definition hot_heartbeat :: json where
  "hot_heartbeat = JObj [(''pressure_percent'', JReal 90), (''type'', JStr ''heartbeat'')]"

text \<open>A cryptography that accepts: every hash is the same text, and JSON text is read as wanted.\<close>

definition open_crypto :: crypto_os where
  "open_crypto = \<lparr>coHash = (\<lambda>h k d. Some []), coSeal = (\<lambda>k n p. None), coOpen = (\<lambda>k n b t. None),
     coJson = (\<lambda>s. Some (if s = [] then hello_json ''host'' (replicate 32 CHR ''n'') else proof_json [])),
     coPrint = (\<lambda>j. [])\<rparr>"

lemma one_agent_connects:
  "\<exists>r out. accept_agent open_crypto default_controller_config 7 7 ''peer'' [] (Some []) (Some ''x'') 0 new_controller =
     (r, one_agent, out)"
  by (simp add: accept_agent_def LockedOut_def ServerHandshake_def hello_rejected_def discarded_or_def proof_rejected_def
      open_crypto_def hello_json_def proof_json_def value_string_def value_int_def HmacSha256_def Hash_def Sha256_def
      one_agent_def new_controller_def fun_eq_iff del: ToHex.simps)


section \<open>What ends the program\<close>

lemma count_hot_null:
  "agHeartbeat (store b) = JNull \<Longrightarrow> b \<in> set ids \<Longrightarrow> \<exists>e. count_hot cfg store ids = Inl e"
proof (induction ids)
  case (Cons a ids)
  then show ?case
    by (cases "value_double (agHeartbeat (store a)) ''pressure_percent'' 0"; cases "count_hot cfg store ids")
      (auto simp: value_double_def)
qed simp

lemma show_agents_null:
  "agHeartbeat (store b) = JNull \<Longrightarrow> b \<in> snd ` set as \<Longrightarrow> \<exists>e. show_agents store as = Inl e"
proof (induction store as rule: show_agents.induct)
  case (2 store host a rest)
  then show ?case
    by (cases "show_agent (store a)"; cases "show_agents store rest") (auto simp: show_agent_def value_double_def)
qed simp

text \<open>
  C29.  What ends the controller.  Between an agent's connection and its first heartbeat, a heartbeat of
  any other agent, the end of any other agent's connection and the operator's \<open>list\<close> all throw, because
  they read a member of a value that is still null.  And no secret is needed: a hello whose type is
  not a string throws in the handshake.  None of the threads catches the exception.
\<close>

theorem silent_agent_ends_controller:
  assumes "(h, b) \<in> set (ctAgents ct)" and "agHeartbeat (ctStore ct b) = JNull"
    and "is_heartbeat msg" and "a \<noteq> b" and "agHost (ctStore ct a) \<noteq> h"
    and "coJson os frame = Some (JObj m)" and "map_of m ''type'' = Some v" and "\<not> is_string v"
    and "\<not> fst (LockedOut t0 peer ct)"
  shows "(\<exists>e. agent_message cfg now a (Some msg) ct = Inl (CtThrows e)) \<and>
    (\<exists>e. agent_disconnected cfg a ct = Inl e) \<and> (\<exists>e. Console same ''list'' ct = Inl e) \<and>
    (\<exists>e ct'. accept_agent os cfg t0 t1 peer sn (Some frame) recv2 c ct = (CnThrows e, ct', []))"
proof (intro conjI)
  have b: "b \<in> snd ` set (ctAgents ct)" using assms(1) by force
  have null: "\<exists>e. Rebalance cfg c = Inl e" if "b \<in> snd ` set (ctAgents c)" "agHeartbeat (ctStore c b) = JNull" for c
  proof -
    note prem = that
    obtain e where "count_hot cfg (ctStore c) (map snd (ctAgents c)) = Inl e"
      using count_hot_null [of "ctStore c" b "map snd (ctAgents c)" cfg, OF prem(2)] prem(1) by auto
    then show ?thesis using prem(1) by (auto simp: Rebalance_def Let_def)
  qed
  show "\<exists>e. agent_message cfg now a (Some msg) ct = Inl (CtThrows e)"
    unfolding heartbeat_step [OF assms(3)]
    using null [of "ct\<lparr>ctStore := (ctStore ct)(a := (ctStore ct a)\<lparr>agLastSeen := now, agHeartbeat := msg\<rparr>)\<rparr>"] b assms(2,4)
    by (auto simp: lift_exn_def)
  have "b \<in> snd ` set (amap_erase (agHost (ctStore ct a)) (ctAgents ct))"
    using assms(1,5) by (force simp: amap_erase_def)
  then show "\<exists>e. agent_disconnected cfg a ct = Inl e"
    using null [of ct] null [of "ct\<lparr>ctAgents := amap_erase (agHost (ctStore ct a)) (ctAgents ct)\<rparr>"] b assms(2)
    by (auto simp: agent_disconnected_def drop_agent_def Let_def)
  obtain e where "show_agents (ctStore ct) (ctAgents ct) = Inl e" using show_agents_null [of "ctStore ct" b "ctAgents ct", OF assms(2) b] by blast
  moreover have "ctAgents ct \<noteq> []" using assms(1) by auto
  ultimately have "PrintAgents ct = Inl e" by (simp add: PrintAgents_def)
  then show "\<exists>e. Console same ''list'' ct = Inl e"
    by (simp add: Console_def console_input_def white_def is_quit_def is_list_def Let_def)
  show "\<exists>e ct'. accept_agent os cfg t0 t1 peer sn (Some frame) recv2 c ct = (CnThrows e, ct', [])"
    using hello_of_wrong_type_throws [OF assms(6-8)] assms(9) by (simp add: accept_agent_def split_beta)
qed

definition numeric_hello :: crypto_os where
  "numeric_hello = open_crypto\<lparr>coJson := (\<lambda>s. Some (JObj [(''type'', JInt 1)]))\<rparr>"

definition two_agents :: controller where
  "two_agents = one_agent\<lparr>ctAgents := [(''host'', 0), (''other'', 1)],
     ctStore := (ctStore one_agent)(1 := new_agent ''other'' 9)\<rparr>"

theorem silent_agent_ends_controller_witness:
  "(\<exists>e. agent_message default_controller_config 9 0 (Some hot_heartbeat) two_agents = Inl (CtThrows e)) \<and>
   (\<exists>e. Console (=) ''list'' two_agents = Inl e) \<and>
   (\<exists>e ct'. accept_agent numeric_hello default_controller_config 9 9 ''peer'' [] (Some []) None 2 two_agents =
      (CnThrows e, ct', []))"
proof -
  have "is_heartbeat hot_heartbeat" by (simp add: is_heartbeat_def hot_heartbeat_def value_string_def)
  then show ?thesis
    using silent_agent_ends_controller [of "''other''" 1 two_agents hot_heartbeat 0 numeric_hello "[]"
        "[(''type'', JInt 1)]" "JInt 1" 9 "''peer''" default_controller_config 9 "(=)" 9 "[]" None 2]
    by (simp add: two_agents_def one_agent_def new_agent_def numeric_hello_def LockedOut_def new_controller_def)
qed

text \<open>
  A lockout can be momentary: it ends a minute after the first failure, not after the last.  Four more
  guesses a minute later, and five just after it, are all heard.
\<close>

fun failed_guesses :: "u64 list \<Rightarrow> string \<Rightarrow> controller \<Rightarrow> nat" where
  "failed_guesses [] peer ct = 0"
| "failed_guesses (t # ts) peer ct =
     (let (locked, ct') = LockedOut t peer ct
      in if locked then failed_guesses ts peer ct' else Suc (failed_guesses ts peer (RecordFailure t peer ct')))"

lemma lockout_can_be_momentary:
  "failed_guesses [100000, 159999, 159999, 159999, 159999, 160001, 160001, 160001, 160001, 160001] ''peer''
     new_controller = 10"
  by (simp add: LockedOut_def RecordFailure_def new_controller_def amap_erase_def)

end
