(* ===== verification/ControllerThreads.thy ===== *)
theory ControllerThreads
  imports Controller_Properties
begin

text \<open>
  The controller's threads at the granularity of the code.  \<open>g_mutex\<close> guards the table of agents, but
  not \<open>Rebalance\<close>: between any two of its steps another connection's thread may run.  One step reads
  one heartbeat, tests one agent's bias, records it, or sends it (\<open>Channel::Send\<close> is guarded by the
  channel's own mutex).  A system is the shared state with one program counter per connection; an
  event says which thread moves and what it meets, so a run is a list of events.
\<close>

section \<open>Rebalance step by step\<close>

text \<open>
  \<open>RbCount\<close>: the agents taken from the table, those still to be looked at, the hot ones so far.  The
  others have the bias, the hot ones, the number of agents, and the agents still to be told;
  \<open>RbSet\<close> and \<open>RbTell\<close> are in the body of the loop for one of them.
\<close>

datatype rebalance_pc =
    RbDone
  | RbThrown json_exn
  | RbStart
  | RbCount "nat list" "nat list" nat
  | RbTest double nat nat "nat list"
  | RbSet double nat nat nat "nat list"
  | RbTell double nat nat nat "nat list"

definition bias_log :: "double \<Rightarrow> nat \<Rightarrow> nat \<Rightarrow> agent \<Rightarrow> controller_effect" where
  "bias_log bias hot n ag = CfLog ''cluster_bias'' [(''host'', JStr (agHost ag)), (''hot_agents'', JInt (int hot)),
     (''offset_percent'', JReal bias), (''total_agents'', JInt (int n))]"

fun rb_step :: "controller_config \<Rightarrow> rebalance_pc \<Rightarrow> controller \<Rightarrow> rebalance_pc \<times> controller \<times> controller_effect list" where
  "rb_step cfg RbDone ct = (RbDone, ct, [])"
| "rb_step cfg (RbThrown e) ct = (RbThrown e, ct, [])"
| "rb_step cfg RbStart ct =
     (let ids = map snd (ctAgents ct) in (if ids = [] then RbDone else RbCount ids ids 0, ct, []))"
| "rb_step cfg (RbCount ids [] hot) ct = (RbTest (cluster_bias cfg hot (length ids)) hot (length ids) ids, ct, [])"
| "rb_step cfg (RbCount ids (a # as) hot) ct =
     (case value_double (agHeartbeat (ctStore ct a)) ''pressure_percent'' 0 of
        Inl e \<Rightarrow> (RbThrown e, ct, [])
      | Inr p \<Rightarrow> (RbCount ids as (if p \<ge> ccPressure cfg then hot + 1 else hot), ct, []))"
| "rb_step cfg (RbTest bias hot n []) ct = (RbDone, ct, [])"
| "rb_step cfg (RbTest bias hot n (a # as)) ct =
     (if agBiasSent (ctStore ct a) \<noteq> bias then RbSet bias hot n a as else RbTest bias hot n as, ct, [])"
| "rb_step cfg (RbSet bias hot n a as) ct =
     (RbTell bias hot n a as, ct\<lparr>ctStore := (ctStore ct)(a := (ctStore ct a)\<lparr>agBiasSent := bias\<rparr>)\<rparr>, [])"
| "rb_step cfg (RbTell bias hot n a as) ct =
     (RbTest bias hot n as, ct, [CfSend a (bias_message bias), bias_log bias hot n (ctStore ct a)])"

section \<open>A thread that is not disturbed\<close>

type_synonym rb_conf = "rebalance_pc \<times> controller \<times> controller_effect list"

fun rb_alone :: "controller_config \<Rightarrow> nat \<Rightarrow> rb_conf \<Rightarrow> rb_conf" where
  "rb_alone cfg 0 s = s"
| "rb_alone cfg (Suc n) (pc, ct, out) =
     (let (pc', ct', o') = rb_step cfg pc ct in rb_alone cfg n (pc', ct', out @ o'))"

lemma rb_alone_done [simp]: "rb_alone cfg n (RbDone, ct, out) = (RbDone, ct, out)"
  by (induction n arbitrary: out) auto

lemma rb_alone_thrown [simp]: "rb_alone cfg n (RbThrown e, ct, out) = (RbThrown e, ct, out)"
  by (induction n arbitrary: out) auto

lemma rb_alone_add: "rb_alone cfg (m + n) s = rb_alone cfg n (rb_alone cfg m s)"
  by (induction m arbitrary: s) (auto simp: split_beta)

text \<open>Looking at one agent, and telling one: at most three steps.\<close>

lemma rb_tell_one:
  obtains k where "k \<le> 3" and "rb_alone cfg k (RbTest bias hot n (a # as), ct, out) =
    (RbTest bias hot n as, ct\<lparr>ctStore := fst (send_bias bias hot n a (ctStore ct, []))\<rparr>,
     out @ snd (send_bias bias hot n a (ctStore ct, [])))"
proof (cases "agBiasSent (ctStore ct a) \<noteq> bias")
  case True
  then show ?thesis using that [of 3] by (simp add: eval_nat_numeral send_bias_def bias_log_def)
next
  case False
  then show ?thesis using that [of 1] by (simp add: send_bias_def)
qed

lemma send_bias_out: "send_bias bias hot n a (store, out) =
  (fst (send_bias bias hot n a (store, [])), out @ snd (send_bias bias hot n a (store, [])))"
  by (simp add: send_bias_def)

lemma rb_tell_all:
  "\<exists>k \<le> 3 * length as + 1. rb_alone cfg k (RbTest bias hot n as, ct, out) =
     (RbDone, ct\<lparr>ctStore := fst (fold (send_bias bias hot n) as (ctStore ct, out))\<rparr>,
      snd (fold (send_bias bias hot n) as (ctStore ct, out)))"
proof (induction as arbitrary: ct out)
  case Nil
  then show ?case by (intro exI [of _ 1]) simp
next
  case (Cons a as)
  let ?s = "send_bias bias hot n a (ctStore ct, [])"
  obtain k where k: "k \<le> 3" "rb_alone cfg k (RbTest bias hot n (a # as), ct, out) =
      (RbTest bias hot n as, ct\<lparr>ctStore := fst ?s\<rparr>, out @ snd ?s)" by (rule rb_tell_one)
  obtain l where l: "l \<le> 3 * length as + 1" "rb_alone cfg l (RbTest bias hot n as, ct\<lparr>ctStore := fst ?s\<rparr>, out @ snd ?s) =
      (RbDone, ct\<lparr>ctStore := fst (fold (send_bias bias hot n) as (fst ?s, out @ snd ?s))\<rparr>,
       snd (fold (send_bias bias hot n) as (fst ?s, out @ snd ?s)))"
    using Cons.IH [of "ct\<lparr>ctStore := fst ?s\<rparr>" "out @ snd ?s"] by auto
  have "fold (send_bias bias hot n) (a # as) (ctStore ct, out) = fold (send_bias bias hot n) as (fst ?s, out @ snd ?s)"
    using send_bias_out [of bias hot n a "ctStore ct" out] by simp
  then show ?case using k l by (intro exI [of _ "k + l"]) (simp add: rb_alone_add)
qed

lemma rb_count_all:
  "rb_alone cfg (Suc (length as)) (RbCount ids as hot, ct, out) =
     (case count_hot cfg (ctStore ct) as of
        Inl e \<Rightarrow> (RbThrown e, ct, out)
      | Inr h \<Rightarrow> (RbTest (cluster_bias cfg (hot + h) (length ids)) (hot + h) (length ids) ids, ct, out))"
proof (induction as arbitrary: hot)
  case (Cons a as)
  show ?case
    using Cons.IH by (cases "value_double (agHeartbeat (ctStore ct a)) ''pressure_percent'' 0";
      cases "count_hot cfg (ctStore ct) as") (auto simp del: rb_alone.simps(1))
qed simp

text \<open>
  C27.  The atomic step of the model is what the code computes when a thread is not disturbed: within
  three steps plus four per agent in the table, a thread that starts rebalancing ends, with exactly the
  table, the records and the messages of \<open>Rebalance\<close>, or with its exception and the table as it was.
\<close>

theorem undisturbed_rebalance_is_atomic:
  "3 + 4 * length (ctAgents ct) \<le> n \<Longrightarrow>
   rb_alone cfg n (RbStart, ct, []) =
     (case Rebalance cfg ct of
        Inl e \<Rightarrow> (RbThrown e, ct, [])
      | Inr (ct', out) \<Rightarrow> (RbDone, ct', out))"
proof -
  assume n: "3 + 4 * length (ctAgents ct) \<le> n"
  let ?ids = "map snd (ctAgents ct)"
  have stop: "rb_alone cfg n s0 = s1" if "rb_alone cfg k s0 = s1" "fst s1 \<in> {RbDone} \<union> range RbThrown" "k \<le> n" for k s0 s1
  proof -
    have "rb_alone cfg (k + (n - k)) s0 = s1" unfolding rb_alone_add that(1) using that(2) by (cases s1) auto
    then show ?thesis using that(3) by simp
  qed
  show ?thesis
  proof (cases "ctAgents ct = []")
    case True
    then show ?thesis using n by (intro stop [of 1]) (auto simp: Rebalance_def)
  next
    case ne: False
    have st: "rb_alone cfg (Suc (Suc (length ?ids))) (RbStart, ct, []) =
        (case count_hot cfg (ctStore ct) ?ids of
          Inl e \<Rightarrow> (RbThrown e, ct, [])
        | Inr h \<Rightarrow> (RbTest (cluster_bias cfg h (length ?ids)) h (length ?ids) ?ids, ct, []))"
      using rb_count_all [of cfg ?ids ?ids 0 ct "[]"] ne by (simp add: Let_def cong: sum.case_cong)
    show ?thesis
    proof (cases "count_hot cfg (ctStore ct) ?ids")
      case (Inl e)
      then show ?thesis using st n ne by (intro stop [of "Suc (Suc (length ?ids))"]) (auto simp: Rebalance_def Let_def)
    next
      case (Inr h)
      let ?b = "cluster_bias cfg h (length ?ids)"
      let ?f = "fold (send_bias ?b h (length ?ids)) ?ids (ctStore ct, [])"
      obtain k where k: "k \<le> 3 * length ?ids + 1" "rb_alone cfg k (RbTest ?b h (length ?ids) ?ids, ct, []) =
          (RbDone, ct\<lparr>ctStore := fst ?f\<rparr>, snd ?f)" using rb_tell_all [of ?ids cfg ?b h "length ?ids" ct "[]"] by blast
      have "rb_alone cfg (Suc (Suc (length ?ids)) + k) (RbStart, ct, []) = (RbDone, ct\<lparr>ctStore := fst ?f\<rparr>, snd ?f)"
        unfolding rb_alone_add st Inr using k(2) by simp
      moreover have "Rebalance cfg ct = Inr (ct\<lparr>ctStore := fst ?f\<rparr>, snd ?f)"
        using ne Inr by (simp add: Rebalance_def Let_def split_beta)
      ultimately show ?thesis using n k(1) by (intro stop [of "Suc (Suc (length ?ids)) + k"]) auto
    qed
  qed
qed

theorem undisturbed_rebalance_is_atomic_witness:
  "rb_alone default_controller_config 7 (RbStart, one_agent\<lparr>ctStore := (ctStore one_agent)(0 := new_agent ''host'' 7\<lparr>agHeartbeat := hot_heartbeat\<rparr>)\<rparr>, []) =
     (RbDone, one_agent\<lparr>ctStore := (ctStore one_agent)(0 := new_agent ''host'' 7\<lparr>agHeartbeat := hot_heartbeat, agBiasSent := 5\<rparr>)\<rparr>,
      [CfSend 0 (bias_message 5), bias_log 5 1 1 (new_agent ''host'' 7)])"
  (is "rb_alone _ _ (_, ?ct, _) = _")
proof -
  have "3 + 4 * length (ctAgents ?ct) \<le> 7" by (simp add: one_agent_def)
  from undisturbed_rebalance_is_atomic [OF this] show ?thesis
    by (simp add: Rebalance_def one_agent_def hot_heartbeat_def value_double_def new_agent_def cluster_bias_def
        default_controller_config_def send_bias_def bias_log_def new_controller_def Let_def)
qed

section \<open>The threads together\<close>

text \<open>
  \<open>csUsed\<close> are the connections made so far, each with its thread; \<open>csSent\<close> is what has been sent on
  the agents' channels, in order.
\<close>

record csystem =
  csCt :: controller
  csPc :: "nat \<Rightarrow> rebalance_pc"
  csUsed :: "nat list"
  csSent :: "(nat \<times> json) list"

definition cs_start :: csystem where
  "cs_start = \<lparr>csCt = new_controller, csPc = (\<lambda>_. RbDone), csUsed = [], csSent = []\<rparr>"

definition cs_idle :: "csystem \<Rightarrow> bool" where
  "cs_idle s = list_all (\<lambda>i. csPc s i = RbDone) (csUsed s)"

datatype cs_event =
    CvConnect crypto_os u64 u64 string string "string option" "string option" nat
  | CvHeartbeat u64 nat json
  | CvMessage u64 nat "json option"
  | CvClose nat
  | CvConsole "string \<Rightarrow> string \<Rightarrow> bool" string
  | CvRun nat

text \<open>A thread reads its connection only between two rebalancings.\<close>

definition cs_ready :: "bool \<Rightarrow> nat \<Rightarrow> csystem \<Rightarrow> bool" where
  "cs_ready serial i s = (i \<in> set (csUsed s) \<and> csPc s i = RbDone \<and> (serial \<longrightarrow> cs_idle s))"

definition cs_begin :: "nat \<Rightarrow> controller \<Rightarrow> csystem \<Rightarrow> csystem" where
  "cs_begin i ct s = s\<lparr>csCt := ct, csPc := (csPc s)(i := RbStart)\<rparr>"

definition cs_other :: "controller \<times> controller_effect list \<Rightarrow> csystem \<Rightarrow> csystem" where
  "cs_other r s = s\<lparr>csCt := fst r, csSent := csSent s @ sends (snd r)\<rparr>"

definition heartbeat_state :: "u64 \<Rightarrow> nat \<Rightarrow> json \<Rightarrow> controller \<Rightarrow> controller" where
  "heartbeat_state now i msg ct = ct\<lparr>ctStore := (ctStore ct)(i := (ctStore ct i)\<lparr>agLastSeen := now, agHeartbeat := msg\<rparr>)\<rparr>"

text \<open>
  \<open>None\<close>: the event cannot happen now, or it ends the program.  With \<open>serial\<close> a rebalancing begins only
  when no other is under way, as under a mutex around \<open>Rebalance\<close>; the code has none.
\<close>

fun cs_do :: "controller_config \<Rightarrow> bool \<Rightarrow> cs_event \<Rightarrow> csystem \<Rightarrow> csystem option" where
  "cs_do cfg serial (CvConnect os t0 t1 peer sn recv1 recv2 a) s =
     (if a \<in> set (csUsed s) then None
      else (let (r, ct, out) = accept_agent os cfg t0 t1 peer sn recv1 recv2 a (csCt s)
            in Some (s\<lparr>csCt := ct, csUsed := a # csUsed s\<rparr>)))"
| "cs_do cfg serial (CvHeartbeat now i msg) s =
     (if cs_ready serial i s \<and> is_heartbeat msg
      then Some (cs_begin i (heartbeat_state now i msg (csCt s)) s) else None)"
| "cs_do cfg serial (CvMessage now i parsed) s =
     (if cs_ready False i s \<and> (case parsed of None \<Rightarrow> True | Some msg \<Rightarrow> \<not> is_heartbeat msg)
      then (case agent_message cfg now i parsed (csCt s) of Inl e \<Rightarrow> None | Inr r \<Rightarrow> Some (cs_other r s)) else None)"
| "cs_do cfg serial (CvClose i) s =
     (if cs_ready serial i s then Some (cs_begin i (drop_agent i (csCt s)) s) else None)"
| "cs_do cfg serial (CvConsole same raw) s =
     (case Console same raw (csCt s) of Inl e \<Rightarrow> None | Inr r \<Rightarrow> Some (cs_other r s))"
| "cs_do cfg serial (CvRun i) s =
     (let (pc, ct, out) = rb_step cfg (csPc s i) (csCt s)
      in case pc of RbThrown e \<Rightarrow> None
         | _ \<Rightarrow> Some (s\<lparr>csCt := ct, csPc := (csPc s)(i := pc), csSent := csSent s @ sends out\<rparr>))"

fun cs_run :: "controller_config \<Rightarrow> bool \<Rightarrow> cs_event list \<Rightarrow> csystem \<Rightarrow> csystem option" where
  "cs_run cfg serial [] s = Some s"
| "cs_run cfg serial (e # es) s =
     (case cs_do cfg serial e s of None \<Rightarrow> None | Some s' \<Rightarrow> cs_run cfg serial es s')"

text \<open>The listener's loop: each connection that is accepted gets a thread; \<open>None\<close> ends the loop.\<close>

definition accept_turn :: "(nat \<times> string) option \<Rightarrow> controller \<Rightarrow> (nat \<times> string) list option" where
  "accept_turn accepted ct = (if \<not> ctRunning ct then None else Some (case accepted of None \<Rightarrow> [] | Some c \<Rightarrow> [c]))"

text \<open>The biases an agent has been told, and the one its daemon therefore has.\<close>

fun told :: "nat \<Rightarrow> (nat \<times> json) list \<Rightarrow> double list" where
  "told a [] = []"
| "told a ((b, m) # ms) =
     (case jfind m ''offset_percent'' of
        Some (JReal x) \<Rightarrow> if b = a then x # told a ms else told a ms
      | _ \<Rightarrow> told a ms)"

definition agent_bias :: "nat \<Rightarrow> csystem \<Rightarrow> double" where
  "agent_bias a s = (case rev (told a (csSent s)) of [] \<Rightarrow> 0 | x # _ \<Rightarrow> x)"

lemma told_append [simp]: "told a (xs @ ys) = told a xs @ told a ys"
  by (induction a xs rule: told.induct) (auto split: option.splits json.splits)

lemma told_bias [simp]: "told a [(b, bias_message x)] = (if b = a then [x] else [])"
  by (simp add: bias_message_def)

section \<open>The invariant of serial runs\<close>

text \<open>Which agent's bias has been recorded but not yet sent.\<close>

fun owed :: "rebalance_pc \<Rightarrow> (nat \<times> double) option" where
  "owed (RbTell bias hot n a as) = Some (a, bias)"
| "owed _ = None"

text \<open>The agents a thread has in hand.\<close>

fun in_hand :: "rebalance_pc \<Rightarrow> nat set" where
  "in_hand (RbCount ids as hot) = set ids \<union> set as"
| "in_hand (RbTest bias hot n as) = set as"
| "in_hand (RbSet bias hot n a as) = insert a (set as)"
| "in_hand (RbTell bias hot n a as) = insert a (set as)"
| "in_hand _ = {}"

definition cs_inv :: "csystem \<Rightarrow> bool" where
  "cs_inv s \<longleftrightarrow> table_ok (csCt s) (set (csUsed s)) \<and>
     (\<forall>i. i \<notin> set (csUsed s) \<longrightarrow> csPc s i = RbDone \<and> told i (csSent s) = []) \<and>
     (\<forall>i. in_hand (csPc s i) \<subseteq> set (csUsed s))"

definition cs_serial_inv :: "csystem \<Rightarrow> bool" where
  "cs_serial_inv s \<longleftrightarrow> (\<forall>i j. csPc s i \<noteq> RbDone \<longrightarrow> csPc s j \<noteq> RbDone \<longrightarrow> i = j) \<and>
     (\<forall>i a b. owed (csPc s i) = Some (a, b) \<longrightarrow> agBiasSent (ctStore (csCt s) a) = b) \<and>
     (\<forall>a. (\<forall>i b. owed (csPc s i) \<noteq> Some (a, b)) \<longrightarrow> agent_bias a s = agBiasSent (ctStore (csCt s) a))"

subsection \<open>The steps\<close>

text \<open>The agent a step records a bias for.\<close>

fun records :: "rebalance_pc \<Rightarrow> (nat \<times> double) option" where
  "records (RbSet bias hot n a as) = Some (a, bias)"
| "records _ = None"

lemma rb_step_effect:
  assumes "rb_step cfg pc ct = (pc', ct', out)"
  shows "ctAgents ct' = ctAgents ct" and "agHost (ctStore ct' b) = agHost (ctStore ct b)"
    and "agBiasSent (ctStore ct' b) = (case records pc of None \<Rightarrow> agBiasSent (ctStore ct b)
      | Some (a, x) \<Rightarrow> if b = a then x else agBiasSent (ctStore ct b))"
    and "owed pc' = records pc"
    and "told b (sends out) = (case owed pc of None \<Rightarrow> [] | Some (a, x) \<Rightarrow> if a = b then [x] else [])"
    and "in_hand pc' \<subseteq> in_hand pc \<union> snd ` set (ctAgents ct)"
proof -
  have "ctAgents ct' = ctAgents ct \<and> agHost (ctStore ct' b) = agHost (ctStore ct b) \<and>
    agBiasSent (ctStore ct' b) = (case records pc of None \<Rightarrow> agBiasSent (ctStore ct b)
      | Some (a, x) \<Rightarrow> if b = a then x else agBiasSent (ctStore ct b)) \<and>
    owed pc' = records pc \<and>
    told b (sends out) = (case owed pc of None \<Rightarrow> [] | Some (a, x) \<Rightarrow> if a = b then [x] else []) \<and>
    in_hand pc' \<subseteq> in_hand pc \<union> snd ` set (ctAgents ct)"
    using assms
  proof (cases "(cfg, pc, ct)" rule: rb_step.cases)
    case (5 cfg ids a as hot ct)
    then show ?thesis using assms
      by (cases "value_double (agHeartbeat (ctStore ct a)) ''pressure_percent'' 0") auto
  next
    case (9 cfg bias hot n a as ct)
    then show ?thesis using assms by (auto simp: bias_log_def simp del: told.simps(2))
  qed (auto simp: Let_def split: if_splits)
  then show "ctAgents ct' = ctAgents ct" and "agHost (ctStore ct' b) = agHost (ctStore ct b)"
    and "agBiasSent (ctStore ct' b) = (case records pc of None \<Rightarrow> agBiasSent (ctStore ct b)
      | Some (a, x) \<Rightarrow> if b = a then x else agBiasSent (ctStore ct b))"
    and "owed pc' = records pc"
    and "told b (sends out) = (case owed pc of None \<Rightarrow> [] | Some (a, x) \<Rightarrow> if a = b then [x] else [])"
    and "in_hand pc' \<subseteq> in_hand pc \<union> snd ` set (ctAgents ct)" by blast+
qed

lemma send_commands_told: "told a (sends (snd (send_commands c ids ct))) = []"
  by (induction ids arbitrary: ct) (simp_all add: split_beta Let_def)

lemma show_agents_sends: "show_agents store as = Inr out \<Longrightarrow> sends out = []"
  by (induction store as arbitrary: out rule: show_agents.induct) (auto simp: bindE_Inr)

lemma Console_quiet:
  assumes "Console same raw ct = Inr (ct', out)"
  shows "told a (sends out) = []" and "ctAgents ct' = ctAgents ct" and "ctStore ct' = ctStore ct"
proof -
  show "ctAgents ct' = ctAgents ct" "ctStore ct' = ctStore ct" using Console_table [OF assms] by auto
  have p: "sends o1 = []" if "PrintAgents ct = Inr o1" for o1
    using that show_agents_sends by (auto simp: PrintAgents_def split: if_splits)
  show "told a (sends out) = []"
    using assms send_commands_told p
    by (auto simp: Console_def Let_def bindE_Inr split: if_splits; metis snd_conv)
qed

lemma agent_message_quiet:
  assumes "agent_message cfg now i parsed ct = Inr (ct', out)"
    and "case parsed of None \<Rightarrow> True | Some msg \<Rightarrow> \<not> is_heartbeat msg"
  shows "sends out = []" and "ctAgents ct' = ctAgents ct" and "agHost (ctStore ct' b) = agHost (ctStore ct b)"
    and "agBiasSent (ctStore ct' b) = agBiasSent (ctStore ct b)"
proof -
  have "sends out = [] \<and> (ct' = ct \<or> ct' = ct\<lparr>ctStore := (ctStore ct)(i := (ctStore ct i)\<lparr>agLastSeen := now\<rparr>)\<rparr>)"
  proof (cases parsed)
    case None
    then show ?thesis using assms(1) by (simp add: agent_message_def)
  next
    case (Some msg)
    then have n: "\<not> is_heartbeat msg" using assms(2) by simp
    show ?thesis
    proof (cases "is_object msg")
      case False
      then show ?thesis using assms(1) Some by (simp add: agent_message_def)
    next
      case True
      then obtain type where t: "value_string msg ''type'' [] = Inr type"
        using assms(1) Some by (cases "value_string msg ''type'' []") (simp_all add: agent_message_def lift_exn_def)
      then have "type \<noteq> ''heartbeat''" using n True by (simp add: is_heartbeat_def)
      then show ?thesis using assms(1) Some True t
        by (cases "show_event (jfind msg ''event'')")
          (auto simp: agent_message_def lift_exn_def Let_def split: if_splits)
    qed
  qed
  then show "sends out = []" "ctAgents ct' = ctAgents ct" "agHost (ctStore ct' b) = agHost (ctStore ct b)"
    "agBiasSent (ctStore ct' b) = agBiasSent (ctStore ct b)" by auto
qed

subsection \<open>Every run keeps the invariants\<close>

lemma owed_in_hand: "owed pc = Some (a, x) \<Longrightarrow> a \<in> in_hand pc"
  by (cases pc) auto

lemma owed_busy: "owed pc = Some (a, x) \<Longrightarrow> pc \<noteq> RbDone"
  by auto

lemma table_in_used: "cs_inv s \<Longrightarrow> snd ` set (ctAgents (csCt s)) \<subseteq> set (csUsed s)"
  by (auto simp: cs_inv_def table_ok_def)

lemma cs_invD:
  assumes "cs_inv s"
  shows "table_ok (csCt s) (set (csUsed s))" and "i \<notin> set (csUsed s) \<Longrightarrow> csPc s i = RbDone"
    and "i \<notin> set (csUsed s) \<Longrightarrow> told i (csSent s) = []" and "in_hand (csPc s i) \<subseteq> set (csUsed s)"
  using assms by (auto simp: cs_inv_def)

lemma cs_idle_iff: "cs_inv s \<Longrightarrow> cs_idle s \<longleftrightarrow> (\<forall>i. csPc s i = RbDone)"
  using cs_invD(2) by (auto simp: cs_idle_def list_all_iff)

lemma cs_inv_begin:
  "cs_inv s \<Longrightarrow> table_ok ct (set (csUsed s)) \<Longrightarrow> i \<in> set (csUsed s) \<Longrightarrow> cs_inv (cs_begin i ct s)"
  by (auto simp: cs_inv_def cs_begin_def)

lemma table_ok_cong:
  "ctAgents ct' = ctAgents ct \<Longrightarrow> (\<And>b. agHost (ctStore ct' b) = agHost (ctStore ct b)) \<Longrightarrow> table_ok ct used \<Longrightarrow> table_ok ct' used"
  by (auto simp: table_ok_def)

lemma cs_inv_other:
  assumes "cs_inv s" and "ctAgents ct = ctAgents (csCt s)"
    and "\<And>b. agHost (ctStore ct b) = agHost (ctStore (csCt s) b)" and "\<And>a. told a (sends out) = []"
  shows "cs_inv (cs_other (ct, out) s)"
  using assms table_ok_cong [OF assms(2,3)] by (auto simp: cs_inv_def cs_other_def)

lemma accept_agent_store:
  assumes "accept_agent os cfg t0 t1 peer sn recv1 recv2 a ct = (r, ct', out)"
  shows "ctStore ct' = ctStore ct \<or> (\<exists>h. ctStore ct' = (ctStore ct)(a := new_agent h t1))"
proof -
  have "ctStore (snd (LockedOut t0 peer ct)) = ctStore ct"
    by (auto simp: LockedOut_def split: option.splits if_splits)
  moreover have "ctStore (RecordFailure t1 peer c) = ctStore c" for c by (simp add: RecordFailure_def split_beta Let_def)
  ultimately show ?thesis using assms
    by (auto simp: accept_agent_def split_beta Let_def split: if_splits prod.splits handshake.splits)
qed

lemma cs_inv_run:
  assumes "cs_inv s" and "rb_step cfg (csPc s i) (csCt s) = (pc, ct, out)"
  shows "cs_inv (s\<lparr>csCt := ct, csPc := (csPc s)(i := pc), csSent := csSent s @ sends out\<rparr>)"
proof -
  note e = rb_step_effect [OF assms(2)]
  have t: "table_ok ct (set (csUsed s))" using table_ok_cong [OF e(1,2)] cs_invD(1) [OF assms(1)] by blast
  have h: "in_hand pc \<subseteq> set (csUsed s)" using e(6) cs_invD(4) [OF assms(1)] table_in_used [OF assms(1)] by blast
  have "told j (sends out) = []" if "j \<notin> set (csUsed s)" for j
    using e(5) [of j] owed_in_hand [of "csPc s i"] cs_invD(4) [OF assms(1), of i] that by (auto split: option.splits)
  moreover have "pc = RbDone" if "i \<notin> set (csUsed s)" using cs_invD(2) [OF assms(1) that] assms(2) by simp
  ultimately show ?thesis using assms(1) t h by (auto simp: cs_inv_def)
qed

lemma cs_inv_do: "cs_do cfg serial e s = Some s' \<Longrightarrow> cs_inv s \<Longrightarrow> cs_inv s'"
proof (cases e)
  case (CvConnect os t0 t1 peer sn recv1 recv2 a)
  assume d: "cs_do cfg serial e s = Some s'" and i: "cs_inv s"
  obtain r ct out where a: "accept_agent os cfg t0 t1 peer sn recv1 recv2 a (csCt s) = (r, ct, out)"
    by (metis prod_cases3)
  have n: "a \<notin> set (csUsed s)" and s': "s' = s\<lparr>csCt := ct, csUsed := a # csUsed s\<rparr>"
    using d a CvConnect by (auto split: if_splits)
  have "table_ok ct (insert a (set (csUsed s)))" by (rule accept_agent_table [OF a cs_invD(1) [OF i] n])
  then show ?thesis using i unfolding s' cs_inv_def by (simp add: subset_insertI2)
next
  case (CvHeartbeat now i msg)
  assume d: "cs_do cfg serial e s = Some s'" and inv: "cs_inv s"
  have "table_ok (heartbeat_state now i msg (csCt s)) (set (csUsed s))"
    unfolding heartbeat_state_def by (rule table_ok_store [OF cs_invD(1) [OF inv]]) simp
  then show ?thesis using d inv CvHeartbeat by (auto simp: cs_ready_def cs_inv_begin split: if_splits)
next
  case (CvMessage now i parsed)
  assume d: "cs_do cfg serial e s = Some s'" and inv: "cs_inv s"
  then obtain ct out where m: "agent_message cfg now i parsed (csCt s) = Inr (ct, out)" "s' = cs_other (ct, out) s"
      "case parsed of None \<Rightarrow> True | Some msg \<Rightarrow> \<not> is_heartbeat msg"
    using CvMessage by (auto split: if_splits sum.splits)
  note q = agent_message_quiet [OF m(1,3)]
  then show ?thesis unfolding m(2) by (intro cs_inv_other [OF inv]) simp_all
next
  case (CvClose i)
  assume "cs_do cfg serial e s = Some s'" and "cs_inv s"
  then show ?thesis using CvClose drop_agent_table [OF cs_invD(1)]
    by (auto simp: cs_ready_def cs_inv_begin split: if_splits)
next
  case (CvConsole same raw)
  assume d: "cs_do cfg serial e s = Some s'" and inv: "cs_inv s"
  then obtain ct out where m: "Console same raw (csCt s) = Inr (ct, out)" "s' = cs_other (ct, out) s"
    using CvConsole by (auto split: sum.splits)
  show ?thesis unfolding m(2) by (intro cs_inv_other [OF inv]) (simp_all add: Console_quiet [OF m(1)])
next
  case (CvRun i)
  assume d: "cs_do cfg serial e s = Some s'" and inv: "cs_inv s"
  obtain pc ct out where r: "rb_step cfg (csPc s i) (csCt s) = (pc, ct, out)" by (metis prod_cases3)
  then have "s' = s\<lparr>csCt := ct, csPc := (csPc s)(i := pc), csSent := csSent s @ sends out\<rparr>"
    using d CvRun by (auto split: rebalance_pc.splits)
  then show ?thesis using cs_inv_run [OF inv r] by simp
qed

lemma agent_bias_append:
  "agent_bias a (s\<lparr>csCt := ct, csPc := pcs, csSent := csSent s @ ms\<rparr>) =
     (case rev (told a ms) of [] \<Rightarrow> agent_bias a s | x # _ \<Rightarrow> x)"
  by (simp add: agent_bias_def split: list.split)

text \<open>What a serial run keeps, event by event.\<close>

lemma cs_serial_same:
  assumes "cs_serial_inv s" and "csPc s' = csPc s" and "\<And>a. agBiasSent (ctStore (csCt s') a) = agBiasSent (ctStore (csCt s) a)"
    and "\<And>a. agent_bias a s' = agent_bias a s"
  shows "cs_serial_inv s'"
  using assms unfolding cs_serial_inv_def by metis

lemma cs_serial_begin:
  assumes "cs_serial_inv s" and "\<forall>j. csPc s j = RbDone"
    and "\<And>a. agBiasSent (ctStore ct a) = agBiasSent (ctStore (csCt s) a)"
  shows "cs_serial_inv (cs_begin i ct s)"
proof -
  have "agent_bias a (cs_begin i ct s) = agent_bias a s" for a by (simp add: agent_bias_def cs_begin_def)
  moreover have "agent_bias a s = agBiasSent (ctStore (csCt s) a)" for a
    using assms(1,2) unfolding cs_serial_inv_def by simp
  ultimately show ?thesis using assms(2,3) by (auto simp: cs_serial_inv_def cs_begin_def split: if_splits)
qed

lemma cs_serial_run:
  assumes "cs_serial_inv s" and "rb_step cfg (csPc s i) (csCt s) = (pc, ct, out)"
  shows "cs_serial_inv (s\<lparr>csCt := ct, csPc := (csPc s)(i := pc), csSent := csSent s @ sends out\<rparr>)"
proof (cases "csPc s i = RbDone")
  case True
  then have "pc = RbDone" "ct = csCt s" "out = []" using assms(2) by auto
  then show ?thesis using True assms(1) by (intro cs_serial_same [OF assms(1)]) (auto simp: agent_bias_def)
next
  case busy: False
  note e = rb_step_effect [OF assms(2)]
  have one: "\<And>j. csPc s j \<noteq> RbDone \<Longrightarrow> j = i" using assms(1) busy unfolding cs_serial_inv_def by blast
  then have none: "owed (csPc s j) = None" if "j \<noteq> i" for j using that by (metis owed.simps(2))
  have rec: "agBiasSent (ctStore (csCt s) a) = x" if "owed (csPc s i) = Some (a, x)" for a x
    using assms(1) that unfolding cs_serial_inv_def by blast
  have eq: "agent_bias a s = agBiasSent (ctStore (csCt s) a)" if "\<And>x. owed (csPc s i) \<noteq> Some (a, x)" for a
    using assms(1) that none unfolding cs_serial_inv_def by (metis option.distinct(1))
  define t where "t = s\<lparr>csCt := ct, csPc := (csPc s)(i := pc), csSent := csSent s @ sends out\<rparr>"
  have t: "csCt t = ct" "csPc t = (csPc s)(i := pc)" by (simp_all add: t_def)
  have bt: "agent_bias a t = (case owed (csPc s i) of None \<Rightarrow> agent_bias a s
      | Some (b, x) \<Rightarrow> if b = a then x else agent_bias a s)" for a
    unfolding t_def agent_bias_append e(5) by (simp split: option.split)
  have "cs_serial_inv t"
    unfolding cs_serial_inv_def
  proof (intro conjI allI impI)
    fix j k assume "csPc t j \<noteq> RbDone" "csPc t k \<noteq> RbDone"
    then show "j = k" using one by (auto simp: t split: if_splits)
  next
    fix j a x assume "owed (csPc t j) = Some (a, x)"
    then have "records (csPc s i) = Some (a, x)" using none e(4) by (auto simp: t split: if_splits)
    then show "agBiasSent (ctStore (csCt t) a) = x" using e(3) [of a] by (simp add: t)
  next
    fix a assume h: "\<forall>j x. owed (csPc t j) \<noteq> Some (a, x)"
    have n: "records (csPc s i) \<noteq> Some (a, x)" for x using h [rule_format, of i x] e(4) by (simp add: t)
    then have st: "agBiasSent (ctStore (csCt t) a) = agBiasSent (ctStore (csCt s) a)"
      using e(3) [of a] by (auto simp: t split: option.split)
    show "agent_bias a t = agBiasSent (ctStore (csCt t) a)"
    proof (cases "\<exists>x. owed (csPc s i) = Some (a, x)")
      case True
      then show ?thesis unfolding st bt using rec by auto
    next
      case False
      then show ?thesis unfolding st bt using eq [of a] by (auto split: option.split)
    qed
  qed
  then show ?thesis by (simp add: t_def)
qed

lemma cs_serial_do:
  assumes "cs_do cfg True e s = Some s'" and "cs_inv s" and "cs_serial_inv s"
  shows "cs_serial_inv s'"
proof (cases e)
  case (CvConnect os t0 t1 peer sn recv1 recv2 a)
  obtain r ct out where a: "accept_agent os cfg t0 t1 peer sn recv1 recv2 a (csCt s) = (r, ct, out)"
    by (metis prod_cases3)
  have n: "a \<notin> set (csUsed s)" and s': "s' = s\<lparr>csCt := ct, csUsed := a # csUsed s\<rparr>"
    using assms(1) a CvConnect by (auto split: if_splits)
  have "told a (csSent s) = []" using cs_invD(3) [OF assms(2) n] .
  moreover have "\<And>i b. owed (csPc s i) \<noteq> Some (a, b)" using owed_in_hand cs_invD(4) [OF assms(2)] n by blast
  ultimately have "agBiasSent (ctStore (csCt s) a) = 0"
    using assms(3) unfolding cs_serial_inv_def agent_bias_def by fastforce
  then have "agBiasSent (ctStore ct b) = agBiasSent (ctStore (csCt s) b)" for b
    using accept_agent_store [OF a] by (auto simp: new_agent_def)
  then show ?thesis unfolding s' by (intro cs_serial_same [OF assms(3)]) (simp_all add: agent_bias_def)
next
  case (CvHeartbeat now i msg)
  then have "s' = cs_begin i (heartbeat_state now i msg (csCt s)) s" "cs_idle s"
    using assms(1) by (auto simp: cs_ready_def split: if_splits)
  then show ?thesis using cs_serial_begin [OF assms(3)] cs_idle_iff [OF assms(2)] by (auto simp: heartbeat_state_def)
next
  case (CvMessage now i parsed)
  then obtain ct out where m: "agent_message cfg now i parsed (csCt s) = Inr (ct, out)" "s' = cs_other (ct, out) s"
      "case parsed of None \<Rightarrow> True | Some msg \<Rightarrow> \<not> is_heartbeat msg"
    using assms(1) by (auto split: if_splits sum.splits)
  note q = agent_message_quiet [OF m(1,3)]
  then show ?thesis unfolding m(2) by (intro cs_serial_same [OF assms(3)]) (simp_all add: cs_other_def agent_bias_def)
next
  case (CvClose i)
  then have "s' = cs_begin i (drop_agent i (csCt s)) s" "cs_idle s"
    using assms(1) by (auto simp: cs_ready_def split: if_splits)
  then show ?thesis using cs_serial_begin [OF assms(3)] cs_idle_iff [OF assms(2)] by (auto simp: drop_agent_def Let_def)
next
  case (CvConsole same raw)
  then obtain ct out where m: "Console same raw (csCt s) = Inr (ct, out)" "s' = cs_other (ct, out) s"
    using assms(1) by (auto split: sum.splits)
  note q = Console_quiet [OF m(1)]
  show ?thesis unfolding m(2) by (intro cs_serial_same [OF assms(3)]) (simp_all add: cs_other_def agent_bias_def q)
next
  case (CvRun i)
  obtain pc ct out where r: "rb_step cfg (csPc s i) (csCt s) = (pc, ct, out)" by (metis prod_cases3)
  then have "s' = s\<lparr>csCt := ct, csPc := (csPc s)(i := pc), csSent := csSent s @ sends out\<rparr>"
    using assms(1) CvRun by (auto split: rebalance_pc.splits)
  then show ?thesis using cs_serial_run [OF assms(3) r] by simp
qed

lemma cs_start_inv: "cs_inv cs_start" "cs_serial_inv cs_start"
  by (auto simp: cs_inv_def cs_serial_inv_def cs_start_def table_ok_def new_controller_def okeys_def agent_bias_def new_agent_def)

lemma cs_run_serial:
  "cs_run cfg True es s = Some s' \<Longrightarrow> cs_inv s \<Longrightarrow> cs_serial_inv s \<Longrightarrow> cs_inv s' \<and> cs_serial_inv s'"
  by (induction es arbitrary: s) (auto split: option.splits dest: cs_inv_do cs_serial_do)

section \<open>A race\<close>

definition crypto_for :: "string \<Rightarrow> crypto_os" where
  "crypto_for h = open_crypto\<lparr>coJson := (\<lambda>s. Some (if s = [] then hello_json h (replicate 32 CHR ''n'') else proof_json []))\<rparr>"

definition pressure_message :: "double \<Rightarrow> json" where
  "pressure_message p = JObj [(''pressure_percent'', JReal p), (''type'', JStr ''heartbeat'')]"

definition race_agent :: "string \<Rightarrow> json \<Rightarrow> u64 \<Rightarrow> double \<Rightarrow> agent" where
  "race_agent h hb seen x = \<lparr>agHost = h, agHeartbeat = hb, agLastSeen = seen, agBiasSent = x\<rparr>"

definition race_ct :: "agent \<Rightarrow> agent \<Rightarrow> controller" where
  "race_ct x y = new_controller\<lparr>ctAgents := [(''a'', 0), (''b'', 1)], ctStore := (\<lambda>_. new_agent [] 0)(0 := x, Suc 0 := y)\<rparr>"

lemma connects_as:
  "h \<noteq> [] \<Longrightarrow> length h \<le> 255 \<Longrightarrow> ctFailures ct = [] \<Longrightarrow>
   \<exists>r out. accept_agent (crypto_for h) default_controller_config 7 7 ''peer'' [] (Some []) (Some ''x'') a ct =
     (r, ct\<lparr>ctStore := (ctStore ct)(a := new_agent h 7), ctAgents := omap_put h a (ctAgents ct)\<rparr>, out)"
  by (simp add: accept_agent_def LockedOut_def ServerHandshake_def hello_rejected_def discarded_or_def proof_rejected_def
      crypto_for_def open_crypto_def hello_json_def proof_json_def value_string_def value_int_def HmacSha256_def Hash_def Sha256_def
      del: ToHex.simps)

lemma race_ct_simps:
  "ctAgents (race_ct x y) = [(''a'', 0), (''b'', Suc 0)]"
  "ctStore (race_ct x y) 0 = x" "ctStore (race_ct x y) (Suc 0) = y"
  "race_ct x y\<lparr>ctStore := (ctStore (race_ct x y))(0 := z)\<rparr> = race_ct z y"
  "race_ct x y\<lparr>ctStore := (ctStore (race_ct x y))(Suc 0 := z)\<rparr> = race_ct x z"
  by (simp_all add: race_ct_def fun_upd_twist)

definition race_sys :: "agent \<Rightarrow> agent \<Rightarrow> rebalance_pc \<Rightarrow> rebalance_pc \<Rightarrow> (nat \<times> json) list \<Rightarrow> csystem" where
  "race_sys x y p q sent = \<lparr>csCt = race_ct x y, csPc = (\<lambda>_. RbDone)(0 := p, Suc 0 := q), csUsed = [Suc 0, 0], csSent = sent\<rparr>"

lemma race_sys_simps:
  "csCt (race_sys x y p q sent) = race_ct x y" "csPc (race_sys x y p q sent) 0 = p"
  "csPc (race_sys x y p q sent) (Suc 0) = q" "csUsed (race_sys x y p q sent) = [Suc 0, 0]"
  "csSent (race_sys x y p q sent) = sent"
  "race_sys x y p q sent\<lparr>csCt := race_ct x' y', csPc := (csPc (race_sys x y p q sent))(0 := r), csSent := sent'\<rparr> =
     race_sys x' y' r q sent'"
  "race_sys x y p q sent\<lparr>csCt := race_ct x' y', csPc := (csPc (race_sys x y p q sent))(Suc 0 := r), csSent := sent'\<rparr> =
     race_sys x' y' p r sent'"
  "race_sys x y p q sent\<lparr>csCt := race_ct x' y', csPc := (csPc (race_sys x y p q sent))(0 := r)\<rparr> = race_sys x' y' r q sent"
  "race_sys x y p q sent\<lparr>csCt := race_ct x' y', csPc := (csPc (race_sys x y p q sent))(Suc 0 := r)\<rparr> = race_sys x' y' p r sent"
  "race_sys x y p q sent\<lparr>csSent := sent'\<rparr> = race_sys x y p q sent'"
  by (simp_all add: race_sys_def fun_upd_twist)

lemma race_agent_simps:
  "agHost (race_agent h hb t b) = h" "agHeartbeat (race_agent h hb t b) = hb" "agBiasSent (race_agent h hb t b) = b"
  "race_agent h hb t b\<lparr>agBiasSent := c\<rparr> = race_agent h hb t c"
  "race_agent h hb t b\<lparr>agLastSeen := u, agHeartbeat := k\<rparr> = race_agent h k u b"
  by (simp_all add: race_agent_def)

lemma pressure_message_simps:
  "value_double (pressure_message p) ''pressure_percent'' 0 = Inr p" "is_heartbeat (pressure_message p)"
  by (simp_all add: pressure_message_def value_double_def is_heartbeat_def value_string_def)

lemma race_heartbeat:
  "heartbeat_state u 0 m (race_ct (race_agent h k t b) y) = race_ct (race_agent h m u b) y"
  "heartbeat_state u (Suc 0) m (race_ct x (race_agent h k t b)) = race_ct x (race_agent h m u b)"
  by (simp_all add: heartbeat_state_def race_ct_simps race_agent_simps)

lemma race_begin:
  "cs_begin 0 (race_ct x' y') (race_sys x y p q sent) = race_sys x' y' RbStart q sent"
  "cs_begin (Suc 0) (race_ct x' y') (race_sys x y p q sent) = race_sys x' y' p RbStart sent"
  by (simp_all add: cs_begin_def race_sys_simps)

lemma race_ready:
  "cs_ready False 0 (race_sys x y p q sent) \<longleftrightarrow> p = RbDone"
  "cs_ready False (Suc 0) (race_sys x y p q sent) \<longleftrightarrow> q = RbDone"
  by (simp_all add: cs_ready_def race_sys_simps)

lemmas race_simps = race_ct_simps race_sys_simps race_agent_simps pressure_message_simps race_heartbeat race_begin race_ready

lemma cs_run_append:
  "cs_run cfg serial es s = Some s' \<Longrightarrow> cs_run cfg serial fs s' = Some s'' \<Longrightarrow> cs_run cfg serial (es @ fs) s = Some s''"
  by (induction es arbitrary: s) (auto split: option.splits)

text \<open>
  Two agents; the first is cool.  The second reports pressure and its thread stops before it has
  looked at anyone; the first reports again, and its thread finds one of two hot, tells the first its
  bias and records that of the second, but does not yet send it.
\<close>

definition race_connect :: "string \<Rightarrow> nat \<Rightarrow> cs_event" where
  "race_connect h a = CvConnect (crypto_for h) 7 7 ''peer'' [] (Some []) (Some ''x'') a"

definition race_heat :: "cs_event list" where
  "race_heat = [CvHeartbeat 7 1 (pressure_message 90), CvHeartbeat 7 0 (pressure_message 10)] @ replicate 9 (CvRun 0)"

definition race_cool :: "cs_event list" where
  "race_cool = replicate 7 (CvRun 1) @ [CvHeartbeat 7 1 (pressure_message 10)] @ replicate 11 (CvRun 1)"

definition race_opening :: "cs_event list" where
  "race_opening = [race_connect ''a'' 0, CvHeartbeat 7 0 (pressure_message 10)] @ replicate 5 (CvRun 0) @
     [race_connect ''b'' 1, CvHeartbeat 7 1 (pressure_message 10)] @ replicate 7 (CvRun 1)"

definition race_run :: "cs_event list" where
  "race_run = race_opening @ race_heat @ race_cool @ [CvRun 0, CvRun 0]"

lemma connect_as:
  assumes "h \<noteq> []" and "length h \<le> 255" and "ctFailures (csCt s) = []" and "a \<notin> set (csUsed s)"
  shows "cs_do default_controller_config serial (race_connect h a) s =
     Some (s\<lparr>csCt := (csCt s)\<lparr>ctStore := (ctStore (csCt s))(a := new_agent h 7), ctAgents := omap_put h a (ctAgents (csCt s))\<rparr>,
       csUsed := a # csUsed s\<rparr>)"
proof -
  obtain r out where "accept_agent (crypto_for h) default_controller_config 7 7 ''peer'' [] (Some []) (Some ''x'') a (csCt s) =
     (r, (csCt s)\<lparr>ctStore := (ctStore (csCt s))(a := new_agent h 7), ctAgents := omap_put h a (ctAgents (csCt s))\<rparr>, out)"
    using connects_as [OF assms(1-3)] by blast
  then show ?thesis using assms(4) by (simp add: race_connect_def)
qed

lemma race_heat_run:
  "cs_run default_controller_config False race_heat
     (race_sys (race_agent ''a'' k 7 0) (race_agent ''b'' l 7 0) RbDone RbDone []) =
   Some (race_sys (race_agent ''a'' (pressure_message 10) 7 5) (race_agent ''b'' (pressure_message 90) 7 5)
     (RbTell 5 1 2 1 []) RbStart [(0, bias_message 5)])"
  by (simp add: race_heat_def race_simps eval_nat_numeral default_controller_config_def cluster_bias_def bias_log_def Let_def)

lemma race_cool_run:
  "cs_run default_controller_config False race_cool
     (race_sys (race_agent ''a'' (pressure_message 10) 7 5) (race_agent ''b'' (pressure_message 90) 7 5) p RbStart sent) =
   Some (race_sys (race_agent ''a'' (pressure_message 10) 7 0) (race_agent ''b'' (pressure_message 10) 7 0)
     p RbDone (sent @ [(0, bias_message 0), (1, bias_message 0)]))"
  by (simp add: race_cool_def race_simps eval_nat_numeral default_controller_config_def cluster_bias_def bias_log_def Let_def)

lemma race_opening_run:
  "cs_run default_controller_config False race_opening cs_start =
   Some (race_sys (race_agent ''a'' (pressure_message 10) 7 0) (race_agent ''b'' (pressure_message 10) 7 0) RbDone RbDone [])"
proof -
  let ?one = "\<lambda>x p. \<lparr>csCt = new_controller\<lparr>ctAgents := [(''a'', 0)], ctStore := (\<lambda>_. new_agent [] 0)(0 := x)\<rparr>,
     csPc = (\<lambda>_. RbDone)(0 := p), csUsed = [0], csSent = []\<rparr>"
  have fresh: "new_agent h 7 = race_agent h JNull 7 0" for h by (simp add: new_agent_def race_agent_def)
  have "cs_do default_controller_config False (race_connect ''a'' 0) cs_start = Some (?one (race_agent ''a'' JNull 7 0) RbDone)"
    by (subst connect_as) (simp_all add: cs_start_def new_controller_def fresh fun_upd_idem)
  then have one: "cs_run default_controller_config False [race_connect ''a'' 0] cs_start = Some (?one (race_agent ''a'' JNull 7 0) RbDone)"
    by simp
  have two: "cs_run default_controller_config False (CvHeartbeat 7 0 (pressure_message 10) # replicate 5 (CvRun 0))
      (?one (race_agent ''a'' JNull 7 0) RbDone) = Some (?one (race_agent ''a'' (pressure_message 10) 7 0) RbDone)"
    by (simp add: race_agent_simps pressure_message_simps eval_nat_numeral cs_ready_def cs_begin_def heartbeat_state_def
        default_controller_config_def cluster_bias_def Let_def)
  have "cs_do default_controller_config False (race_connect ''b'' 1) (?one (race_agent ''a'' (pressure_message 10) 7 0) RbDone) =
      Some (race_sys (race_agent ''a'' (pressure_message 10) 7 0) (race_agent ''b'' JNull 7 0) RbDone RbDone [])"
    by (subst connect_as) (simp_all add: race_sys_def race_ct_def new_controller_def fresh fun_upd_idem)
  then have "cs_run default_controller_config False
      ([race_connect ''b'' 1, CvHeartbeat 7 1 (pressure_message 10)] @ replicate 7 (CvRun 1))
      (?one (race_agent ''a'' (pressure_message 10) 7 0) RbDone) =
    Some (race_sys (race_agent ''a'' (pressure_message 10) 7 0) (race_agent ''b'' (pressure_message 10) 7 0) RbDone RbDone [])"
    by (simp add: race_simps eval_nat_numeral default_controller_config_def cluster_bias_def Let_def)
  from cs_run_append [OF one cs_run_append [OF two this]] show ?thesis
    by (simp add: race_opening_def)
qed

definition race_end :: csystem where
  "race_end = race_sys (race_agent ''a'' (pressure_message 10) 7 0) (race_agent ''b'' (pressure_message 10) 7 0) RbDone RbDone
     [(0, bias_message 5), (0, bias_message 0), (1, bias_message 0), (1, bias_message 5)]"

lemma race_runs: "cs_run default_controller_config False race_run cs_start = Some race_end"
proof -
  have "cs_run default_controller_config False [CvRun 0, CvRun 0]
      (race_sys (race_agent ''a'' (pressure_message 10) 7 0) (race_agent ''b'' (pressure_message 10) 7 0) (RbTell 5 1 2 1 []) RbDone
        ([(0, bias_message 5)] @ [(0, bias_message 0), (1, bias_message 0)])) = Some race_end"
    by (simp add: race_simps race_end_def bias_log_def)
  from cs_run_append [OF race_opening_run cs_run_append [OF race_heat_run cs_run_append [OF race_cool_run this]]]
  show ?thesis by (simp add: race_run_def)
qed

lemma race_end_facts:
  "cs_idle race_end" "ctAgents (csCt race_end) = [(''a'', 0), (''b'', 1)]" "agBiasSent (ctStore (csCt race_end) 1) = 0"
  "agent_bias 1 race_end = 5" "Rebalance default_controller_config (csCt race_end) = Inr (csCt race_end, [])"
proof -
  show "agent_bias 1 race_end = 5"
    by (simp add: race_end_def race_simps agent_bias_def bias_message_def)
  show "Rebalance default_controller_config (csCt race_end) = Inr (csCt race_end, [])"
    by (simp add: Rebalance_def race_end_def race_simps cluster_bias_def default_controller_config_def send_bias_def Let_def)
qed (simp_all add: race_end_def race_simps cs_idle_def)

text \<open>
  C14.  Rebalancing is not guarded, and it records a bias before it sends it; so two threads can leave an
  agent with a bias the controller does not know of.  There is a run from the start with two agents
  that ends with every thread idle and both reports calm, in which the controller has recorded a bias
  of 0 for the second agent, would not send it anything however often it rebalances, and the agent
  goes on with the offset of 5 it was told last.  When a rebalancing starts only while no other is
  under way - a mutex around it would do - this cannot happen: whatever runs so, whenever all threads
  are idle every agent has exactly the bias recorded for it.
\<close>

theorem rebalance_race_leaves_stale_bias:
  "(\<exists>es s. cs_run default_controller_config False es cs_start = Some s \<and> cs_idle s \<and>
      (''b'', 1) \<in> set (ctAgents (csCt s)) \<and> agBiasSent (ctStore (csCt s) 1) = 0 \<and>
      Rebalance default_controller_config (csCt s) = Inr (csCt s, []) \<and> agent_bias 1 s = 5) \<and>
   (cs_run cfg True fs cs_start = Some t \<longrightarrow> cs_idle t \<longrightarrow> agent_bias a t = agBiasSent (ctStore (csCt t) a))"
proof (intro conjI impI)
  show "\<exists>es s. cs_run default_controller_config False es cs_start = Some s \<and> cs_idle s \<and>
      (''b'', 1) \<in> set (ctAgents (csCt s)) \<and> agBiasSent (ctStore (csCt s) 1) = 0 \<and>
      Rebalance default_controller_config (csCt s) = Inr (csCt s, []) \<and> agent_bias 1 s = 5"
    by (intro exI [of _ race_run] exI [of _ race_end] conjI race_runs race_end_facts) (simp add: race_end_facts)
next
  assume r: "cs_run cfg True fs cs_start = Some t" and i: "cs_idle t"
  have inv: "cs_inv t" "cs_serial_inv t" using cs_run_serial [OF r cs_start_inv] by auto
  have "\<forall>i. csPc t i = RbDone" using cs_idle_iff [OF inv(1)] i by simp
  then show "agent_bias a t = agBiasSent (ctStore (csCt t) a)" using inv(2) unfolding cs_serial_inv_def by simp
qed

text \<open>The same reports, one rebalancing after the other.\<close>

lemma race_opening_serial:
  "cs_run default_controller_config True [race_connect ''a'' 0] cs_start =
     Some (cs_start\<lparr>csCt := new_controller\<lparr>ctAgents := [(''a'', 0)], ctStore := (\<lambda>_. new_agent [] 0)(0 := new_agent ''a'' 7)\<rparr>, csUsed := [0]\<rparr>)"
  using connect_as [of "''a''" cs_start 0 True] by (simp add: cs_start_def new_controller_def)

theorem rebalance_race_leaves_stale_bias_witness:
  "\<exists>t. cs_run default_controller_config True
       ([race_connect ''a'' 0] @ CvHeartbeat 7 0 (pressure_message 90) # replicate 7 (CvRun 0)) cs_start = Some t \<and>
     cs_idle t \<and> agBiasSent (ctStore (csCt t) 0) = 5 \<and> agent_bias 0 t = 5"
proof -
  let ?one = "\<lambda>x p sent. \<lparr>csCt = new_controller\<lparr>ctAgents := [(''a'', 0)], ctStore := (\<lambda>_. new_agent [] 0)(0 := x)\<rparr>,
     csPc = (\<lambda>_. RbDone)(0 := p), csUsed = [0], csSent = sent\<rparr>"
  define t where "t = ?one (race_agent ''a'' (pressure_message 90) 7 5) RbDone [(0, bias_message 5)]"
  have fresh: "new_agent ''a'' 7 = race_agent ''a'' JNull 7 0" by (simp add: new_agent_def race_agent_def)
  have "cs_run default_controller_config True (CvHeartbeat 7 0 (pressure_message 90) # replicate 7 (CvRun 0))
     (cs_start\<lparr>csCt := new_controller\<lparr>ctAgents := [(''a'', 0)], ctStore := (\<lambda>_. new_agent [] 0)(0 := new_agent ''a'' 7)\<rparr>, csUsed := [0]\<rparr>) = Some t"
    by (simp add: t_def fresh cs_start_def race_agent_simps pressure_message_simps eval_nat_numeral cs_ready_def cs_idle_def
        cs_begin_def heartbeat_state_def default_controller_config_def cluster_bias_def bias_log_def Let_def fun_upd_idem)
  note r = cs_run_append [OF race_opening_serial this]
  have i: "cs_idle t" and b: "agBiasSent (ctStore (csCt t) 0) = 5" by (simp_all add: t_def cs_idle_def race_agent_simps)
  have "agent_bias 0 t = agBiasSent (ctStore (csCt t) 0)"
    using rebalance_race_leaves_stale_bias r i by blast
  then show ?thesis using r i b by auto
qed

end
