(* ===== verification/Coordination.thy ===== *)
theory Coordination
  imports SecureChannel "HOL-Library.List_Lexorder" "HOL-Library.Char_ord"
begin

text \<open>
  \<open>src/service/Coordination.h/.cpp\<close>: the daemon's client of the controller, and the locking protocol
  between its thread and the daemon's poll loop.  The daemon's status and command functions are
  parameters over a state of any type; what the channel and the clock answer in one pass of the
  session's loop is a record.
\<close>

section \<open>The client\<close>

record coord_client =
  cnHost :: wstring
  cnPort :: int
  cnToken :: string
  cnHeartbeatSeconds :: int
  cnStopping :: bool
  cnConnected :: bool
  cnBias :: double
  cnOutbox :: "string list"

definition coord_Start :: "wstring \<Rightarrow> int \<Rightarrow> string \<Rightarrow> int \<Rightarrow> coord_client \<Rightarrow> coord_client" where
  "coord_Start host port token heartbeat c =
     c\<lparr>cnConnected := False, cnBias := 0, cnHost := host, cnPort := port, cnToken := token,
       cnHeartbeatSeconds := heartbeat, cnStopping := False\<rparr>"

definition coord_Stop :: "coord_client \<Rightarrow> coord_client" where
  "coord_Stop c = c\<lparr>cnStopping := True, cnConnected := False, cnBias := 0\<rparr>"

definition SendEvent :: "string \<Rightarrow> coord_client \<Rightarrow> coord_client" where
  "SendEvent e c = (if length (cnOutbox c) < 1000 then c\<lparr>cnOutbox := cnOutbox c @ [e]\<rparr> else c)"

definition ExternalBias :: "coord_client \<Rightarrow> double" where "ExternalBias c = cnBias c"

text \<open>Milliseconds waited after an attempt, and the next value of \<open>backoffMs\<close>.\<close>

definition backoff_wait :: "bool \<Rightarrow> nat \<Rightarrow> nat" where
  "backoff_wait linked backoffMs = (if linked then 1000 else backoffMs)"

definition next_backoff :: "bool \<Rightarrow> nat \<Rightarrow> nat" where
  "next_backoff linked backoffMs = min (backoff_wait linked backoffMs * 2) 30000"

text \<open>
  \<open>j[k] = v\<close> makes an object of a null and throws on any other value that is not an object; the
  members of an object are kept in the order of their names.
\<close>

definition put_member :: "json \<Rightarrow> string \<Rightarrow> json \<Rightarrow> json_exn + json" where
  "put_member j k v = (case j of
      JObj m \<Rightarrow> Inr (JObj (omap_put k v m))
    | JNull \<Rightarrow> Inr (JObj [(k, v)])
    | _ \<Rightarrow> Inl (TypeError ''cannot use operator[]''))"

definition object_or_empty :: "json option \<Rightarrow> json" where
  "object_or_empty j = (case j of None \<Rightarrow> JObj [] | Some v \<Rightarrow> v)"

definition heartbeat_message :: "crypto_os \<Rightarrow> string \<Rightarrow> string \<Rightarrow> json_exn + json" where
  "heartbeat_message os host status =
     bindE (put_member (object_or_empty (coJson os status)) ''type'' (JStr ''heartbeat'')) (\<lambda>hb.
     put_member hb ''host'' (JStr host))"

text \<open>A discarded value is printed as \<open>discarded\<close>; it is kept as null here.\<close>

definition event_message :: "crypto_os \<Rightarrow> string \<Rightarrow> string \<Rightarrow> json" where
  "event_message os host e =
     JObj [(''event'', case coJson os e of None \<Rightarrow> JNull | Some v \<Rightarrow> v), (''host'', JStr host), (''type'', JStr ''event'')]"

datatype session_end = SeGoOn | SeEnds bool | SeThrows json_exn

datatype coord_effect = CeSend json | CeLog string string

text \<open>One message of the controller.  \<open>command\<close> is the daemon's, which may throw.\<close>

definition controller_message ::
  "crypto_os \<Rightarrow> (string \<Rightarrow> 'd \<Rightarrow> (json_exn + string) \<times> 'd) \<Rightarrow> string \<Rightarrow> string \<Rightarrow> bool \<Rightarrow> coord_client \<times> 'd
     \<Rightarrow> session_end \<times> (coord_client \<times> 'd) \<times> coord_effect list" where
  "controller_message os command host line sent st =
     (let (c, d) = st in
      case coJson os line of
        None \<Rightarrow> (SeGoOn, st, [])
      | Some msg \<Rightarrow>
          if \<not> is_object msg then (SeGoOn, st, [])
          else
            (case value_string msg ''type'' [] of
               Inl e \<Rightarrow> (SeThrows e, st, [])
             | Inr type \<Rightarrow>
                 if type = ''bias'' then
                   (case value_double msg ''offset_percent'' 0 of
                      Inl e \<Rightarrow> (SeThrows e, st, [])
                    | Inr b \<Rightarrow> (SeGoOn, (c\<lparr>cnBias := b\<rparr>, d), [CeLog ''coordination_bias'' []]))
                 else if type = ''command'' then
                   (case value_string msg ''command'' [] of
                      Inl e \<Rightarrow> (SeThrows e, st, [])
                    | Inr cmd \<Rightarrow>
                        (let (reply, d') = command cmd d; out = [CeLog ''coordination_command'' cmd] in
                         case bindE reply (\<lambda>text.
                                bindE (put_member (object_or_empty (coJson os text)) ''type'' (JStr ''command_result'')) (\<lambda>r1.
                                bindE (value_int msg ''id'' 0) (\<lambda>i.
                                bindE (put_member r1 ''id'' (JInt i)) (\<lambda>r2. put_member r2 ''host'' (JStr host))))) of
                           Inl e \<Rightarrow> (SeThrows e, (c, d'), out)
                         | Inr r \<Rightarrow> (if sent then SeGoOn else SeEnds False, (c, d'), out @ [CeSend r])))
                 else if type = ''error'' then
                   (case value_string msg ''message'' [] of
                      Inl e \<Rightarrow> (SeThrows e, st, [])
                    | Inr m \<Rightarrow> (SeEnds True, st, [CeLog ''coordination_rejected'' m]))
                 else (SeGoOn, st, [])))"

text \<open>
  One pass of the session's loop: \<open>spDue\<close> is the heartbeat's timer, \<open>spSent\<close> whether the frame with a
  given number in this pass could be sent, \<open>spReceived\<close> what \<open>Receive\<close> returned.
\<close>

record session_pass =
  spDue :: bool
  spSent :: "nat \<Rightarrow> bool"
  spReceived :: recv_result

fun send_events :: "crypto_os \<Rightarrow> string \<Rightarrow> (nat \<Rightarrow> bool) \<Rightarrow> nat \<Rightarrow> string list \<Rightarrow> bool \<times> coord_effect list" where
  "send_events os host sent n [] = (True, [])"
| "send_events os host sent n (e # es) =
     (let msg = CeSend (event_message os host e) in
      if \<not> sent n then (False, [msg])
      else (let (ok, out) = send_events os host sent (Suc n) es in (ok, msg # out)))"

definition Session_pass ::
  "crypto_os \<Rightarrow> ('d \<Rightarrow> string) \<Rightarrow> (string \<Rightarrow> 'd \<Rightarrow> (json_exn + string) \<times> 'd) \<Rightarrow> string \<Rightarrow> session_pass
     \<Rightarrow> coord_client \<times> 'd \<Rightarrow> session_end \<times> (coord_client \<times> 'd) \<times> coord_effect list" where
  "Session_pass os status command host p st =
     (let (c, d) = st in
      if cnStopping c then (SeEnds True, st, [])
      else
        (case (if spDue p then map_sum id (\<lambda>hb. [CeSend hb]) (heartbeat_message os host (status d)) else Inr []) of
           Inl e \<Rightarrow> (SeThrows e, st, [])
         | Inr hb \<Rightarrow>
             if hb \<noteq> [] \<and> \<not> spSent p 0 then (SeEnds False, st, hb)
             else
               (let st1 = (c\<lparr>cnOutbox := []\<rparr>, d);
                    (ok, evs) = send_events os host (spSent p) 1 (cnOutbox c)
                in if \<not> ok then (SeEnds False, st1, hb @ evs)
                   else
                     (case spReceived p of
                        RecvBroken \<Rightarrow> (SeEnds False, st1, hb @ evs)
                      | RecvTimeout \<Rightarrow> (SeGoOn, st1, hb @ evs)
                      | RecvMessage line \<Rightarrow>
                          (let (r, st2, out) = controller_message os command host line
                                 (spSent p (Suc (length (cnOutbox c)))) st1
                           in (r, st2, hb @ evs @ out))))))"

text \<open>Passes until the session ends; \<open>SeGoOn\<close> when it has not within the passes given.\<close>

fun session_loop ::
  "crypto_os \<Rightarrow> ('d \<Rightarrow> string) \<Rightarrow> (string \<Rightarrow> 'd \<Rightarrow> (json_exn + string) \<times> 'd) \<Rightarrow> string \<Rightarrow> session_pass list
     \<Rightarrow> coord_client \<times> 'd \<Rightarrow> session_end \<times> (coord_client \<times> 'd) \<times> coord_effect list" where
  "session_loop os status command host [] st = (SeGoOn, st, [])"
| "session_loop os status command host (p # ps) st =
     (let (r, st1, out1) = Session_pass os status command host p st in
      if r = SeGoOn then
        (let (r2, st2, out2) = session_loop os status command host ps st1 in (r2, st2, out1 @ out2))
      else (r, st1, out1))"

text \<open>\<open>handshake\<close>: the error of \<open>ClientHandshake\<close>, if it failed.\<close>

definition Session ::
  "crypto_os \<Rightarrow> ('d \<Rightarrow> string) \<Rightarrow> (string \<Rightarrow> 'd \<Rightarrow> (json_exn + string) \<times> 'd) \<Rightarrow> string \<Rightarrow> string option
     \<Rightarrow> session_pass list \<Rightarrow> coord_client \<times> 'd \<Rightarrow> session_end \<times> (coord_client \<times> 'd) \<times> coord_effect list" where
  "Session os status command host handshake passes st = (case handshake of
       Some err \<Rightarrow> (SeEnds False, st, [CeLog ''coordination_rejected'' err])
     | None \<Rightarrow>
         (let (r, st1, out) = session_loop os status command host passes st
          in (r, st1, CeLog ''coordination_secured'' ''AES-256-GCM, mutually authenticated'' # out)))"

text \<open>One attempt to connect: \<open>None\<close> when no address answered.\<close>

type_synonym attempt = "(string option \<times> session_pass list) option"

text \<open>
  The thread: connect, hold a session, forget its bias, wait, and try again.  The waits are in
  milliseconds; an exception of a session leaves the thread.
\<close>

definition loop_session ::
  "crypto_os \<Rightarrow> ('d \<Rightarrow> string) \<Rightarrow> (string \<Rightarrow> 'd \<Rightarrow> (json_exn + string) \<times> 'd) \<Rightarrow> string \<Rightarrow> attempt
     \<Rightarrow> coord_client \<times> 'd \<Rightarrow> session_end \<times> (coord_client \<times> 'd) \<times> coord_effect list" where
  "loop_session os status command host a st = (case a of
       None \<Rightarrow> (SeGoOn, st, [])
     | Some (handshake, passes) \<Rightarrow>
         (let (c, d) = st;
              (r, (c1, d1), out) = Session os status command host handshake passes (c\<lparr>cnConnected := True\<rparr>, d);
              c2 = c1\<lparr>cnConnected := False, cnBias := 0\<rparr>
          in (r, (c2, d1), CeLog ''coordination_connected'' (cnHost c) # out @
               (if cnStopping c2 then []
                else [CeLog ''coordination_disconnected''
                  (if r = SeEnds True then ''controller closed the connection'' else ''connection lost'')]))))"

fun coord_Loop ::
  "crypto_os \<Rightarrow> ('d \<Rightarrow> string) \<Rightarrow> (string \<Rightarrow> 'd \<Rightarrow> (json_exn + string) \<times> 'd) \<Rightarrow> string \<Rightarrow> attempt list \<Rightarrow> nat
     \<Rightarrow> coord_client \<times> 'd \<Rightarrow> json_exn option \<times> (coord_client \<times> 'd) \<times> coord_effect list \<times> nat list" where
  "coord_Loop os status command host [] backoffMs st = (None, st, [], [])"
| "coord_Loop os status command host (a # as) backoffMs st =
     (if cnStopping (fst st) then (None, st, [], [])
      else
        (let (r, st1, out1) = loop_session os status command host a st in
         case r of
           SeThrows e \<Rightarrow> (Some e, st1, out1, [])
         | _ \<Rightarrow>
             (let (e, st2, out2, waits) = coord_Loop os status command host as (next_backoff (a \<noteq> None) backoffMs) st1
              in (e, st2, out1 @ out2, backoff_wait (a \<noteq> None) backoffMs # waits))))"

text \<open>The wait doubles up to half a minute and starts again after a connection.\<close>

lemma coord_Loop_waits:
  assumes "1000 \<le> backoffMs" and "backoffMs \<le> 30000" and "coord_Loop os status command host as backoffMs st = (e, st', out, waits)"
  shows "\<forall>w \<in> set waits. 1000 \<le> w \<and> w \<le> 30000"
  using assms
proof (induction "as" arbitrary: backoffMs st e st' out waits)
  case (Cons a "as")
  have n: "1000 \<le> next_backoff (a \<noteq> None) backoffMs" "next_backoff (a \<noteq> None) backoffMs \<le> 30000"
    "1000 \<le> backoff_wait (a \<noteq> None) backoffMs" "backoff_wait (a \<noteq> None) backoffMs \<le> 30000"
    using Cons.prems(1,2) by (auto simp: next_backoff_def backoff_wait_def)
  obtain r st1 out1 where l: "loop_session os status command host a st = (r, st1, out1)" by (metis prod_cases3)
  obtain e2 st2 out2 w2 where c: "coord_Loop os status command host as (next_backoff (a \<noteq> None) backoffMs) st1 = (e2, st2, out2, w2)"
    by (metis prod_cases4)
  have "\<forall>w \<in> set w2. 1000 \<le> w \<and> w \<le> 30000" by (rule Cons.IH [OF n(1,2) c])
  then show ?case using Cons.prems(3) n(3,4) l c by (cases r) (auto split: if_splits)
qed simp

text \<open>What the daemon's functions keep, a session keeps, whatever the controller sends.\<close>

locale controller_service =
  fixes command :: "string \<Rightarrow> 'd \<Rightarrow> (json_exn + string) \<times> 'd" and keeps :: "'d \<Rightarrow> 'd \<Rightarrow> bool"
  assumes keeps_refl: "keeps d d"
    and keeps_trans: "keeps d d' \<Longrightarrow> keeps d' d'' \<Longrightarrow> keeps d d''"
    and command_keeps: "keeps d (snd (command line d))"
begin

lemma message_keeps: "keeps (snd st) (snd (fst (snd (controller_message os command host line sent st))))"
  by (simp add: controller_message_def Let_def split_beta keeps_refl command_keeps split: option.split sum.split)

lemma pass_keeps: "keeps (snd st) (snd (fst (snd (Session_pass os status command host p st))))"
  using message_keeps [of "((fst st)\<lparr>cnOutbox := []\<rparr>, snd st)"]
  by (simp add: Session_pass_def Let_def split_beta keeps_refl split: sum.split recv_result.split)

lemma session_keeps: "keeps (snd st) (snd (fst (snd (session_loop os status command host ps st))))"
proof (induction ps arbitrary: st)
  case (Cons p ps)
  show ?case using pass_keeps [of st os status host p] keeps_trans Cons.IH by (simp add: Let_def split_beta)
qed (simp add: keeps_refl)

lemma attempt_keeps: "keeps (snd st) (snd (fst (snd (loop_session os status command host a st))))"
  using session_keeps [of "((fst st)\<lparr>cnConnected := True\<rparr>, snd st)"]
  by (simp add: loop_session_def Session_def Let_def split_beta keeps_refl split: option.split)

lemma thread_keeps: "keeps (snd st) (snd (fst (snd (coord_Loop os status command host as backoffMs st))))"
proof (induction "as" arbitrary: st backoffMs)
  case (Cons a "as")
  show ?case
    using attempt_keeps [of st os status host a] keeps_trans Cons.IH
    by (simp add: Let_def split_beta keeps_refl split: session_end.split)
qed (simp add: keeps_refl)

end

section \<open>The lock\<close>

text \<open>
  The daemon's poll loop holds the daemon's mutex while it reloads the configuration, and a changed
  coordination section makes it join the session's thread; that thread takes the same mutex in its
  status, command and log functions.  \<open>inside\<close> says whether the thread is joined with the mutex held,
  as \<open>ApplyConfig\<close> does, or after it has been released, as is done for the dashboard.
\<close>

datatype poll_at = PollFree | PollHolds | PollJoins
datatype session_at = SessRuns | SessWaits | SessHolds | SessDone

record lock_state =
  lkPoll :: poll_at
  lkSession :: session_at
  lkStopping :: bool

definition mutex_free :: "lock_state \<Rightarrow> bool" where
  "mutex_free s \<longleftrightarrow> lkPoll s \<noteq> PollHolds \<and> lkSession s \<noteq> SessHolds"

inductive lock_step :: "bool \<Rightarrow> lock_state \<Rightarrow> lock_state \<Rightarrow> bool" for inside where
  poll_locks: "lkPoll s = PollFree \<Longrightarrow> mutex_free s \<Longrightarrow> lock_step inside s (s\<lparr>lkPoll := PollHolds\<rparr>)"
| poll_unlocks: "lkPoll s = PollHolds \<Longrightarrow> lock_step inside s (s\<lparr>lkPoll := PollFree\<rparr>)"
| poll_stops: "lkPoll s = PollHolds \<Longrightarrow> lock_step inside s (s\<lparr>lkPoll := PollJoins, lkStopping := True\<rparr>)"
| poll_joined: "lkPoll s = PollJoins \<Longrightarrow> lkSession s = SessDone \<Longrightarrow>
    lock_step inside s (s\<lparr>lkPoll := (if inside then PollHolds else PollFree), lkSession := SessRuns, lkStopping := False\<rparr>)"
| session_calls: "lkSession s = SessRuns \<Longrightarrow> lock_step inside s (s\<lparr>lkSession := SessWaits\<rparr>)"
| session_locks: "lkSession s = SessWaits \<Longrightarrow> mutex_free s \<Longrightarrow> \<not> (inside \<and> lkPoll s = PollJoins) \<Longrightarrow>
    lock_step inside s (s\<lparr>lkSession := SessHolds\<rparr>)"
| session_unlocks: "lkSession s = SessHolds \<Longrightarrow> lock_step inside s (s\<lparr>lkSession := SessRuns\<rparr>)"
| session_ends: "lkSession s = SessRuns \<Longrightarrow> lkStopping s \<Longrightarrow> lock_step inside s (s\<lparr>lkSession := SessDone\<rparr>)"

definition lock_start :: lock_state where
  "lock_start = \<lparr>lkPoll = PollFree, lkSession = SessRuns, lkStopping = False\<rparr>"

definition reaches :: "bool \<Rightarrow> lock_state \<Rightarrow> lock_state \<Rightarrow> bool" where
  "reaches inside = (lock_step inside)\<^sup>*\<^sup>*"

inductive_cases lock_stepE: "lock_step inside s s'"

text \<open>Whoever joins has asked the session to stop, and a session ends only when asked.\<close>

definition lock_inv :: "lock_state \<Rightarrow> bool" where
  "lock_inv s \<longleftrightarrow> (lkStopping s \<longleftrightarrow> lkPoll s = PollJoins) \<and> (lkSession s = SessDone \<longrightarrow> lkPoll s = PollJoins) \<and>
     (lkPoll s = PollHolds \<longrightarrow> lkSession s \<noteq> SessHolds)"

lemma lock_inv_reaches: "reaches inside lock_start s \<Longrightarrow> lock_inv s"
  unfolding reaches_def
proof (induction rule: rtranclp_induct)
  case base
  show ?case by (simp add: lock_inv_def lock_start_def)
next
  case (step s s')
  from step(2,3) show ?case
    by (cases rule: lock_step.cases) (auto simp: lock_inv_def mutex_free_def split: if_splits)
qed

lemma reaches_step: "lock_step inside s s' \<Longrightarrow> reaches inside s' t \<Longrightarrow> reaches inside s t"
  unfolding reaches_def by (rule converse_rtranclp_into_rtranclp)

lemma reaches_refl: "reaches inside s s"
  by (simp add: reaches_def)

lemma deadlock_reached:
  "\<exists>s. reaches True lock_start s \<and> lkPoll s = PollJoins \<and> lkSession s = SessWaits \<and> (\<forall>t. \<not> lock_step True s t)"
proof -
  let ?s = "\<lparr>lkPoll = PollJoins, lkSession = SessWaits, lkStopping = True\<rparr>"
  have steps: "lock_step True lock_start (lock_start\<lparr>lkPoll := PollHolds\<rparr>)"
    "lock_step True (lock_start\<lparr>lkPoll := PollHolds\<rparr>) (lock_start\<lparr>lkPoll := PollHolds, lkSession := SessWaits\<rparr>)"
    "lock_step True (lock_start\<lparr>lkPoll := PollHolds, lkSession := SessWaits\<rparr>) ?s"
    using lock_step.poll_locks [of lock_start True] lock_step.session_calls [of "lock_start\<lparr>lkPoll := PollHolds\<rparr>" True]
      lock_step.poll_stops [of "lock_start\<lparr>lkPoll := PollHolds, lkSession := SessWaits\<rparr>" True]
    by (simp_all add: lock_start_def mutex_free_def)
  then have "reaches True lock_start ?s" using reaches_refl by (blast intro: reaches_step)
  moreover have "\<not> lock_step True ?s t" for t
    by (auto elim!: lock_stepE)
  ultimately show ?thesis by (intro exI [of _ ?s]) simp
qed

text \<open>Joining without the mutex: from any place of its loop the session gets to its end.\<close>

lemma join_outside_completes:
  assumes "lock_inv s" and "lkPoll s = PollJoins"
  shows "\<exists>t. reaches False s t \<and> lkPoll t = PollFree"
proof -
  have ended: "\<exists>t. reaches False u t \<and> lkPoll t = PollFree" if "lkPoll u = PollJoins" "lkSession u = SessDone" for u
    using lock_step.poll_joined [OF that, of False]
    by (intro exI [of _ "u\<lparr>lkPoll := PollFree, lkSession := SessRuns, lkStopping := False\<rparr>"])
      (auto intro: reaches_step reaches_refl)
  have runs: "\<exists>t. reaches False u t \<and> lkPoll t = PollFree"
    if "lkPoll u = PollJoins" "lkSession u = SessRuns" "lkStopping u" for u
    using ended [of "u\<lparr>lkSession := SessDone\<rparr>"] lock_step.session_ends [OF that(2,3), of False] that(1)
    by (auto intro: reaches_step)
  have holds: "\<exists>t. reaches False u t \<and> lkPoll t = PollFree"
    if "lkPoll u = PollJoins" "lkSession u = SessHolds" "lkStopping u" for u
    using runs [of "u\<lparr>lkSession := SessRuns\<rparr>"] lock_step.session_unlocks [OF that(2), of False] that(1,3)
    by (auto intro: reaches_step)
  have waits: "\<exists>t. reaches False u t \<and> lkPoll t = PollFree"
    if "lkPoll u = PollJoins" "lkSession u = SessWaits" "lkStopping u" for u
    using holds [of "u\<lparr>lkSession := SessHolds\<rparr>"] lock_step.session_locks [OF that(2), of False] that
    by (auto simp: mutex_free_def intro: reaches_step)
  have "lkStopping s" using assms by (simp add: lock_inv_def)
  then show ?thesis using assms(2) ended runs holds waits by (cases "lkSession s") auto
qed

lemma join_outside_progress:
  assumes "lock_inv s"
  shows "\<exists>t. lock_step False s t"
proof (cases "lkSession s")
  case SessRuns
  then show ?thesis using lock_step.session_calls by blast
next
  case SessWaits
  then show ?thesis using lock_step.session_locks [OF SessWaits] lock_step.poll_unlocks
    by (cases "lkPoll s") (auto simp: mutex_free_def)
next
  case SessHolds
  then show ?thesis using lock_step.session_unlocks by blast
next
  case SessDone
  then show ?thesis using assms lock_step.poll_joined by (auto simp: lock_inv_def)
qed

text \<open>
  C30.  Reloading a changed coordination section can hang the daemon for ever: from the start the two
  threads can get into a state in which the poll loop, holding the daemon's mutex, waits for the
  session's thread to end while that thread waits for the mutex, and no step is possible any more.
  Joining after the mutex has been released, as the code does for the dashboard, would not hang: then
  in every reachable state some thread can move, and every join can be completed.
\<close>

theorem reload_can_deadlock:
  "(\<exists>s. reaches True lock_start s \<and> lkPoll s = PollJoins \<and> lkSession s = SessWaits \<and> (\<forall>t. \<not> lock_step True s t)) \<and>
   (\<forall>s. reaches False lock_start s \<longrightarrow>
      (\<exists>t. lock_step False s t) \<and> (lkPoll s = PollJoins \<longrightarrow> (\<exists>t. reaches False s t \<and> lkPoll t = PollFree)))"
  using deadlock_reached join_outside_progress join_outside_completes lock_inv_reaches by blast

lemma reload_can_deadlock_witness: "\<exists>t. lock_step False lock_start t"
  using reload_can_deadlock [THEN conjunct2, THEN spec, of lock_start] reaches_refl by blast

section \<open>The client's bounds\<close>

lemma outbox_bounded: "length (cnOutbox c) \<le> 1000 \<Longrightarrow> length (cnOutbox (SendEvent e c)) \<le> 1000"
  by (simp add: SendEvent_def)

lemma backoff_bounded:
  "1000 \<le> b \<Longrightarrow> b \<le> 30000 \<Longrightarrow> 1000 \<le> next_backoff k b \<and> next_backoff k b \<le> 30000 \<and>
   backoff_wait k b \<le> 30000 \<and> (k \<longrightarrow> next_backoff k b = 2000)"
  by (auto simp: next_backoff_def backoff_wait_def)

end
