(* ===== verification/ConfigSecurity.thy ===== *)
theory ConfigSecurity
  imports SecureChannel ProcessSafety
begin

text \<open>
  \<open>src/service/ConfigSecurity.h/.cpp\<close>: may somebody who is not an administrator write the
  configuration file, and the digest of the file that the log records.  A file's access control
  list, the well-known security identifiers and the hash provider are what Windows answers.
\<close>

section \<open>The access control list\<close>

definition ACCESS_ALLOWED_ACE_TYPE :: u8 where "ACCESS_ALLOWED_ACE_TYPE = 0"
definition INHERIT_ONLY_ACE :: u8 where "INHERIT_ONLY_ACE = 8"

definition FILE_WRITE_DATA :: dword where "FILE_WRITE_DATA = 0x2"
definition FILE_APPEND_DATA :: dword where "FILE_APPEND_DATA = 0x4"
definition DELETE_ACCESS :: dword where "DELETE_ACCESS = 0x10000"
definition WRITE_DAC :: dword where "WRITE_DAC = 0x40000"
definition WRITE_OWNER :: dword where "WRITE_OWNER = 0x80000"
definition GENERIC_ALL :: dword where "GENERIC_ALL = 0x10000000"
definition GENERIC_WRITE :: dword where "GENERIC_WRITE = 0x40000000"

unbundle bit_operations_syntax

definition kWrite :: dword where
  "kWrite = FILE_WRITE_DATA OR FILE_APPEND_DATA OR WRITE_DAC OR WRITE_OWNER OR DELETE_ACCESS OR
     GENERIC_WRITE OR GENERIC_ALL"

record ace =
  acType :: u8
  acFlags :: u8
  acMask :: dword
  acSid :: string

text \<open>
  What \<open>GetNamedSecurityInfoW\<close> gives: nothing, no list at all (everybody may do everything), or
  the entries, of which \<open>GetAce\<close> may fail to return some.
\<close>

datatype dacl_answer = DaclUnreadable | DaclNull | DaclEntries "ace option list"

definition writer_groups :: "(well_known_sid \<times> wstring) list" where
  "writer_groups = [(WinWorldSid, ''Everyone''), (WinBuiltinUsersSid, ''Users''),
     (WinAuthenticatedUserSid, ''Authenticated Users''), (WinInteractiveSid, ''Interactive'')]"

fun group_of :: "(well_known_sid \<Rightarrow> string option) \<Rightarrow> string \<Rightarrow> (well_known_sid \<times> wstring) list \<Rightarrow> wstring option" where
  "group_of wellKnown sid [] = None"
| "group_of wellKnown sid (g # gs) =
     (if wellKnown (fst g) = Some sid then Some (snd g) else group_of wellKnown sid gs)"

definition grants_write :: "ace \<Rightarrow> bool" where
  "grants_write a \<longleftrightarrow> acType a = ACCESS_ALLOWED_ACE_TYPE \<and> acFlags a AND INHERIT_ONLY_ACE = 0 \<and>
     acMask a AND kWrite \<noteq> 0"

fun writable_by :: "(well_known_sid \<Rightarrow> string option) \<Rightarrow> ace option list \<Rightarrow> wstring option" where
  "writable_by wellKnown [] = None"
| "writable_by wellKnown (None # as) = writable_by wellKnown as"
| "writable_by wellKnown (Some a # as) =
     (if \<not> grants_write a then writable_by wellKnown as
      else (case group_of wellKnown (acSid a) writer_groups of
          None \<Rightarrow> writable_by wellKnown as
        | Some who \<Rightarrow> Some who))"

text \<open>The result and \<open>who\<close> as one value.\<close>

definition IsWritableByNonAdmins :: "(well_known_sid \<Rightarrow> string option) \<Rightarrow> dacl_answer \<Rightarrow> wstring option" where
  "IsWritableByNonAdmins wellKnown answer = (case answer of
       DaclUnreadable \<Rightarrow> None
     | DaclNull \<Rightarrow> Some ''anyone (NULL DACL)''
     | DaclEntries as \<Rightarrow> writable_by wellKnown as)"

lemma group_of_Some:
  "group_of wellKnown sid gs = Some who \<Longrightarrow> \<exists>k. (k, who) \<in> set gs \<and> wellKnown k = Some sid"
  by (induction gs) (auto split: if_splits)

lemma group_of_None: "group_of wellKnown sid gs = None \<longleftrightarrow> (\<forall>g \<in> set gs. wellKnown (fst g) \<noteq> Some sid)"
  by (induction gs) auto

lemma writable_by_iff:
  "writable_by wellKnown as \<noteq> None \<longleftrightarrow>
   (\<exists>a g. Some a \<in> set as \<and> grants_write a \<and> g \<in> set writer_groups \<and> wellKnown (fst g) = Some (acSid a))"
proof (induction wellKnown "as" rule: writable_by.induct)
  case (3 wellKnown a "as")
  show ?case
  proof (cases "grants_write a \<and> group_of wellKnown (acSid a) writer_groups \<noteq> None")
    case True
    then have "\<exists>g \<in> set writer_groups. wellKnown (fst g) = Some (acSid a)" by (simp add: group_of_None)
    then obtain g where "g \<in> set writer_groups" "wellKnown (fst g) = Some (acSid a)" by blast
    with True have "\<exists>b h. Some b \<in> set (Some a # as) \<and> grants_write b \<and> h \<in> set writer_groups \<and>
        wellKnown (fst h) = Some (acSid b)" by (intro exI [of _ a] exI [of _ g]) simp
    moreover have "writable_by wellKnown (Some a # as) \<noteq> None" using True by auto
    ultimately show ?thesis by argo
  next
    case False
    then have "writable_by wellKnown (Some a # as) = writable_by wellKnown as" by auto
    moreover have "grants_write a \<Longrightarrow> \<forall>g \<in> set writer_groups. wellKnown (fst g) \<noteq> Some (acSid a)"
      using False by (simp add: group_of_None)
    ultimately show ?thesis using 3 False by (cases "grants_write a") auto
  qed
qed auto

text \<open>Only the four groups are looked at: a grant to one ordinary account is not reported.\<close>

lemma single_accounts_are_not_reported:
  "(\<forall>g \<in> set writer_groups. wellKnown (fst g) \<noteq> Some sid) \<Longrightarrow>
   IsWritableByNonAdmins wellKnown (DaclEntries [Some \<lparr>acType = 0, acFlags = 0, acMask = GENERIC_ALL, acSid = sid\<rparr>]) = None"
  by (simp add: IsWritableByNonAdmins_def group_of_None [THEN iffD2])

section \<open>The digest of a file\<close>

record sha_provider =
  shOpen :: bool
  shCreate :: bool
  shData :: "nat \<Rightarrow> bool"
  shFinish :: "string \<Rightarrow> string option"

text \<open>
  The loop reads 64 KiB at a time and stops at the first piece the provider refuses.  A stream is
  still good after a read that filled the buffer, so a file whose length is a multiple of 64 KiB is
  read once more, without data.
\<close>

function hash_chunks :: "nat \<Rightarrow> (nat \<Rightarrow> bool) \<Rightarrow> nat \<Rightarrow> string \<Rightarrow> bool" where
  "hash_chunks piece accepts i rest =
     (if piece = 0 \<or> rest = [] then True
      else if \<not> accepts i then False
      else hash_chunks piece accepts (Suc i) (drop piece rest))"
  by pat_completeness auto
termination by (relation "measure (\<lambda>(s, a, i, r). length r)") auto

declare hash_chunks.simps [simp del]

definition Sha256File :: "sha_provider \<Rightarrow> string option \<Rightarrow> string" where
  "Sha256File p file = (case file of
       None \<Rightarrow> []
     | Some content \<Rightarrow>
         if \<not> shOpen p \<or> \<not> shCreate p \<or> \<not> hash_chunks (64 * 1024) (shData p) 0 content then []
         else (case shFinish p content of None \<Rightarrow> [] | Some digest \<Rightarrow> ToHex digest))"

lemma hash_chunks_working: "hash_chunks piece (\<lambda>_. True) n rest"
proof (induction rest arbitrary: n rule: length_induct)
  case (1 rest)
  then show ?case by (subst hash_chunks.simps) (cases rest; auto)
qed

lemma Sha256File_working:
  "shOpen p \<Longrightarrow> shCreate p \<Longrightarrow> shData p = (\<lambda>_. True) \<Longrightarrow> shFinish p content = Some digest \<Longrightarrow>
   Sha256File p (Some content) = ToHex digest"
  by (simp add: Sha256File_def hash_chunks_working)

end
