(* ===== verification/Alerts.thy ===== *)
theory Alerts
  imports Prelude
begin

text \<open>
  \<open>src/service/Alerts.h/.cpp\<close>: the popup and the webhook of an alert.  Both run on a detached thread
  and report to nobody; what the thread does is a list of effects.  WinHTTP's answers are a record.
\<close>

record alerter =
  alPopup :: bool
  alWebhookUrl :: wstring

definition new_alerter :: alerter where "new_alerter = \<lparr>alPopup = True, alWebhookUrl = []\<rparr>"

definition al_Configure :: "bool \<Rightarrow> wstring \<Rightarrow> alerter \<Rightarrow> alerter" where
  "al_Configure popup url a = a\<lparr>alPopup := popup, alWebhookUrl := url\<rparr>"

datatype alert_effect = AlMessageBox dword wstring wstring | AlPost wstring string

text \<open>\<open>session\<close> is the console session, \<open>0xFFFFFFFF\<close> when nobody is attached.\<close>

definition al_Fire :: "dword \<Rightarrow> wstring \<Rightarrow> wstring \<Rightarrow> string \<Rightarrow> alerter \<Rightarrow> alert_effect list" where
  "al_Fire session title message jsonBody a =
     (if alPopup a \<and> session \<noteq> 0xFFFFFFFF then [AlMessageBox session title message] else []) @
     (if alWebhookUrl a \<noteq> [] then [AlPost (alWebhookUrl a) jsonBody] else [])"

record http_answers =
  haCrack :: "(wstring \<times> nat \<times> wstring \<times> bool) option"
  haSession :: bool
  haConnect :: bool
  haRequest :: bool
  haExchange :: "nat option"
  haStatus :: nat
  haLastError :: nat

definition haSecure :: "http_answers \<Rightarrow> bool" where
  "haSecure h = (case haCrack h of Some (_, _, _, s) \<Rightarrow> s | None \<Rightarrow> False)"

text \<open>
  The result with \<open>error\<close>; \<open>haExchange\<close> is the error of sending or receiving.  The handles that
  were opened are closed in every case.
\<close>

definition PostJson :: "http_answers \<Rightarrow> bool \<times> wstring" where
  "PostJson h =
     (if haCrack h = None then (False, ''invalid URL'')
      else if haSession h \<and> haConnect h \<and> haRequest h then
        (case haExchange h of
           None \<Rightarrow> (let ok = 200 \<le> haStatus h \<and> haStatus h < 300
                    in (ok, if ok then [] else ''HTTP status '' @ to_string (haStatus h)))
         | Some e \<Rightarrow> (False, ''request failed, error '' @ to_string e))
      else (False, ''could not open connection, error '' @ to_string (haLastError h)))"

lemma PostJson_error: "fst (PostJson h) \<longleftrightarrow> snd (PostJson h) = []"
  by (auto simp: PostJson_def Let_def split: option.splits)

end
