(* ===== verification/Daemon.thy ===== *)
theory Daemon
  imports AutoProtect ThresholdTracker AdaptiveThresholds Config ConfigSecurity Coordination LogChain Alerts
begin

text \<open>
  \<open>src/service/Daemon.h/.cpp\<close>: the daemon's state and its callbacks, which log, report, alert and
  forward what the actuator and the protector do.  The members of the class are the record \<open>daemon\<close>; the
  pointers to the actuator, the protector and the dashboard are set by \<open>Initialize\<close> before anything
  else runs, so the record holds the objects themselves.  \<open>dmClasses\<close> is not a member: it is Windows'
  priority class of every process, which the protector reads and writes.

  What a configured name, a file or Windows answers during one operation is a record per operation;
  what the operation asks for, logs or reports is the list \<open>daemon_effect\<close>, in order.
\<close>

section \<open>The state\<close>

record daemon =
  dmConfigPath :: wstring
  dmConfigWriteTime :: u64
  dmConfigSize :: u64
  dmCfg :: config
  dmBase :: sm_config
  dmEffective :: sm_config
  dmActuator :: manager
  dmLogger :: bool
  dmAlerter :: alerter
  dmCoordination :: "coord_client option"
  dmCritical :: "(wstring \<times> tracked) list"
  dmTracker :: tracker
  dmAdaptive :: adaptive
  dmSelf :: self_monitor
  dmCores :: dword
  dmAdhoc :: "dword list"
  dmProtectedLogged :: "dword list"
  dmLastSamples :: "process_sample list"
  dmPressure :: double
  dmSignal :: string
  dmCriticalPid :: dword
  dmTrigger :: string
  dmLastSelfLog :: u64
  dmRemoteStop :: bool
  dmAuto :: protector
  dmClasses :: priorities
  dmIdentity :: identity_filter
  dmDashboardDirty :: bool
  dmDashboardUrl :: "string option"
  dmDashboardError :: string
  dmStartedTick :: u64
  dmLastSysIdle :: u64
  dmLastSysTotal :: u64

text \<open>
  The parameters: \<open>doWiden\<close> converts UTF-8 with replacement of what is invalid, \<open>doFmt1\<close> is the
  \<open>%.1f\<close> of \<open>swprintf\<close>, \<open>doSession\<close> the console session at the time of an alert, \<open>doLower\<close> is
  \<open>CharLowerBuffW\<close>.  The JSON library's printer refuses text that is not UTF-8; everything the daemon
  prints comes from \<open>Narrow\<close> or from requests in UTF-8, so \<open>coDump\<close> is total.
\<close>

record daemon_os =
  doConf :: config_os
  doPid :: dword
  doWiden :: "string \<Rightarrow> wstring"
  doFmt1 :: "double \<Rightarrow> wstring"
  doWellKnown :: "well_known_sid \<Rightarrow> string option"
  doSession :: dword
  doEventSource :: bool
  doLower :: "wstring \<Rightarrow> wstring"

datatype daemon_effect =
    DfOs os_call
  | DfAuto ap_effect
  | DfHandle handle_op
  | DfLog string "(string \<times> json) list"
  | DfThreshold dword threshold_type int double
  | DfAction dword wstring dword process_state process_state double bool string
  | DfEventLog event_type nat wstring
  | DfAlert alert_effect
  | DfNewLogger wstring nat int
  | DfCoordStop
  | DfCoordStart wstring int
  | DfStderr string
  | DfDashStop
  | DfDashStart int
  | DfPipeStart
  | DfPipeStop
  | DfSleep nat
  | DfSignalStop
  | DfWriteFile wstring string
  | DfReplaceFile wstring wstring
  | DfDeleteFile wstring

definition ceq_of :: "daemon_os \<Rightarrow> name_eq" where
  "ceq_of os = coSame (doConf os)"

definition Narrow :: "daemon_os \<Rightarrow> wstring \<Rightarrow> string" where
  "Narrow os w = (if w = [] then [] else coUtf8 (doConf os) w)"

definition Widen :: "daemon_os \<Rightarrow> string \<Rightarrow> wstring" where
  "Widen os s = (if s = [] then [] else doWiden os s)"

definition SameName :: "daemon_os \<Rightarrow> wstring \<Rightarrow> wstring \<Rightarrow> bool" where
  "SameName os a b = ceq_of os a b"

definition Contains :: "daemon_os \<Rightarrow> wstring list \<Rightarrow> wstring \<Rightarrow> bool" where
  "Contains os names name = list_ex (\<lambda>n. SameName os n name) names"

text \<open>
  \<open>exeDir\<close> is the directory of the program when \<open>GetModuleFileNameW\<close> succeeds, \<open>env\<close> the variable
  \<open>ProgramData\<close>; a buffer that was not filled keeps its initial text.
\<close>

definition DefaultConfigPath :: "bool \<Rightarrow> wstring option \<Rightarrow> (wstring \<Rightarrow> bool) \<Rightarrow> wstring option \<Rightarrow> wstring" where
  "DefaultConfigPath preferExeDirectory exeDir exists env =
     (let local = map_option (\<lambda>dir. dir @ [CHR 0x5C] @ ''config.json'') exeDir;
          programData = (case env of None \<Rightarrow> ''C:'' @ [CHR 0x5C] @ ''ProgramData'' | Some p \<Rightarrow> p)
      in case local of
           Some path \<Rightarrow>
             if preferExeDirectory \<and> exists path then path
             else programData @ [CHR 0x5C] @ ''ThreadHaulDaemon'' @ [CHR 0x5C] @ ''config.json''
         | None \<Rightarrow> programData @ [CHR 0x5C] @ ''ThreadHaulDaemon'' @ [CHR 0x5C] @ ''config.json'')"

definition ToStateMachineConfig :: "config \<Rightarrow> sm_config" where
  "ToStateMachineConfig c =
     \<lparr>throttleThresholdPercent = tsPercent (cfHigh c),
      throttleConsecutiveSamples = tsSamples (cfHigh c),
      escalateThresholdPercent = tsPercent (cfCritical c),
      escalateConsecutiveSamples = tsSamples (cfCritical c),
      recoverThresholdPercent = tsPercent (cfLow c),
      recoverConsecutiveSamples = tsSamples (cfLow c)\<rparr>"

definition ToAdaptive :: "config \<Rightarrow> adaptive_settings" where
  "ToAdaptive c =
     \<lparr>adEnabled = cfAdaptiveEnabled c, windowSamples = cfAdaptiveWindowSamples c,
      horizonSamples = cfAdaptiveHorizonSamples c, maxAdjustPercent = cfAdaptiveMaxAdjustPercent c\<rparr>"

definition ToAutoSettings :: "config \<Rightarrow> auto_settings" where
  "ToAutoSettings c =
     \<lparr>apEnabled = cfAutoEnabled c, apThrottlePercent = cfAutoThrottlePercent c,
      apThrottleSamples = cfAutoThrottleSamples c, apUseIdle = cfAutoUseIdle c,
      apIdlePercent = cfAutoIdlePercent c, apIdleSamples = cfAutoIdleSamples c,
      apRecoverPercent = cfAutoRecoverPercent c, apRecoverSamples = cfAutoRecoverSamples c,
      apMaxProcesses = cfAutoMaxProcesses c, apMinProcessCpuPercent = cfAutoMinProcessCpuPercent c\<rparr>"

definition LifecycleName :: "lifecycle_kind \<Rightarrow> string" where
  "LifecycleName k = (case k of
       LkAcquired \<Rightarrow> ''acquired'' | LkExited \<Rightarrow> ''exited'' | LkCrashed \<Rightarrow> ''crashed''
     | LkRestarted \<Rightarrow> ''restarted'' | LkAccessDenied \<Rightarrow> ''access_denied'')"

definition Reply :: "bool \<Rightarrow> string \<Rightarrow> (string \<times> json) list" where
  "Reply ok message = [(''ok'', JBool ok), (''message'', JStr message)]"

definition dm_Log :: "daemon \<Rightarrow> string \<Rightarrow> (string \<times> json) list \<Rightarrow> daemon_effect list" where
  "dm_Log d type flds = (if dmLogger d then [DfLog type flds] else [])"

definition dm_bias :: "daemon \<Rightarrow> double" where
  "dm_bias d = (case dmCoordination d of None \<Rightarrow> 0 | Some c \<Rightarrow> ExternalBias c)"

section \<open>Transitions\<close>

definition transition_fields :: "daemon_os \<Rightarrow> transition_info \<Rightarrow> daemon \<Rightarrow> (string \<times> json) list" where
  "transition_fields os ti d =
     [(''log_type'', JStr ''actuator_action''),
      (''batch_process_id'', jUInt (tiPid ti)),
      (''batch_process_name'', JStr (Narrow os (tiName ti))),
      (''critical_process_id'', jUInt (dmCriticalPid d)),
      (''action'', JStr (ActionName (tiTo ti))),
      (''from_state'', JStr (StateName (tiFrom ti))),
      (''to_state'', JStr (StateName (tiTo ti))),
      (''cpu_percent'', JReal (Round1 (tiCpu ti))),
      (''actuation_succeeded'', JBool (tiOk ti)),
      (''trigger'', JStr (dmTrigger d))]"

text \<open>The 512 characters of the buffer hold every executable name with the rest of the text.\<close>

definition suspension_message :: "daemon_os \<Rightarrow> transition_info \<Rightarrow> daemon \<Rightarrow> wstring" where
  "suspension_message os ti d =
     tiName ti @ '' (PID '' @ to_string (unat (tiPid ti)) @
     '') was suspended to protect critical process PID '' @ to_string (unat (dmCriticalPid d)) @
     '' ('' @ doFmt1 os (tiCpu ti) @ ''% '' @ dmSignal d @ ''). Trigger: '' @ dmTrigger d @ ''.''"

definition suspension_alert :: "daemon_os \<Rightarrow> transition_info \<Rightarrow> daemon \<Rightarrow> daemon_effect list" where
  "suspension_alert os ti d =
     map DfAlert (al_Fire (doSession os) ''ThreadHaul: batch process suspended'' (suspension_message os ti d)
       (coDump (doConf os) (JObj (transition_fields os ti d @ [(''alert'', JStr ''batch_suspended'')])))
       (dmAlerter d)) @
     dm_Log d ''alert''
       [(''alert'', JStr ''batch_suspended''),
        (''batch_process_id'', jUInt (tiPid ti)),
        (''batch_process_name'', JStr (Narrow os (tiName ti))),
        (''popup'', JBool (cfAlertPopup (dmCfg d))),
        (''webhook'', JBool (cfAlertWebhookUrl (dmCfg d) \<noteq> []))]"

definition OnTransition :: "daemon_os \<Rightarrow> transition_info \<Rightarrow> daemon \<Rightarrow> daemon \<times> daemon_effect list" where
  "OnTransition os ti d =
     (d\<lparr>dmCoordination := map_option (SendEvent (coDump (doConf os) (JObj (transition_fields os ti d)))) (dmCoordination d)\<rparr>,
      (if dmLogger d
       then [DfAction (tiPid ti) (tiName ti) (dmCriticalPid d) (tiFrom ti) (tiTo ti) (Round1 (tiCpu ti)) (tiOk ti) (dmTrigger d)]
       else []) @
      (case ReportActuatorAction (doEventSource os) (doFmt1 os) (tiPid ti) (tiName ti) (dmCriticalPid d)
              (tiFrom ti) (tiTo ti) (tiCpu ti) (tiOk ti) of
         None \<Rightarrow> [] | Some (ty, i, msg) \<Rightarrow> [DfEventLog ty i msg]) @
      (if tiTo ti = StSuspended then suspension_alert os ti d else []))"

text \<open>The actuator's calls and callbacks in order.\<close>

fun on_effects :: "daemon_os \<Rightarrow> effect list \<Rightarrow> daemon \<Rightarrow> daemon \<times> daemon_effect list" where
  "on_effects os [] d = (d, [])"
| "on_effects os (Os c # es) d = (let (d1, out) = on_effects os es d in (d1, DfOs c # out))"
| "on_effects os (Notify ti # es) d =
     (let (d1, out1) = OnTransition os ti d; (d2, out2) = on_effects os es d1 in (d2, out1 @ out2))"

section \<open>The protector's callback\<close>

definition auto_event_id :: "string \<Rightarrow> (event_type \<times> nat) option" where
  "auto_event_id event =
     (if event = ''throttled'' then Some (EvWarning, 1100)
      else if event = ''lowered_to_idle'' then Some (EvWarning, 1101)
      else if event = ''restored'' then Some (EvInformation, 1102)
      else None)"

definition OnAutoProtect ::
  "daemon_os \<Rightarrow> daemon \<Rightarrow> string \<Rightarrow> ap_entry option \<Rightarrow> dword \<Rightarrow> dword \<Rightarrow> string \<Rightarrow> daemon_effect list" where
  "OnAutoProtect os d event e from to detail =
     dm_Log d ''auto_protect''
       ([(''event'', JStr event)] @
        (case e of None \<Rightarrow> []
         | Some x \<Rightarrow>
             [(''process_name'', JStr (Narrow os (enName x))), (''process_id'', jUInt (enPid x))] @
             (if from \<noteq> 0 \<or> to \<noteq> 0
              then [(''from_priority'', JStr (PriorityClassName from)), (''to_priority'', JStr (PriorityClassName to))]
              else []) @
             (if enCpuAtAction x > 0 then [(''process_cpu_percent'', JReal (Round1 (enCpuAtAction x)))] else [])) @
        [(''system_cpu_percent'', JReal (Round1 (ppSystemCpu (dmAuto d)))), (''detail'', JStr detail)]) @
     (case e of None \<Rightarrow> []
      | Some x \<Rightarrow>
          (case auto_event_id event of None \<Rightarrow> []
           | Some (ty, i) \<Rightarrow>
               (case ReportMessage (doEventSource os) ty i
                  (''Auto-protect: '' @ enName x @ '' (PID '' @ to_string (unat (enPid x)) @ '') '' @
                   Widen os event @ '', '' @ Widen os (PriorityClassName from) @ '' -> '' @
                   Widen os (PriorityClassName to) @ ''. '' @ Widen os detail) of
                  None \<Rightarrow> [] | Some (ty', i', msg) \<Rightarrow> [DfEventLog ty' i' msg])))"

fun on_auto :: "daemon_os \<Rightarrow> daemon \<Rightarrow> ap_effect list \<Rightarrow> daemon_effect list" where
  "on_auto os d [] = []"
| "on_auto os d (ApLog event e from to detail # es) = OnAutoProtect os d event e from to detail @ on_auto os d es"
| "on_auto os d (x # es) = DfAuto x # on_auto os d es"

text \<open>An operation of the protector, with its callbacks.\<close>

definition with_auto ::
  "daemon_os \<Rightarrow> (protector \<times> priorities) \<times> ap_effect list \<Rightarrow> daemon \<Rightarrow> daemon \<times> daemon_effect list" where
  "with_auto os r d =
     (let ((p, pr), effs) = r; d1 = d\<lparr>dmAuto := p, dmClasses := pr\<rparr> in (d1, on_auto os d1 effs))"

end
