(* ===== verification/DaemonConfig.thy ===== *)
theory DaemonConfig
  imports Daemon "HOL-Library.List_Lexorder" "HOL-Library.Char_ord"
begin

text \<open>
  \<open>src/service/Daemon.cpp\<close>: loading a configuration, applying it to the running daemon, and noticing
  that the file has changed.  \<open>apply_env\<close> and \<open>reload_env\<close> are what Windows answers meanwhile;
  \<open>avSnapshot\<close> is the process list taken for one process that the protector has lowered.
\<close>

section \<open>Applying a configuration\<close>

record apply_env =
  avProtect :: os_env
  avDrop :: os_env
  avConfigure :: ap_env
  avSnapshot :: "dword \<Rightarrow> process_entry list"
  avExempt :: ap_env

definition log_changed :: "bool \<Rightarrow> config \<Rightarrow> config \<Rightarrow> bool" where
  "log_changed initial cfg old \<longleftrightarrow> initial \<or> cfLogPath cfg \<noteq> cfLogPath old \<or>
     cfMaxFileSizeMb cfg \<noteq> cfMaxFileSizeMb old \<or> cfMaxRotatedFiles cfg \<noteq> cfMaxRotatedFiles old"

definition coord_changed :: "bool \<Rightarrow> config \<Rightarrow> config \<Rightarrow> bool" where
  "coord_changed initial cfg old \<longleftrightarrow> initial \<or> cfCoordinationEnabled cfg \<noteq> cfCoordinationEnabled old \<or>
     cfControllerHost cfg \<noteq> cfControllerHost old \<or> cfControllerPort cfg \<noteq> cfControllerPort old \<or>
     cfSharedToken cfg \<noteq> cfSharedToken old \<or> cfHeartbeatSeconds cfg \<noteq> cfHeartbeatSeconds old"

definition dashboard_changed :: "bool \<Rightarrow> config \<Rightarrow> config \<Rightarrow> bool" where
  "dashboard_changed initial cfg old \<longleftrightarrow> initial \<or> cfDashboardEnabled cfg \<noteq> cfDashboardEnabled old \<or>
     cfDashboardPort cfg \<noteq> cfDashboardPort old"

definition normalization_of :: "config \<Rightarrow> cpu_normalization" where
  "normalization_of cfg = (if cfCpuPerCore cfg then PerCore else TotalSystem)"

text \<open>The tracked critical names: who is no longer listed goes, who is new comes.\<close>

definition keep_critical ::
  "daemon_os \<Rightarrow> config \<Rightarrow> (wstring \<times> tracked) list \<Rightarrow> (wstring \<times> tracked) list \<times> handle_op list" where
  "keep_critical os cfg crit =
     (let listed = (\<lambda>p. Contains os (cfCriticalProcesses cfg) (fst p)) in
      (map (\<lambda>(n, t). (n, tk_SetNormalization (normalization_of cfg) t)) (filter listed crit),
       concat (map (\<lambda>p. tk_destroy (snd p)) (filter (\<lambda>p. \<not> listed p) crit))))"

fun add_critical ::
  "cpu_normalization \<Rightarrow> dword \<Rightarrow> wstring list \<Rightarrow> (wstring \<times> tracked) list \<Rightarrow> (wstring \<times> tracked) list" where
  "add_critical nz cores [] crit = crit"
| "add_critical nz cores (n # ns) crit =
     add_critical nz cores ns
       (if map_of crit n = None then omap_put n (new_tracked n nz cores) crit else crit)"

definition pinned_of :: "config \<Rightarrow> (wstring \<times> expected_identity) list" where
  "pinned_of cfg = foldl (\<lambda>m p. omap_put (piName p) \<lparr>eiPath = piPath p, eiPublisher = piPublisher p\<rparr> m) []
     (cfIdentities cfg)"

text \<open>Batch processes whose name is no longer listed go back to normal and are let go.\<close>

definition dropped_pids :: "daemon_os \<Rightarrow> config \<Rightarrow> daemon \<Rightarrow> dword list" where
  "dropped_pids os cfg d =
     map (\<lambda>p. smPid (snd p))
       (filter (\<lambda>p. \<not> Contains os (cfBatchProcesses cfg) (smName (snd p)) \<and> smPid (snd p) \<notin> set (dmAdhoc d))
         (mgMachines (dmActuator d)))"

definition drop_one :: "daemon_os \<Rightarrow> os_env \<Rightarrow> dword \<Rightarrow> daemon \<Rightarrow> daemon \<times> daemon_effect list" where
  "drop_one os env pid d =
     (let es = (case mg_Find pid (dmActuator d) of None \<Rightarrow> [] | Some m \<Rightarrow> snd (ForceRecoverForShutdown env m));
          (d1, out) = on_effects os es (d\<lparr>dmTrigger := ''config_reload''\<rparr>)
      in (d1\<lparr>dmActuator := RemoveBatchProcess pid (dmActuator d1), dmTrigger := ''automatic''\<rparr>, out))"

fun drop_all :: "daemon_os \<Rightarrow> os_env \<Rightarrow> dword list \<Rightarrow> daemon \<Rightarrow> daemon \<times> daemon_effect list" where
  "drop_all os env [] d = (d, [])"
| "drop_all os env (pid # pids) d =
     (let (d1, out1) = drop_one os env pid d; (d2, out2) = drop_all os env pids d1 in (d2, out1 @ out2))"

text \<open>A process that is now configured explicitly is no longer managed by the protector.\<close>

definition configured_name :: "daemon_os \<Rightarrow> config \<Rightarrow> wstring \<Rightarrow> bool" where
  "configured_name os cfg name \<longleftrightarrow> Contains os (cfCriticalProcesses cfg) name \<or>
     Contains os (cfBatchProcesses cfg) name \<or> Contains os (cfProtectedProcesses cfg) name"

fun exempt_entries ::
  "ap_env \<Rightarrow> (wstring \<Rightarrow> bool) \<Rightarrow> dword \<Rightarrow> process_entry list \<Rightarrow> protector \<times> priorities
     \<Rightarrow> (protector \<times> priorities) \<times> ap_effect list" where
  "exempt_entries env sel pid [] s = (s, [])"
| "exempt_entries env sel pid (e # es) s =
     (if pePid e = pid \<and> sel (peName e) then
        (let (_, s1, eff1) = Exempt env pid (peName e) s; (s2, eff2) = exempt_entries env sel pid es s1
         in (s2, eff1 @ eff2))
      else exempt_entries env sel pid es s)"

fun exempt_pids ::
  "ap_env \<Rightarrow> (wstring \<Rightarrow> bool) \<Rightarrow> (dword \<Rightarrow> process_entry list) \<Rightarrow> dword list \<Rightarrow> protector \<times> priorities
     \<Rightarrow> (protector \<times> priorities) \<times> ap_effect list" where
  "exempt_pids env sel snap [] s = (s, [])"
| "exempt_pids env sel snap (pid # pids) s =
     (let (s1, eff1) = exempt_entries env sel pid (snap pid) s; (s2, eff2) = exempt_pids env sel snap pids s1
      in (s2, eff1 @ eff2))"

definition new_coord :: coord_client where
  "new_coord = \<lparr>cnHost = [], cnPort = 0, cnToken = [], cnHeartbeatSeconds = 5, cnStopping = False,
     cnConnected = False, cnBias = 0, cnOutbox = []\<rparr>"

definition restart_coordination :: "config \<Rightarrow> daemon \<Rightarrow> daemon \<times> daemon_effect list" where
  "restart_coordination cfg d =
     (d\<lparr>dmCoordination :=
          (if cfCoordinationEnabled cfg
           then Some (coord_Start (cfControllerHost cfg) (cfControllerPort cfg) (cfSharedToken cfg)
             (cfHeartbeatSeconds cfg) new_coord)
           else None)\<rparr>,
      (if dmCoordination d = None then [] else [DfCoordStop]) @
      (if cfCoordinationEnabled cfg then [DfCoordStart (cfControllerHost cfg) (cfControllerPort cfg)] else []))"

text \<open>\<open>ApplyConfig\<close>, in the order of the code: thresholds, telemetry, dropped processes, protector, coordination.\<close>

definition apply_thresholds :: "daemon_os \<Rightarrow> apply_env \<Rightarrow> config \<Rightarrow> daemon \<Rightarrow> daemon \<times> daemon_effect list" where
  "apply_thresholds os env cfg d =
     (let ad = ad_SetSettings (ToAdaptive cfg) (dmAdaptive d);
          eff = ad_Adjust ad (ToStateMachineConfig cfg) (dm_bias d);
          (mg, es) = SetProtectedProcessNames (ceq_of os) (doPid os) (avProtect env) (cfProtectedProcesses cfg)
            (mg_SetConfig eff (dmActuator d))
      in on_effects os es (d\<lparr>dmBase := ToStateMachineConfig cfg, dmAdaptive := ad, dmEffective := eff, dmActuator := mg\<rparr>))"

definition apply_telemetry :: "daemon_os \<Rightarrow> config \<Rightarrow> daemon \<Rightarrow> daemon \<times> daemon_effect list" where
  "apply_telemetry os cfg d =
     (let (kept, ops) = keep_critical os cfg (dmCritical d) in
      (d\<lparr>dmIdentity := if_SetExpected (pinned_of cfg) (dmIdentity d),
         dmCritical := add_critical (normalization_of cfg) (dmCores d) (cfCriticalProcesses cfg) kept\<rparr>,
       map DfHandle ops))"

definition apply_protector :: "daemon_os \<Rightarrow> apply_env \<Rightarrow> config \<Rightarrow> daemon \<Rightarrow> daemon \<times> daemon_effect list" where
  "apply_protector os env cfg d =
     (let (s1, eff1) = ap_Configure (avConfigure env) (ToAutoSettings cfg) kAlwaysProtected (dmAuto d, dmClasses d);
          (s2, eff2) = exempt_pids (avExempt env) (configured_name os cfg) (avSnapshot env)
            (map fst (ap_States (fst s1))) s1
      in with_auto os (s2, eff1 @ eff2) d)"

definition ApplyConfig :: "daemon_os \<Rightarrow> apply_env \<Rightarrow> config \<Rightarrow> bool \<Rightarrow> daemon \<Rightarrow> daemon \<times> daemon_effect list" where
  "ApplyConfig os env cfg initial d =
     (let old = dmCfg d;
          logging = log_changed initial cfg old;
          d0 = d\<lparr>dmDashboardDirty := (dashboard_changed initial cfg old \<or> dmDashboardDirty d), dmCfg := cfg,
                 dmLogger := (logging \<or> dmLogger d)\<rparr>;
          (d1, out1) = apply_thresholds os env cfg d0;
          (d2, out2) = apply_telemetry os cfg d1;
          (d3, out3) = drop_all os (avDrop env) (dropped_pids os cfg d2) d2;
          d4 = d3\<lparr>dmAlerter := al_Configure (cfAlertPopup cfg) (cfAlertWebhookUrl cfg) (dmAlerter d3)\<rparr>;
          (d5, out5) = apply_protector os env cfg d4;
          (d6, out6) = (if coord_changed initial cfg old then restart_coordination cfg d5 else (d5, []))
      in (d6, (if logging
               then [DfNewLogger (cfLogPath cfg) (nat (cfMaxFileSizeMb cfg) * 1024 * 1024) (cfMaxRotatedFiles cfg)]
               else []) @ out1 @ out2 @ out3 @ out5 @ out6))"

section \<open>Loading and reloading\<close>

definition LoadAndVerify ::
  "daemon_os \<Rightarrow> (wstring \<Rightarrow> string option) \<Rightarrow> dacl_answer \<Rightarrow> daemon \<Rightarrow> (wstring + config) \<times> daemon_effect list" where
  "LoadAndVerify os files acl d =
     (case LoadConfigFile (doConf os) files (dmConfigPath d) of
        Inl e \<Rightarrow> (Inl (Widen os e), [])
      | Inr cfg \<Rightarrow>
          (case IsWritableByNonAdmins (doWellKnown os) acl of
             None \<Rightarrow> (Inr cfg, [])
           | Some who \<Rightarrow>
               if cfRequireProtectedConfig cfg then
                 (Inl (''config file can be modified by '' @ who @
                    ''; security.require_protected_config is on. Re-run the installer or '' @
                    ''restrict the file to SYSTEM and Administrators.''), [])
               else
                 (Inr cfg, dm_Log d ''config_security''
                    [(''warning'', JStr (''config file is writable by '' @ Narrow os who)),
                     (''config_path'', JStr (Narrow os (dmConfigPath d)))])))"

record reload_env =
  rvAttr :: "(u64 \<times> dword \<times> dword) option"
  rvFiles :: "wstring \<Rightarrow> string option"
  rvAcl :: dacl_answer
  rvSha :: sha_provider
  rvApply :: apply_env

definition file_size_of :: "dword \<Rightarrow> dword \<Rightarrow> u64" where
  "file_size_of high low = (push_bit 32 (ucast high :: u64)) OR ucast low"

definition config_sha :: "reload_env \<Rightarrow> daemon \<Rightarrow> string" where
  "config_sha env d = Sha256File (rvSha env) (rvFiles env (dmConfigPath d))"

definition CheckConfigReload :: "daemon_os \<Rightarrow> reload_env \<Rightarrow> daemon \<Rightarrow> daemon \<times> daemon_effect list" where
  "CheckConfigReload os env d =
     (case rvAttr env of
        None \<Rightarrow> (d, [])
      | Some (written, high, low) \<Rightarrow>
          if written = dmConfigWriteTime d \<and> file_size_of high low = dmConfigSize d then (d, [])
          else
            (let d1 = d\<lparr>dmConfigWriteTime := written, dmConfigSize := file_size_of high low\<rparr>;
                 (loaded, out1) = LoadAndVerify os (rvFiles env) (rvAcl env) d1
             in case loaded of
                  Inl e \<Rightarrow>
                    (d1, out1 @ dm_Log d1 ''config_reload''
                       [(''success'', JBool False), (''error'', JStr (Narrow os e)), (''config_sha256'', JStr (config_sha env d1))] @
                     [DfStderr (''config reload rejected: '' @ e)])
                | Inr cfg \<Rightarrow>
                    (let (d2, out2) = ApplyConfig os (rvApply env) cfg False d1 in
                     (d2, out1 @ out2 @ dm_Log d2 ''config_reload''
                        [(''success'', JBool True), (''config_sha256'', JStr (config_sha env d1)),
                         (''poll_interval_ms'', JInt (cfPollIntervalMs cfg)),
                         (''high_percent'', JReal (tsPercent (cfHigh cfg))),
                         (''critical_percent'', JReal (tsPercent (cfCritical cfg))),
                         (''low_percent'', JReal (tsPercent (cfLow cfg))),
                         (''adaptive_enabled'', JBool (cfAdaptiveEnabled cfg))]))))"

section \<open>Starting\<close>

definition default_adaptive :: adaptive where
  "default_adaptive = \<lparr>adSettings = \<lparr>adEnabled = False, windowSamples = 10, horizonSamples = 3,
     maxAdjustPercent = 10\<rparr>, adWindow = []\<rparr>"

text \<open>\<open>born\<close>: the kernel time, the user time and the clock when the daemon's own monitor is constructed.\<close>

definition new_daemon :: "wstring \<Rightarrow> dword \<Rightarrow> filetime \<times> filetime \<times> filetime \<Rightarrow> ap_env \<Rightarrow> priorities \<Rightarrow> daemon" where
  "new_daemon path cores born env classes =
     \<lparr>dmConfigPath = path, dmConfigWriteTime = 0, dmConfigSize = 0, dmCfg = default_config,
      dmBase = default_sm_config, dmEffective = default_sm_config,
      dmActuator = new_manager default_sm_config True, dmLogger = False, dmAlerter = new_alerter,
      dmCoordination = None, dmCritical = [], dmTracker = new_tracker, dmAdaptive = default_adaptive,
      dmSelf = (case born of (kernelT, user, now) \<Rightarrow> new_self_monitor kernelT user now), dmCores = cores, dmAdhoc = [], dmProtectedLogged = [],
      dmLastSamples = [], dmPressure = 0, dmSignal = ''cpu'', dmCriticalPid = 0, dmTrigger = ''automatic'',
      dmLastSelfLog = 0, dmRemoteStop = False, dmAuto = new_protector env, dmClasses = classes,
      dmIdentity = \<lparr>ifExpected = [], ifCache = []\<rparr>, dmDashboardDirty = True, dmDashboardUrl = None,
      dmDashboardError = [], dmStartedTick = 0, dmLastSysIdle = 0, dmLastSysTotal = 0\<rparr>"

text \<open>\<open>Initialize\<close>: nothing is started when the configuration is refused.\<close>

definition Initialize :: "daemon_os \<Rightarrow> reload_env \<Rightarrow> u64 \<Rightarrow> daemon \<Rightarrow> (wstring + daemon) \<times> daemon_effect list" where
  "Initialize os env tick d =
     (let (loaded, out1) = LoadAndVerify os (rvFiles env) (rvAcl env) d in
      case loaded of
        Inl e \<Rightarrow> (Inl e, out1)
      | Inr cfg \<Rightarrow>
          (let d1 = (case rvAttr env of None \<Rightarrow> d
                | Some (written, high, low) \<Rightarrow>
                    d\<lparr>dmConfigWriteTime := written, dmConfigSize := file_size_of high low\<rparr>);
               (d2, out2) = ApplyConfig os (rvApply env) cfg True d1;
               d3 = d2\<lparr>dmStartedTick := tick, dmLastSelfLog := tick\<rparr>
           in (Inr d3, out1 @ out2 @ [DfPipeStart] @ dm_Log d3 ''service_lifecycle''
                 [(''event'', JStr ''started''), (''config_path'', JStr (Narrow os (dmConfigPath d3))),
                  (''config_sha256'', JStr (config_sha env d3)), (''logical_cores'', jUInt (dmCores d3)),
                  (''cpu_normalization'', JStr (if cfCpuPerCore cfg then ''per_core'' else ''total'')),
                  (''pid'', jUInt (doPid os))])))"

end
