(* ===== verification/DaemonPoll.thy ===== *)
theory DaemonPoll
  imports DaemonConfig
begin

text \<open>
  \<open>src/service/Daemon.cpp\<close>: one poll, the loop around it, and the shutdown.  \<open>poll_env\<close> is what
  Windows answers during one poll: the process list, the identities, each critical name's processes,
  and the answers to the actuator's three uses of a process (opening it, asking whether it has
  exited, updating it), which may differ.
\<close>

section \<open>One poll\<close>

record self_answers =
  saKernel :: filetime
  saUser :: filetime
  saNow :: filetime
  saWorkingSet :: u64
  saPrivate :: u64
  saHandles :: dword

record poll_env =
  pvSnapshot :: "process_entry list"
  pvIdentity :: id_env
  pvMonitor :: "wstring \<Rightarrow> mon_env"
  pvMemory :: "dword option"
  pvAdd :: os_env
  pvExited :: os_env
  pvUpdate :: os_env
  pvAuto :: ap_env
  pvTick :: u64
  pvSelfTick :: u64
  pvSelf :: self_answers

definition impostor_log :: "daemon_os \<Rightarrow> daemon \<Rightarrow> rejection \<Rightarrow> daemon_effect list" where
  "impostor_log os d r =
     dm_Log d ''identity_mismatch''
       [(''process_name'', JStr (Narrow os (peName (rjEntry r)))),
        (''process_id'', jUInt (pePid (rjEntry r))),
        (''image_path'', JStr (Narrow os (oiPath (rjObserved r)))),
        (''publisher'', JStr (Narrow os (oiPublisher (rjObserved r)))),
        (''reason'', JStr (rjReason r))]"

definition lifecycle_log :: "daemon_os \<Rightarrow> daemon \<Rightarrow> lifecycle_event \<Rightarrow> daemon_effect list" where
  "lifecycle_log os d e =
     dm_Log d ''process_lifecycle''
       ([(''role'', JStr ''critical''),
         (''event'', JStr (LifecycleName (leKind e))),
         (''process_name'', JStr (Narrow os (leName e))),
         (''process_id'', jUInt (lePid e))] @
        (if lePreviousPid e \<noteq> 0 then [(''previous_process_id'', jUInt (lePreviousPid e))] else []) @
        (if leKind e = LkCrashed \<or> leKind e = LkExited then [(''exit_code'', jUInt (leExitCode e))] else []))"

text \<open>Every tracked name is polled, in the order of the map.\<close>

fun poll_critical ::
  "name_eq \<Rightarrow> (wstring \<Rightarrow> mon_env) \<Rightarrow> process_entry list \<Rightarrow> (wstring \<times> tracked) list
     \<Rightarrow> (wstring \<times> tracked) list \<times> process_sample list \<times> lifecycle_event list \<times> handle_op list" where
  "poll_critical ceq env snapshot [] = ([], [], [], [])"
| "poll_critical ceq env snapshot ((n, t) # ts) =
     (let (ss, es, hs, t1) = tk_Poll ceq (env n) snapshot t;
          (ts', ss', es', hs') = poll_critical ceq env snapshot ts
      in ((n, t1) # ts', ss @ ss', es @ es', hs @ hs'))"

text \<open>The strongest of one process's signals, as a percentage of its limit, and its name.\<close>

definition stronger :: "double \<times> string \<Rightarrow> double \<times> string \<Rightarrow> double \<times> string" where
  "stronger new old = (if fst new > fst old then new else old)"

definition sample_signal :: "config \<Rightarrow> double \<Rightarrow> process_sample \<Rightarrow> double \<times> string" where
  "sample_signal cfg memLoad s =
     (let p0 = (psCpuPercent s, ''cpu'');
          p1 = (if cfMemoryTriggerEnabled cfg
                then (let q = stronger (100 * memLoad / cfSystemMemoryLimitPercent cfg, ''system_memory'') p0
                      in if cfCriticalWorkingSetLimitMb cfg > 0
                         then stronger (100 * psWorkingSetMb s / cfCriticalWorkingSetLimitMb cfg, ''working_set'') q
                         else q)
                else p0)
      in if cfIoTriggerEnabled cfg
         then stronger (100 * psIoMbPerSec s / cfCriticalIoLimitMbPerSec cfg, ''io'') p1
         else p1)"

type_synonym pressure_state = "bool \<times> double \<times> string \<times> dword"

definition combine_step :: "config \<Rightarrow> double \<Rightarrow> process_sample \<Rightarrow> pressure_state \<Rightarrow> pressure_state" where
  "combine_step cfg memLoad s st =
     (if \<not> psValid s then st
      else
        (let (anyValid, pressure, sig, pid) = st; (p, ps) = sample_signal cfg memLoad s
         in if p \<ge> pressure then (True, p, ps, psPid s) else (True, pressure, sig, pid)))"

definition combine :: "config \<Rightarrow> double \<Rightarrow> process_sample list \<Rightarrow> pressure_state" where
  "combine cfg memLoad samples = fold (combine_step cfg memLoad) samples (False, 0, ''cpu'', 0)"

definition sample_log :: "daemon_os \<Rightarrow> daemon \<Rightarrow> double \<Rightarrow> process_sample \<Rightarrow> daemon_effect list" where
  "sample_log os d memLoad s =
     (if psValid s \<and> cfLogSamples (dmCfg d) then
        (let (p, sig) = sample_signal (dmCfg d) memLoad s in
         dm_Log d ''sample''
           [(''process_id'', jUInt (psPid s)), (''cpu_percent'', JReal (Round1 (psCpuPercent s))),
            (''process_name'', JStr (Narrow os (psName s))), (''memory_mb'', JReal (Round1 (psWorkingSetMb s))),
            (''io_mb_per_sec'', JReal (Round1 (psIoMbPerSec s))), (''pressure_percent'', JReal (Round1 p)),
            (''trigger_signal'', JStr sig)])
      else [])"

definition batch_log :: "daemon_os \<Rightarrow> daemon \<Rightarrow> string \<Rightarrow> wstring \<Rightarrow> dword \<Rightarrow> (string \<times> json) list \<Rightarrow> daemon_effect list" where
  "batch_log os d event name pid extra =
     dm_Log d ''process_lifecycle''
       ([(''role'', JStr ''batch''), (''event'', JStr event), (''process_name'', JStr (Narrow os name)),
         (''process_id'', jUInt pid)] @ extra)"

fun discover_pids :: "daemon_os \<Rightarrow> os_env \<Rightarrow> wstring \<Rightarrow> dword list \<Rightarrow> daemon \<Rightarrow> daemon \<times> daemon_effect list" where
  "discover_pids os env name [] d = (d, [])"
| "discover_pids os env name (pid # pids) d =
     (if mg_Find pid (dmActuator d) \<noteq> None then discover_pids os env name pids d
      else
        (let (added, mg) = AddBatchProcess (ceq_of os) (doPid os) env name pid (dmActuator d);
             known = (pid \<in> set (dmProtectedLogged d));
             d1 = (if added then d\<lparr>dmActuator := mg\<rparr>
                   else if known then d else d\<lparr>dmProtectedLogged := pid # dmProtectedLogged d\<rparr>);
             out1 = (if added then batch_log os d ''acquired'' name pid []
                     else if known then [] else batch_log os d ''protected_skipped'' name pid []);
             (d2, out2) = discover_pids os env name pids d1
         in (d2, out1 @ out2)))"

fun discover_names ::
  "daemon_os \<Rightarrow> os_env \<Rightarrow> process_entry list \<Rightarrow> wstring list \<Rightarrow> daemon \<Rightarrow> daemon \<times> daemon_effect list" where
  "discover_names os env snapshot [] d = (d, [])"
| "discover_names os env snapshot (n # ns) d =
     (let (d1, out1) = discover_pids os env n (FindByName (ceq_of os) snapshot n) d;
          (d2, out2) = discover_names os env snapshot ns d1
      in (d2, out1 @ out2))"

definition DiscoverBatchProcesses ::
  "daemon_os \<Rightarrow> os_env \<Rightarrow> process_entry list \<Rightarrow> daemon \<Rightarrow> daemon \<times> daemon_effect list" where
  "DiscoverBatchProcesses os env snapshot d = discover_names os env snapshot (cfBatchProcesses (dmCfg d)) d"

text \<open>The thresholds follow the forecast and the controller's bias in steps of half a percent.\<close>

definition adapt_thresholds :: "daemon \<Rightarrow> daemon \<times> daemon_effect list" where
  "adapt_thresholds d =
     (let bias = dm_bias d; eff = ad_Adjust (dmAdaptive d) (dmBase d) bias in
      if \<bar>throttleThresholdPercent eff - throttleThresholdPercent (dmEffective d)\<bar> \<ge> 1 / 2 then
        (d\<lparr>dmEffective := eff, dmActuator := mg_SetConfig eff (dmActuator d)\<rparr>,
         dm_Log d ''adaptive_threshold''
           [(''offset_percent'', JReal (Round1 (throttleThresholdPercent (dmBase d) - throttleThresholdPercent eff))),
            (''slope_percent_per_sample'', JReal (Round1 (ad_Slope (dmAdaptive d)))),
            (''forecast_percent'', JReal (Round1 (ad_Forecast (dmAdaptive d)))),
            (''controller_bias_percent'', JReal (Round1 bias)),
            (''high_percent'', JReal (Round1 (throttleThresholdPercent eff))),
            (''critical_percent'', JReal (Round1 (escalateThresholdPercent eff))),
            (''low_percent'', JReal (Round1 (recoverThresholdPercent eff)))])
      else (d, []))"

definition report_streaks :: "double \<Rightarrow> dword \<Rightarrow> daemon \<Rightarrow> daemon \<times> daemon_effect list" where
  "report_streaks pressure pid d =
     (let (fired, tr) = tr_Add pressure (dmEffective d) (dmTracker d) in
      (d\<lparr>dmTracker := tr\<rparr>,
       if dmLogger d then map (\<lambda>f. DfThreshold pid (frType f) (frSamples f) (Round1 pressure)) fired else []))"

definition exited_log :: "daemon_os \<Rightarrow> os_env \<Rightarrow> daemon \<Rightarrow> daemon_effect list" where
  "exited_log os env d =
     concat (map (\<lambda>p. batch_log os d ''exited'' (smName (snd p)) (smPid (snd p))
                        [(''state'', JStr (StateName (smState (snd p))))])
       (filter (\<lambda>p. HasExited env (snd p)) (mgMachines (dmActuator d))))"

definition update_actuator :: "daemon_os \<Rightarrow> os_env \<Rightarrow> double \<Rightarrow> daemon \<Rightarrow> daemon \<times> daemon_effect list" where
  "update_actuator os env pressure d =
     (let (changed, mg, es) = UpdateAll env pressure (dmActuator d);
          (d1, out) = on_effects os es (d\<lparr>dmActuator := mg\<rparr>)
      in (d1\<lparr>dmTracker := (if changed then tr_Reset (dmTracker d1) else dmTracker d1),
             dmAdhoc := filter (\<lambda>pid. mg_Find pid (dmActuator d1) \<noteq> None) (dmAdhoc d1)\<rparr>, out))"

definition auto_exclude :: "daemon_os \<Rightarrow> daemon \<Rightarrow> wstring \<Rightarrow> dword \<Rightarrow> bool" where
  "auto_exclude os d name pid \<longleftrightarrow> configured_name os (dmCfg d) name \<or> mg_Find pid (dmActuator d) \<noteq> None"

definition tick_protector :: "daemon_os \<Rightarrow> ap_env \<Rightarrow> daemon \<Rightarrow> daemon \<times> daemon_effect list" where
  "tick_protector os env d = with_auto os (Tick (ceq_of os) env (auto_exclude os d) (dmAuto d, dmClasses d)) d"

definition LogSelf :: "u64 \<Rightarrow> self_answers \<Rightarrow> daemon \<Rightarrow> daemon \<times> daemon_effect list" where
  "LogSelf tick a d =
     (let (cpu, sf) = self_Sample (saKernel a) (saUser a) (saNow a) (dmSelf d) in
      (d\<lparr>dmLastSelfLog := tick, dmSelf := sf\<rparr>,
       dm_Log d ''self_monitor''
         [(''cpu_percent'', JReal (Round1 cpu)),
          (''working_set_mb'', JReal (Round1 (real (unat (saWorkingSet a)) / kMb))),
          (''private_mb'', JReal (Round1 (real (unat (saPrivate a)) / kMb))),
          (''handle_count'', jUInt (saHandles a)),
          (''managed_batch_processes'', JInt (int (length (mgMachines (dmActuator d))))),
          (''tracked_critical_names'', JInt (int (length (dmCritical d))))]))"

definition log_self_when_due :: "poll_env \<Rightarrow> daemon \<Rightarrow> daemon \<times> daemon_effect list" where
  "log_self_when_due env d =
     (if cfSelfMonitorIntervalSec (dmCfg d) > 0 \<and>
         pvTick env - dmLastSelfLog d \<ge> word_of_int (cfSelfMonitorIntervalSec (dmCfg d)) * 1000
      then LogSelf (pvSelfTick env) (pvSelf env) d else (d, []))"

text \<open>The part of a poll after the pressure is known.\<close>

definition act_on_pressure :: "daemon_os \<Rightarrow> poll_env \<Rightarrow> double \<times> string \<times> dword \<Rightarrow> daemon \<Rightarrow> daemon \<times> daemon_effect list" where
  "act_on_pressure os env ps d =
     (let (pressure, sig, pid) = ps;
          d0 = d\<lparr>dmPressure := pressure, dmSignal := sig, dmCriticalPid := pid,
                 dmAdaptive := ad_AddSample pressure (dmAdaptive d)\<rparr>;
          (d1, out1) = adapt_thresholds d0;
          (d2, out2) = report_streaks pressure pid d1;
          (d3, out3) = update_actuator os (pvUpdate env) pressure d2;
          (d4, out4) = tick_protector os (pvAuto env) d3;
          (d5, out5) = log_self_when_due env d4
      in (d5, out1 @ out2 @ exited_log os (pvExited env) d2 @ out3 @ out4 @ out5))"

definition Poll :: "daemon_os \<Rightarrow> poll_env \<Rightarrow> daemon \<Rightarrow> daemon \<times> daemon_effect list" where
  "Poll os env d =
     (let (snapshot, impostors, ids) = if_Filter (ceq_of os) (pvIdentity env) (pvSnapshot env) (dmIdentity d);
          (crit, samples, events, handles) = poll_critical (ceq_of os) (pvMonitor env) snapshot (dmCritical d);
          memLoad = (if cfMemoryTriggerEnabled (dmCfg d) then SystemMemoryLoadPercent (pvMemory env) else 0);
          (anyValid, ps) = combine (dmCfg d) memLoad samples;
          (d1, out1) = DiscoverBatchProcesses os (pvAdd env) snapshot
            (d\<lparr>dmIdentity := ids, dmCritical := crit, dmLastSamples := samples\<rparr>);
          out = concat (map (impostor_log os d) impostors) @ map DfHandle handles @
            concat (map (lifecycle_log os d) events) @ concat (map (sample_log os d memLoad) samples) @ out1
      in if samples \<noteq> [] \<and> \<not> anyValid then (d1, out)
         else (let (d2, out2) = act_on_pressure os env ps d1 in (d2, out @ out2)))"

section \<open>The loop and the shutdown\<close>

definition disabled_text :: string where
  "disabled_text = ''the dashboard is disabled (dashboard.enabled is false)''"

text \<open>\<open>start\<close> is what starting the dashboard on a port gives: an error, or its address.\<close>

definition UpdateDashboard :: "(int \<Rightarrow> string + string) \<Rightarrow> daemon \<Rightarrow> daemon \<times> daemon_effect list" where
  "UpdateDashboard start d =
     (if \<not> dmDashboardDirty d then (d, [])
      else
        (let port = cfDashboardPort (dmCfg d); d1 = d\<lparr>dmDashboardDirty := False, dmDashboardUrl := None\<rparr> in
         if \<not> cfDashboardEnabled (dmCfg d) then (d1\<lparr>dmDashboardError := disabled_text\<rparr>, [DfDashStop])
         else
           (case start port of
              Inr url \<Rightarrow>
                (d1\<lparr>dmDashboardError := [], dmDashboardUrl := Some url\<rparr>,
                 [DfDashStop, DfDashStart port] @ dm_Log d1 ''dashboard''
                   [(''event'', JStr ''started''), (''url'', JStr (''http://127.0.0.1:'' @ int_to_string port))])
            | Inl e \<Rightarrow>
                (d1\<lparr>dmDashboardError := e\<rparr>,
                 [DfDashStop, DfDashStart port] @ dm_Log d1 ''dashboard''
                   [(''event'', JStr ''start_failed''), (''error'', JStr e)]))))"

definition poll_wait :: "u64 \<Rightarrow> dword \<Rightarrow> dword" where
  "poll_wait elapsed interval = (if elapsed \<ge> ucast interval then 0 else ucast (ucast interval - elapsed))"

definition Shutdown :: "daemon_os \<Rightarrow> os_env \<Rightarrow> ap_env \<Rightarrow> daemon \<Rightarrow> daemon \<times> daemon_effect list" where
  "Shutdown os env autoEnv d =
     (let (mg, es) = ForceRecoverAllForShutdown env (dmActuator d);
          (d1, out1) = on_effects os es (d\<lparr>dmTrigger := ''shutdown'', dmActuator := mg, dmDashboardUrl := None\<rparr>);
          (d2, out2) = with_auto os (RestoreAll autoEnv ''service stopping'' (dmAuto d1, dmClasses d1)) d1;
          d3 = d2\<lparr>dmTrigger := ''automatic''\<rparr>
      in (d3\<lparr>dmCoordination := map_option coord_Stop (dmCoordination d3)\<rparr>,
          [DfDashStop, DfPipeStop] @ out1 @ out2 @ dm_Log d3 ''service_lifecycle'' [(''event'', JStr ''stopped'')] @
          (case dmCoordination d3 of None \<Rightarrow> []
           | Some c \<Rightarrow> (if cnConnected c then [DfSleep 500] else []) @ [DfCoordStop])))"

text \<open>
  One turn of the loop: \<open>rnStarted\<close> and \<open>rnEnded\<close> are the clock before and after, \<open>rnStop\<close> whether the
  stop event was signalled within the wait.  \<open>Run\<close> over the turns the environment offers is \<open>None\<close>
  as long as the loop has not been told to stop.
\<close>

record run_env =
  rnDashboard :: "int \<Rightarrow> string + string"
  rnReload :: reload_env
  rnPoll :: poll_env
  rnStarted :: u64
  rnEnded :: u64
  rnStop :: bool

definition Run_turn :: "daemon_os \<Rightarrow> run_env \<Rightarrow> daemon \<Rightarrow> dword \<times> daemon \<times> daemon_effect list" where
  "Run_turn os t d =
     (let (d1, out1) = UpdateDashboard (rnDashboard t) d;
          (d2, out2) = CheckConfigReload os (rnReload t) d1;
          (d3, out3) = Poll os (rnPoll t) d2
      in (poll_wait (rnEnded t - rnStarted t) (word_of_int (cfPollIntervalMs (dmCfg d3))), d3, out1 @ out2 @ out3))"

fun Run :: "daemon_os \<Rightarrow> os_env \<Rightarrow> ap_env \<Rightarrow> run_env list \<Rightarrow> daemon \<Rightarrow> (daemon \<times> daemon_effect list) option" where
  "Run os env autoEnv [] d = None"
| "Run os env autoEnv (t # ts) d =
     (let (wait, d1, out1) = Run_turn os t d in
      case (if rnStop t then Some (Shutdown os env autoEnv d1) else Run os env autoEnv ts d1) of
        None \<Rightarrow> None
      | Some (d2, out2) \<Rightarrow> Some (d2, out1 @ out2))"

end
