(* ===== verification/DaemonCommands.thy ===== *)
theory DaemonCommands
  imports DaemonPoll Dashboard
begin

text \<open>
  \<open>src/service/Daemon.cpp\<close>: the commands of the control pipe, the controller and the dashboard, and
  the dashboard's queries.  \<open>None\<close> as a reply is an exception that leaves the function:
  \<open>std::stoul\<close> throws on a number above \<open>2\<^sup>32 - 1\<close>, and nobody here catches it.
\<close>

section \<open>Status\<close>

definition thresholds_json :: "sm_config \<Rightarrow> json" where
  "thresholds_json c = JObj [(''high'', JReal (Round1 (throttleThresholdPercent c))),
     (''critical'', JReal (Round1 (escalateThresholdPercent c))),
     (''low'', JReal (Round1 (recoverThresholdPercent c)))]"

definition status_fields :: "daemon_os \<Rightarrow> daemon \<Rightarrow> (string \<times> json) list" where
  "status_fields os d =
     [(''ok'', JBool True),
      (''pressure_percent'', JReal (Round1 (dmPressure d))),
      (''pressure_signal'', JStr (dmSignal d)),
      (''critical_process_id'', jUInt (dmCriticalPid d)),
      (''offset_percent'', JReal (Round1 (throttleThresholdPercent (dmBase d) - throttleThresholdPercent (dmEffective d)))),
      (''thresholds'', thresholds_json (dmEffective d)),
      (''coordination_connected'', JBool (case dmCoordination d of None \<Rightarrow> False | Some c \<Rightarrow> cnConnected c)),
      (''critical'', JArr (map (\<lambda>s. JObj [(''name'', JStr (Narrow os (psName s))), (''pid'', jUInt (psPid s)),
         (''cpu_percent'', JReal (Round1 (psCpuPercent s)))]) (dmLastSamples d))),
      (''batch'', JArr (map (\<lambda>p. JObj [(''name'', JStr (Narrow os (smName (snd p)))), (''pid'', jUInt (smPid (snd p))),
         (''state'', JStr (StateName (smState (snd p)))), (''manual_hold'', JBool (smHold (snd p)))])
         (mgMachines (dmActuator d))))]"

definition StatusJson :: "daemon_os \<Rightarrow> daemon \<Rightarrow> string" where
  "StatusJson os d = coDump (doConf os) (JObj (status_fields os d))"

definition auto_status_fields :: "daemon_os \<Rightarrow> u64 \<Rightarrow> protector \<Rightarrow> (string \<times> json) list" where
  "auto_status_fields os now p =
     [(''enabled'', JBool (apEnabled (ppSettings p))),
      (''level'', JStr (AutoLevelName (asLevel (ppState p)))),
      (''system_cpu_percent'', JReal (tenths (ppSystemCpu p))),
      (''throttle_at_percent'', JReal (apThrottlePercent (ppSettings p))),
      (''idle_at_percent'', JReal (if apUseIdle (ppSettings p) then apIdlePercent (ppSettings p) else 0)),
      (''recover_below_percent'', JReal (apRecoverPercent (ppSettings p))),
      (''max_processes'', JInt (apMaxProcesses (ppSettings p))),
      (''processes'', JArr (map (\<lambda>(pid, e). JObj [(''pid'', jUInt pid), (''name'', JStr (Narrow os (enName e))),
         (''original_priority'', JStr (PriorityClassName (enOriginalClass e))),
         (''current_priority'', JStr (PriorityClassName (enCurrentClass e))),
         (''cpu_at_action'', JReal (tenths (enCpuAtAction e))),
         (''seconds'', JInt (uint ((now - enSinceTick e) div 1000)))]) (ppThrottled p))),
      (''exempt_pids'', JArr (map jUInt (ppExempt p)))]"

text \<open>What Windows tells \<open>DashboardStatus\<close>.\<close>

record status_env =
  seTick :: u64
  seWorkingSet :: "u64 option"
  seTimes :: "(filetime \<times> filetime \<times> filetime) option"
  seMemory :: "(dword \<times> u64 \<times> u64) option"

definition service_fields :: "daemon_os \<Rightarrow> status_env \<Rightarrow> daemon \<Rightarrow> (string \<times> json) list" where
  "service_fields os env d =
     [(''pid'', jUInt (doPid os)),
      (''uptime_seconds'', JInt (uint ((seTick env - dmStartedTick d) div 1000))),
      (''config_path'', JStr (Narrow os (dmConfigPath d))),
      (''log_path'', JStr (Narrow os (cfLogPath (dmCfg d)))),
      (''poll_interval_ms'', JInt (cfPollIntervalMs (dmCfg d))),
      (''cpu_normalization'', JStr (if cfCpuPerCore (dmCfg d) then ''per_core'' else ''total'')),
      (''adaptive_enabled'', JBool (cfAdaptiveEnabled (dmCfg d))),
      (''memory_trigger'', JBool (cfMemoryTriggerEnabled (dmCfg d))),
      (''io_trigger'', JBool (cfIoTriggerEnabled (dmCfg d)))] @
     (case seWorkingSet env of None \<Rightarrow> []
      | Some b \<Rightarrow> [(''working_set_mb'', JReal (Round1 (real (unat b) / kMb)))])"

definition base_thresholds_json :: "sm_config \<Rightarrow> json" where
  "base_thresholds_json c = JObj [(''high'', JReal (throttleThresholdPercent c)),
     (''critical'', JReal (escalateThresholdPercent c)), (''low'', JReal (recoverThresholdPercent c)),
     (''high_samples'', JInt (throttleConsecutiveSamples c)),
     (''critical_samples'', JInt (escalateConsecutiveSamples c)),
     (''low_samples'', JInt (recoverConsecutiveSamples c))]"

definition names_json :: "daemon_os \<Rightarrow> wstring list \<Rightarrow> json" where
  "names_json os ns = JArr (map (\<lambda>n. JStr (Narrow os n)) ns)"

text \<open>The busy share since the last request, and the memory.\<close>

definition system_fields :: "status_env \<Rightarrow> daemon \<Rightarrow> daemon \<times> (string \<times> json) list" where
  "system_fields env d =
     (let (d1, cpu) = (case seTimes env of
            None \<Rightarrow> (d, [])
          | Some (idleT, kernelT, userT) \<Rightarrow>
              (let idle = FileTimeToUint64 idleT; totalB = FileTimeToUint64 kernelT + FileTimeToUint64 userT;
                   busy = (if dmLastSysTotal d \<noteq> 0 \<and> totalB > dmLastSysTotal d
                     then 100 * (1 - real (unat (idle - dmLastSysIdle d)) / real (unat (totalB - dmLastSysTotal d)))
                     else 0)
               in (d\<lparr>dmLastSysIdle := idle, dmLastSysTotal := totalB\<rparr>,
                   [(''cpu_percent'', JReal (Round1 (clamp busy 0 100)))])));
          memory = (case seMemory env of
            None \<Rightarrow> []
          | Some (load, totalB, avail) \<Rightarrow>
              [(''memory_load_percent'', jUInt load),
               (''memory_total_gb'', JReal (Round1 (real (unat totalB) / kGb))),
               (''memory_used_gb'', JReal (Round1 (real (unat (totalB - avail)) / kGb)))])
      in (d1, cpu @ memory @ [(''logical_cores'', jUInt (dmCores d))]))"

text \<open>\<open>StatusJson\<close> is printed and parsed again there; here its members are kept.\<close>

definition DashboardStatus :: "daemon_os \<Rightarrow> status_env \<Rightarrow> daemon \<Rightarrow> daemon \<times> string" where
  "DashboardStatus os env d =
     (let (d1, sys) = system_fields env d in
      (d1, coDump (doConf os) (JObj (status_fields os d @
         [(''service'', JObj (service_fields os env d)),
          (''base_thresholds'', base_thresholds_json (dmBase d)),
          (''configured'', JObj [(''critical'', names_json os (cfCriticalProcesses (dmCfg d))),
             (''batch'', names_json os (cfBatchProcesses (dmCfg d))),
             (''protected'', names_json os (cfProtectedProcesses (dmCfg d)))]),
          (''system'', JObj sys),
          (''auto_protect'', JObj (auto_status_fields os (seTick env) (dmAuto d)))]))))"

definition lowered_json :: "daemon_os \<Rightarrow> wstring list \<Rightarrow> json" where
  "lowered_json os ns = JArr (map (\<lambda>n. JStr (Narrow os (doLower os n))) ns)"

text \<open>The states of the actuator's processes, overwritten by the protector's.\<close>

definition managed_states :: "daemon \<Rightarrow> (string \<times> json) list" where
  "managed_states d =
     foldl (\<lambda>m (pid, s). omap_put (to_string (unat pid)) (JStr s) m)
       (foldl (\<lambda>m p. omap_put (to_string (unat (smPid (snd p)))) (JStr (StateName (smState (snd p)))) m) []
         (mgMachines (dmActuator d)))
       (ap_States (dmAuto d))"

definition ProcessRolesJson :: "daemon_os \<Rightarrow> daemon \<Rightarrow> string" where
  "ProcessRolesJson os d =
     coDump (doConf os) (JObj
       [(''batch'', lowered_json os (cfBatchProcesses (dmCfg d))),
        (''builtin_protected'', lowered_json os kAlwaysProtected),
        (''critical'', lowered_json os (cfCriticalProcesses (dmCfg d))),
        (''protected'', lowered_json os (cfProtectedProcesses (dmCfg d))),
        (''states'', JObj (managed_states d))])"

definition reply_text :: "daemon_os \<Rightarrow> bool \<Rightarrow> string \<Rightarrow> string" where
  "reply_text os ok m = coDump (doConf os) (JObj (Reply ok m))"

definition DashboardInfo :: "daemon_os \<Rightarrow> daemon \<Rightarrow> string" where
  "DashboardInfo os d = (case dmDashboardUrl d of
       Some url \<Rightarrow> coDump (doConf os) (JObj (Reply True ''dashboard running'' @ [(''url'', JStr url)]))
     | None \<Rightarrow> reply_text os False
         (if dmDashboardError d = [] then ''dashboard is starting; try again'' else dmDashboardError d))"

section \<open>Safety and roles\<close>

definition is_numeric :: "string \<Rightarrow> bool" where
  "is_numeric s = list_all is_digit s"

definition matches_text :: "daemon_os \<Rightarrow> bool \<Rightarrow> string \<Rightarrow> process_entry \<Rightarrow> bool" where
  "matches_text os numeric target e =
     (if numeric then to_string (unat (pePid e)) = target else SameName os (peName e) (Widen os target))"

definition worse :: "safety_info \<Rightarrow> safety_info \<Rightarrow> safety_info" where
  "worse s worst = (if siLevel s > siLevel worst then s else worst)"

definition essential_reason :: wstring where
  "essential_reason = ''Essential to Windows: pausing or slowing it can freeze or crash the system.''"

definition SafetyOf :: "daemon_os \<Rightarrow> proc_env \<Rightarrow> process_entry list \<Rightarrow> string \<Rightarrow> safety_info" where
  "SafetyOf os env snapshot target =
     (let numeric = (target \<noteq> [] \<and> is_numeric target);
          running = fold (\<lambda>e. worse (ClassifyProcess (ceq_of os) env (pePid e) (peName e) kAlwaysProtected))
            (filter (matches_text os numeric target) snapshot) no_info
      in if \<not> numeric \<and> Contains os kAlwaysProtected (Widen os target)
         then running\<lparr>siLevel := SfEssential, siReason := essential_reason\<rparr>
         else running)"

text \<open>
  \<open>roRead\<close> is the configuration's text, \<open>roWrite\<close> whether the temporary file could be written,
  \<open>roReplace\<close> the error of swapping it in.
\<close>

record role_env =
  roProc :: proc_env
  roSnapshot :: "process_entry list"
  roRead :: "string option"
  roWrite :: bool
  roReplace :: "nat option"
  roSha :: string
  roReload :: reload_env

definition role_refused :: "daemon_os \<Rightarrow> role_env \<Rightarrow> string \<Rightarrow> string \<Rightarrow> bool \<Rightarrow> string option" where
  "role_refused os env name role confirmed =
     (if role = ''critical'' \<or> role = ''batch'' then
        (let safety = SafetyOf os (roProc env) (roSnapshot env) name in
         if siLevel safety = SfEssential then
           Some (reply_text os False (name @ '' is essential to Windows and can never be managed. '' @
             Narrow os (siReason safety)))
         else if siLevel safety \<noteq> SfNormal \<and> \<not> confirmed then
           Some (coDump (doConf os) (JObj (Reply False (Narrow os (siReason safety)) @
             [(''needs_confirmation'', JBool True), (''safety'', JStr (SafetyName (siLevel safety)))])))
         else None)
      else None)"

definition SetRole ::
  "daemon_os \<Rightarrow> role_env \<Rightarrow> string \<Rightarrow> string \<Rightarrow> bool \<Rightarrow> daemon \<Rightarrow> string option \<times> daemon \<times> daemon_effect list" where
  "SetRole os env name role confirmed d =
     (case role_refused os env name role confirmed of
        Some r \<Rightarrow> (Some r, d, [])
      | None \<Rightarrow>
          (case roRead env of
             None \<Rightarrow> (Some (reply_text os False (''cannot read '' @ Narrow os (dmConfigPath d))), d, [])
           | Some text \<Rightarrow>
               (case SetProcessRole (doConf os) text name role of
                  Inl (ConfigError e) \<Rightarrow> (Some (reply_text os False e), d, [])
                | Inl (JsonEscapes _) \<Rightarrow> (None, d, [])
                | Inr updated \<Rightarrow>
                    (let temp = dmConfigPath d @ ''.tmp'' in
                     if \<not> roWrite env then
                       (Some (reply_text os False (''cannot write '' @ Narrow os temp)), d, [])
                     else
                       (case roReplace env of
                          Some err \<Rightarrow>
                            (Some (reply_text os False (''cannot update '' @ Narrow os (dmConfigPath d) @
                               '' (error '' @ to_string err @ '')'')), d,
                             [DfWriteFile temp updated, DfDeleteFile temp])
                        | None \<Rightarrow>
                            (let out1 = dm_Log d ''dashboard_action''
                                   [(''action'', JStr ''set_role''), (''process_name'', JStr name), (''role'', JStr role),
                                    (''confirmed_risk'', JBool confirmed), (''config_sha256'', JStr (roSha env))];
                                 (d1, out2) = CheckConfigReload os (roReload env) d
                             in (Some (reply_text os True (if role = ''none'' then name @ '' is no longer monitored''
                                    else name @ '' is now a '' @ role @ '' process'')), d1,
                                 [DfWriteFile temp updated, DfReplaceFile (dmConfigPath d) temp] @ out1 @ out2)))))))"

section \<open>Commands\<close>

definition quoted :: "string \<Rightarrow> string" where
  "quoted s = CHR 0x27 # s @ [CHR 0x27]"

datatype override = OvThrottle | OvSuspend | OvResume | OvRelease

definition override_of :: "string \<Rightarrow> override option" where
  "override_of verb =
     (if verb = ''throttle'' then Some OvThrottle
      else if verb = ''suspend'' then Some OvSuspend
      else if verb = ''resume'' then Some OvResume
      else if verb = ''release'' then Some OvRelease
      else None)"

record command_env =
  caSnapshot :: "process_entry list"
  caOs :: os_env
  caAuto :: ap_env

text \<open>\<open>in >> verb >> target\<close>.\<close>

definition next_word :: "string \<Rightarrow> string \<times> string" where
  "next_word s =
     (let s1 = dropWhile c_space s in (takeWhile (\<lambda>c. \<not> c_space c) s1, dropWhile (\<lambda>c. \<not> c_space c) s1))"

text \<open>\<open>std::stoul\<close> on digits; \<open>unsigned long\<close> has 32 bits on Windows.\<close>

definition stoul :: "string \<Rightarrow> dword option" where
  "stoul s = (if digits_value s < 2 ^ 32 then Some (of_nat (digits_value s)) else None)"

text \<open>The processes a command is about: \<open>None\<close> when \<open>stoul\<close> throws, which it does on the first entry.\<close>

definition command_targets :: "daemon_os \<Rightarrow> process_entry list \<Rightarrow> string \<Rightarrow> process_entry list option" where
  "command_targets os snapshot target =
     (if is_numeric target then
        (if snapshot = [] then Some []
         else map_option (\<lambda>n. filter (\<lambda>e. pePid e = n) snapshot) (stoul target))
      else Some (filter (\<lambda>e. SameName os (peName e) (Widen os target)) snapshot))"

text \<open>The outcomes reported for one process.\<close>

definition critical_text :: string where
  "critical_text = ''refused: configured as a critical process''"

definition protected_text :: string where
  "protected_text = ''refused: process is on the protection list''"

definition unmanaged_text :: string where
  "unmanaged_text = ''not managed by the daemon''"

definition throttled_text :: string where
  "throttled_text = ''throttled; held until '' @ quoted ''release''"

definition suspended_text :: string where
  "suspended_text = ''suspended; held until '' @ quoted ''release''"

definition resumed_text :: string where
  "resumed_text = ''resumed at normal priority; held until '' @ quoted ''release''"

definition returned_text :: string where
  "returned_text = ''returned to automatic control''"

definition released_text :: string where
  "released_text = ''released (not a configured batch process, no longer managed)''"

text \<open>\<open>ForceState\<close> of a process the actuator has, with the manual hold set.\<close>

definition force_process ::
  "daemon_os \<Rightarrow> os_env \<Rightarrow> dword \<Rightarrow> process_state \<Rightarrow> daemon \<Rightarrow> daemon \<times> daemon_effect list" where
  "force_process os env pid st d =
     (let (_, mg, es) = mg_ForceState env pid st (dmPressure d) True (dmActuator d)
      in on_effects os es (d\<lparr>dmActuator := mg\<rparr>))"

definition hold_process ::
  "daemon_os \<Rightarrow> os_env \<Rightarrow> process_entry \<Rightarrow> process_state \<Rightarrow> string \<Rightarrow> daemon
     \<Rightarrow> (bool \<times> string) \<times> daemon \<times> daemon_effect list" where
  "hold_process os env e st said d =
     (let pid = pePid e in
      if mg_Find pid (dmActuator d) \<noteq> None then ((True, said), force_process os env pid st d)
      else
        (let (added, mg) = AddBatchProcess (ceq_of os) (doPid os) env (peName e) pid (dmActuator d) in
         if \<not> added then ((False, protected_text), d, [])
         else ((True, said), force_process os env pid st
           (d\<lparr>dmActuator := mg, dmAdhoc := List.insert pid (dmAdhoc d)\<rparr>))))"

definition release_process :: "dword \<Rightarrow> daemon \<Rightarrow> (bool \<times> string) \<times> daemon \<times> daemon_effect list" where
  "release_process pid d =
     (let mg = snd (mg_ReleaseManualHold pid (dmActuator d)); d1 = d\<lparr>dmActuator := mg\<rparr> in
      if pid \<in> set (dmAdhoc d) \<and> map_option smState (mg_Find pid mg) = Some StNormal
      then ((True, released_text),
            d1\<lparr>dmActuator := RemoveBatchProcess pid mg, dmAdhoc := removeAll pid (dmAdhoc d)\<rparr>, [])
      else ((True, returned_text), d1, []))"

definition override_one ::
  "daemon_os \<Rightarrow> os_env \<Rightarrow> override \<Rightarrow> process_entry \<Rightarrow> daemon \<Rightarrow> (bool \<times> string) \<times> daemon \<times> daemon_effect list" where
  "override_one os env verb e d =
     (let managed = (mg_Find (pePid e) (dmActuator d) \<noteq> None) in
      if Contains os (cfCriticalProcesses (dmCfg d)) (peName e)
      then ((False, critical_text), d, [])
      else (case verb of
          OvThrottle \<Rightarrow> hold_process os env e StThrottled throttled_text d
        | OvSuspend \<Rightarrow> hold_process os env e StSuspended suspended_text d
        | OvResume \<Rightarrow>
            if \<not> managed then ((False, unmanaged_text), d, [])
            else ((True, resumed_text),
                  force_process os env (pePid e) StNormal d)
        | OvRelease \<Rightarrow>
            if \<not> managed then ((False, unmanaged_text), d, [])
            else release_process (pePid e) d))"

definition override_result :: "daemon_os \<Rightarrow> process_entry \<Rightarrow> bool \<times> string \<Rightarrow> json" where
  "override_result os e r = JObj [(''pid'', jUInt (pePid e)), (''name'', JStr (Narrow os (peName e))),
     (''ok'', JBool (fst r)), (''result'', JStr (snd r))]"

definition override_log :: "daemon_os \<Rightarrow> daemon \<Rightarrow> string \<Rightarrow> process_entry \<Rightarrow> bool \<times> string \<Rightarrow> daemon_effect list" where
  "override_log os d verb e r =
     dm_Log d ''manual_override''
       [(''command'', JStr verb), (''process_id'', jUInt (pePid e)), (''process_name'', JStr (Narrow os (peName e))),
        (''ok'', JBool (fst r)), (''result'', JStr (snd r))]"

fun override_all ::
  "daemon_os \<Rightarrow> os_env \<Rightarrow> string \<Rightarrow> override \<Rightarrow> process_entry list \<Rightarrow> daemon
     \<Rightarrow> (process_entry \<times> bool \<times> string) list \<times> daemon \<times> daemon_effect list" where
  "override_all os env text verb [] d = ([], d, [])"
| "override_all os env text verb (e # es) d =
     (let (r, d1, out1) = override_one os env verb e d;
          (rs, d2, out2) = override_all os env text verb es d1
      in ((e, r) # rs, d2, out1 @ override_log os d1 text e r @ out2))"

fun exempt_matching ::
  "ap_env \<Rightarrow> process_entry list \<Rightarrow> protector \<times> priorities \<Rightarrow> (protector \<times> priorities) \<times> ap_effect list" where
  "exempt_matching env [] s = (s, [])"
| "exempt_matching env (e # es) s =
     (let (_, s1, eff1) = Exempt env (pePid e) (peName e) s; (s2, eff2) = exempt_matching env es s1
      in (s2, eff1 @ eff2))"

definition no_match :: "daemon_os \<Rightarrow> string \<Rightarrow> string" where
  "no_match os target =
     reply_text os False (''no running process matches '' @ [dquote] @ target @ [dquote])"

definition exempt_command ::
  "daemon_os \<Rightarrow> command_env \<Rightarrow> string \<Rightarrow> daemon \<Rightarrow> string option \<times> daemon \<times> daemon_effect list" where
  "exempt_command os env target d =
     (if target = [] then (Some (reply_text os False ''exempt needs a PID or process name''), d, [])
      else
        (let es = filter (matches_text os (is_numeric target) target) (caSnapshot env);
             (d1, out) = with_auto os (exempt_matching (caAuto env) es (dmAuto d, dmClasses d)) d
         in if es = [] then (Some (no_match os target), d, [])
            else (Some (coDump (doConf os) (JObj (Reply True ''done'' @
                   [(''results'', JArr (map (\<lambda>e. override_result os e
                       (True, ''restored and excluded from auto-protect until it exits'')) es))]))), d1, out)))"

definition override_command ::
  "daemon_os \<Rightarrow> command_env \<Rightarrow> string \<Rightarrow> override \<Rightarrow> string \<Rightarrow> daemon \<Rightarrow> string option \<times> daemon \<times> daemon_effect list" where
  "override_command os env text verb target d =
     (if target = [] then (Some (reply_text os False (text @ '' needs a PID or process name'')), d, [])
      else
        (case command_targets os (caSnapshot env) target of
           None \<Rightarrow> (None, d, [])
         | Some [] \<Rightarrow> (Some (no_match os target), d, [])
         | Some es \<Rightarrow>
             (let (rs, d1, out) = override_all os (caOs env) text verb es (d\<lparr>dmTrigger := ''manual''\<rparr>);
                  allOk = list_all (\<lambda>r. fst (snd r)) rs
              in (Some (coDump (doConf os) (JObj
                    (Reply allOk (if allOk then ''done'' else ''one or more targets failed'') @
                     [(''results'', JArr (map (\<lambda>(e, r). override_result os e r) rs))]))),
                  d1\<lparr>dmTrigger := ''automatic''\<rparr>, out))))"

definition unknown_command :: "string \<Rightarrow> string" where
  "unknown_command verb = ''unknown command '' @ [dquote] @ verb @ [dquote] @
     ''; use throttle|suspend|resume|release <pid|name> or status''"

definition stop_command :: "daemon_os \<Rightarrow> daemon \<Rightarrow> string option \<times> daemon \<times> daemon_effect list" where
  "stop_command os d =
     (if \<not> dmRemoteStop d
      then (Some (reply_text os False (''running as a service: use '' @ quoted ''sc stop ThreadHaulDaemon'')), d, [])
      else (Some (reply_text os True ''stopping; managed processes will be restored''), d, [DfSignalStop]))"

definition HandleCommand ::
  "daemon_os \<Rightarrow> command_env \<Rightarrow> string \<Rightarrow> daemon \<Rightarrow> string option \<times> daemon \<times> daemon_effect list" where
  "HandleCommand os env line d =
     (let (word, rest) = next_word line; verb = map ascii_lower word; target = fst (next_word rest) in
      if verb = ''status'' then (Some (StatusJson os d), d, [])
      else if verb = ''stop'' then stop_command os d
      else if verb = ''exempt'' then exempt_command os env target d
      else (case override_of verb of
          None \<Rightarrow> (Some (reply_text os False (unknown_command verb)), d, [])
        | Some v \<Rightarrow> override_command os env verb v target d))"

text \<open>The control pipe answers one request more.\<close>

definition pipe_request ::
  "daemon_os \<Rightarrow> command_env \<Rightarrow> string \<Rightarrow> daemon \<Rightarrow> string option \<times> daemon \<times> daemon_effect list" where
  "pipe_request os env req d =
     (if req = ''dashboard'' then (Some (DashboardInfo os d), d, []) else HandleCommand os env req d)"

section \<open>Reading the log\<close>

definition kTail :: int where "kTail = 256 * 1024"
definition kMaxRead :: int where "kMaxRead = 1024 * 1024"

fun find_char :: "char \<Rightarrow> string \<Rightarrow> nat option" where
  "find_char c [] = None"
| "find_char c (x # xs) = (if x = c then Some 0 else map_option Suc (find_char c xs))"

definition rfind_char :: "char \<Rightarrow> string \<Rightarrow> nat option" where
  "rfind_char c s = (case find_char c (rev s) of None \<Rightarrow> None | Some k \<Rightarrow> Some (length s - 1 - k))"

text \<open>Where reading starts, and whether the reader has to begin anew.\<close>

definition read_from :: "int \<Rightarrow> int \<Rightarrow> int \<times> bool" where
  "read_from fileSize offset =
     (if offset < 0 then (max 0 (fileSize - kTail), True)
      else if offset > fileSize then (0, True)
      else (offset, False))"

definition first_line_at :: "int \<Rightarrow> int \<Rightarrow> string \<Rightarrow> nat" where
  "first_line_at offset start buf =
     (if offset < 0 \<and> start > 0
      then (case find_char newline buf of None \<Rightarrow> length buf | Some nl \<Rightarrow> nl + 1)
      else 0)"

definition last_line_end :: "nat \<Rightarrow> string \<Rightarrow> nat" where
  "last_line_end first buf =
     (case rfind_char newline buf of None \<Rightarrow> first | Some l \<Rightarrow> if l < first then first else l + 1)"

function lines_between :: "string \<Rightarrow> nat \<Rightarrow> nat \<Rightarrow> string list" where
  "lines_between buf p stop =
     (if p < stop then
        (let nl = (case find_char newline (drop p buf) of None \<Rightarrow> stop
                   | Some k \<Rightarrow> if p + k > stop then stop else p + k)
         in chomp (take (nl - p) (drop p buf)) # lines_between buf (nl + 1) stop)
      else [])"
  by pat_completeness auto
termination by (relation "measure (\<lambda>(buf, p, stop). stop - p)") (auto split: option.splits)

declare lines_between.simps [simp del]

text \<open>The lines returned, the offset to continue from, and \<open>reset\<close>; a failed read gives nothing.\<close>

definition log_page :: "bool \<Rightarrow> int \<Rightarrow> string \<Rightarrow> string list \<times> int \<times> bool" where
  "log_page readable offset content =
     (let (start, reset) = read_from (int (length content)) offset;
          len = min (int (length content) - start) kMaxRead;
          buf = (if readable then take (nat len) (drop (nat start) content) else []);
          b = first_line_at offset start buf;
          e = last_line_end b buf
      in (lines_between buf b e, start + int e, reset))"

definition log_entries :: "daemon_os \<Rightarrow> string list \<Rightarrow> json list" where
  "log_entries os ls =
     List.map_filter (\<lambda>l. case coParseOrdered (doConf os) l of
       Inl _ \<Rightarrow> None | Inr j \<Rightarrow> if is_object j then Some j else None) ls"

definition ReadLog :: "daemon_os \<Rightarrow> bool \<Rightarrow> string option \<Rightarrow> int \<Rightarrow> daemon \<Rightarrow> string" where
  "ReadLog os readable file offset d =
     (let header = [(''ok'', JBool True), (''log_path'', JStr (Narrow os (cfLogPath (dmCfg d))))] in
      coDump (doConf os) (JObj (header @
        (case file of
           None \<Rightarrow> [(''offset'', JInt 0), (''reset'', JBool (offset \<noteq> 0)), (''entries'', JArr []),
              (''note'', JStr ''log file not created yet'')]
         | Some content \<Rightarrow>
             (let (ls, next, reset) = log_page readable offset content
              in [(''offset'', JInt next), (''reset'', JBool reset), (''size'', JInt (int (length content))),
                  (''entries'', JArr (log_entries os ls))])))))"

section \<open>The dashboard's interface\<close>

record request_env =
  qeStatus :: status_env
  qeReadable :: bool
  qeLog :: "string option"
  qeProc :: proc_env
  qeSnapshot :: "process_entry list"
  qeCommand :: command_env
  qeRole :: role_env

definition dashboard_api :: "daemon_os \<Rightarrow> request_env \<Rightarrow> (daemon \<times> daemon_effect list) daemon_api" where
  "dashboard_api os q =
     \<lparr>daStatus = (\<lambda>s. let (d, r) = DashboardStatus os (qeStatus q) (fst s) in (r, d, snd s)),
      daReadLog = (\<lambda>n s. ReadLog os (qeReadable q) (qeLog q) n (fst s)),
      daSafetyOf = (\<lambda>t s. SafetyOf os (qeProc q) (qeSnapshot q) t),
      daHandleCommand = (\<lambda>line s. let (r, d, out) = HandleCommand os (qeCommand q) line (fst s) in (r, d, snd s @ out)),
      daSetRole = (\<lambda>name role c s. let (r, d, out) = SetRole os (qeRole q) name role c (fst s) in (r, d, snd s @ out))\<rparr>"

end
