(* ===== verification/Daemon_Facts.thy ===== *)
theory Daemon_Facts
  imports DaemonCommands Config_Facts
begin

text \<open>
  The invariant of the daemon and its preservation: callbacks change nothing but the coordination
  client's outbox; the actuator's part, the protector's part and the thresholds are kept by every
  operation.
\<close>

section \<open>What callbacks change\<close>

lemma OnTransition_daemon: "\<exists>c. fst (OnTransition os ti d) = d\<lparr>dmCoordination := c\<rparr>"
  by (auto simp: OnTransition_def)

lemma on_effects_daemon: "\<exists>c. fst (on_effects os es d) = d\<lparr>dmCoordination := c\<rparr>"
proof (induction os es d rule: on_effects.induct)
  case (1 os d)
  show ?case by (rule exI [of _ "dmCoordination d"]) simp
next
  case (2 os c es d)
  then show ?case by (simp add: split_beta)
next
  case (3 os ti es d)
  obtain d1 out1 where t: "OnTransition os ti d = (d1, out1)" by fastforce
  obtain c where "d1 = d\<lparr>dmCoordination := c\<rparr>" using OnTransition_daemon [of os ti d] t by auto
  moreover have "\<exists>c. fst (on_effects os es d1) = d1\<lparr>dmCoordination := c\<rparr>" using 3 t by auto
  ultimately show ?case using t by (auto simp: split_beta)
qed

text \<open>Everything but the client.\<close>

definition no_coord :: "daemon \<Rightarrow> daemon" where
  "no_coord d = d\<lparr>dmCoordination := None\<rparr>"

lemma on_effects_no_coord [simp]: "no_coord (fst (on_effects os es d)) = no_coord d"
  using on_effects_daemon [of os es d] by (auto simp: no_coord_def)

lemma on_effects_frame [simp]:
  "dmActuator (fst (on_effects os es d)) = dmActuator d"
  "dmAdhoc (fst (on_effects os es d)) = dmAdhoc d"
  "dmCfg (fst (on_effects os es d)) = dmCfg d"
  "dmAuto (fst (on_effects os es d)) = dmAuto d"
  "dmClasses (fst (on_effects os es d)) = dmClasses d"
  "dmTrigger (fst (on_effects os es d)) = dmTrigger d"
  "dmBase (fst (on_effects os es d)) = dmBase d"
  "dmEffective (fst (on_effects os es d)) = dmEffective d"
  "dmTracker (fst (on_effects os es d)) = dmTracker d"
  "dmPressure (fst (on_effects os es d)) = dmPressure d"
  "dmAdaptive (fst (on_effects os es d)) = dmAdaptive d"
  "dmCritical (fst (on_effects os es d)) = dmCritical d"
  using on_effects_daemon [of os es d] by auto

lemma with_auto_frame [simp]:
  "dmActuator (fst (with_auto os r d)) = dmActuator d"
  "dmAdhoc (fst (with_auto os r d)) = dmAdhoc d"
  "dmCfg (fst (with_auto os r d)) = dmCfg d"
  "dmTrigger (fst (with_auto os r d)) = dmTrigger d"
  "dmBase (fst (with_auto os r d)) = dmBase d"
  "dmEffective (fst (with_auto os r d)) = dmEffective d"
  "dmAuto (fst (with_auto os r d)) = fst (fst r)"
  "dmClasses (fst (with_auto os r d)) = snd (fst r)"
  by (simp_all add: with_auto_def split_beta Let_def)

section \<open>The actuator's part\<close>

text \<open>
  \<open>mg_same\<close>: an operation of the manager that leaves its thresholds and its list alone, adds no
  process, and renames none.
\<close>

definition mg_same :: "manager \<Rightarrow> manager \<Rightarrow> bool" where
  "mg_same mg mg' \<longleftrightarrow> mgConfig mg' = mgConfig mg \<and> mgProtected mg' = mgProtected mg \<and>
     mgCallback mg' = mgCallback mg \<and>
     (\<forall>pid m'. mg_Find pid mg' = Some m' \<longrightarrow> (\<exists>m. mg_Find pid mg = Some m \<and> smName m' = smName m))"

lemma mg_same_refl [simp]: "mg_same mg mg"
  by (simp add: mg_same_def)

lemma mg_same_trans: "mg_same a b \<Longrightarrow> mg_same b c \<Longrightarrow> mg_same a c"
  unfolding mg_same_def by (metis (no_types, lifting))

lemma mg_Find_filter_map:
  assumes "distinct (map fst ms)" and "map_of (map (\<lambda>(p, m). (p, f m)) (filter P ms)) pid = Some m'"
  shows "\<exists>m. map_of ms pid = Some m \<and> P (pid, m) \<and> m' = f m"
proof -
  have "(pid, m') \<in> set (map (\<lambda>(p, m). (p, f m)) (filter P ms))"
    using assms(2) by (rule map_of_SomeD)
  then obtain m where "(pid, m) \<in> set ms" "P (pid, m)" "m' = f m" by auto
  then show ?thesis using assms(1) by auto
qed

lemma mg_keys_distinct: "mg_inv ceq self mg \<Longrightarrow> distinct (map fst (mgMachines mg))"
  by (simp add: mg_inv_def akeys_def)

lemma mg_same_UpdateAll:
  assumes "mg_inv ceq self mg"
  shows "mg_same mg (fst (snd (UpdateAll env cpu mg)))"
  using mg_Find_filter_map [OF mg_keys_distinct [OF assms], of "\<lambda>m. fst (snd (sm_Update env cpu m))"]
  by (fastforce simp: mg_same_def mg_Find_def UpdateAll_def split_beta update_all_machines)

lemma mg_Find_put: "mg_Find q (mg\<lparr>mgMachines := amap_put pid m (mgMachines mg)\<rparr>) =
    (if q = pid then Some m else mg_Find q mg)"
  by (simp add: mg_Find_def map_of_amap_put)

lemma mg_Find_Remove [simp]: "mg_Find q (RemoveBatchProcess pid mg) = (if q = pid then None else mg_Find q mg)"
  by (simp add: mg_Find_def RemoveBatchProcess_def map_of_amap_erase)

lemma mg_Remove_frame [simp]:
  "mgConfig (RemoveBatchProcess pid mg) = mgConfig mg" "mgProtected (RemoveBatchProcess pid mg) = mgProtected mg"
  "mgCallback (RemoveBatchProcess pid mg) = mgCallback mg"
  by (simp_all add: RemoveBatchProcess_def)

lemma mg_same_Remove: "mg_same mg (RemoveBatchProcess pid mg)"
  by (simp add: mg_same_def)

lemma mg_Find_ForceState:
  "mg_Find q (fst (snd (mg_ForceState env pid s cpu hold mg))) =
   (if q = pid then map_option (\<lambda>m. fst (sm_ForceState env s cpu hold m)) (mg_Find pid mg) else mg_Find q mg)"
  by (auto simp: mg_ForceState_def split_beta mg_Find_put split: option.splits)

lemma mg_Find_Release:
  "mg_Find q (snd (mg_ReleaseManualHold pid mg)) =
   (if q = pid then map_option sm_ReleaseManualHold (mg_Find pid mg) else mg_Find q mg)"
  by (auto simp: mg_ReleaseManualHold_def mg_Find_put split: option.splits)

lemma mg_ops_frame [simp]:
  "mgConfig (fst (snd (mg_ForceState env pid s cpu hold mg))) = mgConfig mg"
  "mgProtected (fst (snd (mg_ForceState env pid s cpu hold mg))) = mgProtected mg"
  "mgCallback (fst (snd (mg_ForceState env pid s cpu hold mg))) = mgCallback mg"
  "mgConfig (snd (mg_ReleaseManualHold pid mg)) = mgConfig mg"
  "mgProtected (snd (mg_ReleaseManualHold pid mg)) = mgProtected mg"
  "mgCallback (snd (mg_ReleaseManualHold pid mg)) = mgCallback mg"
  by (simp_all add: mg_ForceState_def mg_ReleaseManualHold_def split_beta split: option.split)

lemma mg_same_ForceState: "mg_same mg (fst (snd (mg_ForceState env pid s cpu hold mg)))"
  by (auto simp: mg_same_def mg_Find_ForceState split: if_splits)

lemma mg_same_Release: "mg_same mg (snd (mg_ReleaseManualHold pid mg))"
  by (auto simp: mg_same_def mg_Find_Release sm_ReleaseManualHold_def split: if_splits)

lemma mg_Find_Add:
  "mg_Find q (snd (AddBatchProcess ceq self env name pid mg)) =
   (if q = pid \<and> mg_Find pid mg = None \<and> fst (AddBatchProcess ceq self env name pid mg)
    then Some (new_machine env name pid (mgConfig mg) (mgCallback mg)) else mg_Find q mg)"
  by (auto simp: AddBatchProcess_def mg_Find_def amap_has_def map_of_amap_put)

lemma mg_Add_frame [simp]:
  "mgConfig (snd (AddBatchProcess ceq self env name pid mg)) = mgConfig mg"
  "mgProtected (snd (AddBatchProcess ceq self env name pid mg)) = mgProtected mg"
  "mgCallback (snd (AddBatchProcess ceq self env name pid mg)) = mgCallback mg"
  by (simp_all add: AddBatchProcess_def)

lemma mg_SetConfig_frame [simp]:
  "mgConfig (mg_SetConfig cfg mg) = cfg" "mgProtected (mg_SetConfig cfg mg) = mgProtected mg"
  "mgCallback (mg_SetConfig cfg mg) = mgCallback mg"
  by (simp_all add: mg_SetConfig_def)

lemma mg_Find_SetConfig: "mg_Find pid (mg_SetConfig cfg mg) = map_option (sm_SetConfig cfg) (mg_Find pid mg)"
  by (simp add: mg_SetConfig_def mg_Find_def map_of_map split_beta)

lemma mg_Protect_frame [simp]:
  "mgConfig (fst (SetProtectedProcessNames ceq self env names mg)) = mgConfig mg"
  "mgProtected (fst (SetProtectedProcessNames ceq self env names mg)) = names"
  "mgCallback (fst (SetProtectedProcessNames ceq self env names mg)) = mgCallback mg"
  by (simp_all add: SetProtectedProcessNames_def Let_def split_beta)

section \<open>The thresholds in force\<close>

definition effective_ok :: "sm_config \<Rightarrow> sm_config \<Rightarrow> bool" where
  "effective_ok basis eff \<longleftrightarrow>
     recoverThresholdPercent eff = recoverThresholdPercent basis \<and>
     recoverThresholdPercent eff < throttleThresholdPercent eff \<and>
     throttleThresholdPercent eff \<le> throttleThresholdPercent basis \<and>
     escalateThresholdPercent eff - throttleThresholdPercent eff =
       escalateThresholdPercent basis - throttleThresholdPercent basis \<and>
     throttleConsecutiveSamples eff = throttleConsecutiveSamples basis \<and>
     escalateConsecutiveSamples eff = escalateConsecutiveSamples basis \<and>
     recoverConsecutiveSamples eff = recoverConsecutiveSamples basis"

lemma ad_Adjust_effective:
  "recoverThresholdPercent b < throttleThresholdPercent b \<Longrightarrow> effective_ok b (ad_Adjust a b bias)"
  using ad_Adjust_hysteresis(1) [of b a bias] ad_Offset_bounds(1) [of a b bias]
  by (simp add: effective_ok_def)

lemma config_hysteresis:
  assumes "config_ok conf cfg"
  shows "recoverThresholdPercent (ToStateMachineConfig cfg) < throttleThresholdPercent (ToStateMachineConfig cfg)"
  using assms by (simp add: config_ok_defs ToStateMachineConfig_def)

section \<open>The invariant\<close>

definition thresholds_in_step :: "daemon \<Rightarrow> bool" where
  "thresholds_in_step d \<longleftrightarrow> dmBase d = ToStateMachineConfig (dmCfg d) \<and> effective_ok (dmBase d) (dmEffective d) \<and>
     mgConfig (dmActuator d) = dmEffective d"

definition actuator_ok :: "daemon_os \<Rightarrow> daemon \<Rightarrow> bool" where
  "actuator_ok os d \<longleftrightarrow> mg_inv (ceq_of os) (doPid os) (dmActuator d) \<and>
     mgProtected (dmActuator d) = cfProtectedProcesses (dmCfg d) \<and> mgCallback (dmActuator d)"

definition managed_for_a_reason :: "daemon_os \<Rightarrow> daemon \<Rightarrow> bool" where
  "managed_for_a_reason os d \<longleftrightarrow> (\<forall>pid m. mg_Find pid (dmActuator d) = Some m \<longrightarrow>
     Contains os (cfBatchProcesses (dmCfg d)) (smName m) \<or> pid \<in> set (dmAdhoc d))"

definition auto_in_step :: "daemon \<Rightarrow> bool" where
  "auto_in_step d \<longleftrightarrow> ap_inv (dmAuto d, dmClasses d) \<and> ppSettings (dmAuto d) = ToAutoSettings (dmCfg d)"

definition dm_core :: "daemon_os \<Rightarrow> daemon \<Rightarrow> bool" where
  "dm_core os d \<longleftrightarrow> config_ok (doConf os) (dmCfg d) \<and> thresholds_in_step d \<and> actuator_ok os d \<and>
     managed_for_a_reason os d \<and> auto_in_step d"

definition dm_inv :: "daemon_os \<Rightarrow> daemon \<Rightarrow> bool" where
  "dm_inv os d \<longleftrightarrow> dm_core os d \<and> dmTrigger d = ''automatic''"

lemmas dm_core_defs = dm_core_def thresholds_in_step_def actuator_ok_def managed_for_a_reason_def auto_in_step_def

text \<open>Operations that only work on the processes already managed.\<close>

lemma dm_core_same:
  assumes "dm_core os d" and "mg_same (dmActuator d) mg" and "mg_inv (ceq_of os) (doPid os) mg"
  shows "dm_core os (d\<lparr>dmActuator := mg\<rparr>)"
  using assms unfolding dm_core_defs mg_same_def by (simp, metis)

lemma dm_core_frame:
  assumes "dm_core os d" and "dmActuator d' = dmActuator d" and "dmAdhoc d' = dmAdhoc d" and "dmCfg d' = dmCfg d"
    and "dmAuto d' = dmAuto d" and "dmClasses d' = dmClasses d" and "dmBase d' = dmBase d"
    and "dmEffective d' = dmEffective d"
  shows "dm_core os d'"
  using assms unfolding dm_core_defs by auto

lemma dm_core_auto:
  assumes "dm_core os d" and "ap_inv (fst r)" and "ppSettings (fst (fst r)) = ppSettings (dmAuto d)"
  shows "dm_core os (fst (with_auto os r d))"
  using assms unfolding dm_core_defs by auto

end
