(* ===== verification/Daemon_Invariant.thy ===== *)
theory Daemon_Invariant
  imports Daemon_Facts
begin

text \<open>
  Every operation of the daemon keeps its invariant: the poll, the commands, a reload.  The only fact
  about the comparison of names that is used is that a name equals itself.
\<close>

section \<open>The poll\<close>

lemma Contains_refl: "\<forall>n. ceq_of os n n \<Longrightarrow> n \<in> set names \<Longrightarrow> Contains os names n"
  by (auto simp: Contains_def SameName_def list_ex_iff)

lemma core_effects: "dm_core os (fst (on_effects os es d)) = dm_core os d"
  using dm_core_frame [of os d "fst (on_effects os es d)"] dm_core_frame [of os "fst (on_effects os es d)" d]
  by auto

lemma core_add:
  assumes "dm_core os d" and "Contains os (cfBatchProcesses (dmCfg d)) name \<or> pid \<in> set adhoc"
    and "set (dmAdhoc d) \<subseteq> set adhoc"
  shows "dm_core os (d\<lparr>dmActuator := snd (AddBatchProcess (ceq_of os) (doPid os) env name pid (dmActuator d)),
    dmAdhoc := adhoc\<rparr>)"
proof -
  have n: "smName (new_machine env name pid c cb) = name" for c cb by (simp add: new_machine_def)
  have "managed_for_a_reason os (d\<lparr>dmActuator := snd (AddBatchProcess (ceq_of os) (doPid os) env name pid (dmActuator d)),
      dmAdhoc := adhoc\<rparr>)"
    using assms unfolding dm_core_def managed_for_a_reason_def by (auto simp: mg_Find_Add n split: if_splits)
  then show ?thesis
    using assms(1) unfolding dm_core_def thresholds_in_step_def actuator_ok_def auto_in_step_def
    by (auto intro: mg_inv_AddBatchProcess)
qed

lemma core_discover_pids:
  "dm_core os d \<Longrightarrow> Contains os (cfBatchProcesses (dmCfg d)) name \<Longrightarrow>
   dm_core os (fst (discover_pids os env name pids d)) \<and> dmCfg (fst (discover_pids os env name pids d)) = dmCfg d \<and>
   dmTrigger (fst (discover_pids os env name pids d)) = dmTrigger d"
proof (induction os env name pids d rule: discover_pids.induct)
  case (1 os env name d)
  then show ?case by simp
next
  case (2 os env name pid pids d)
  show ?case
  proof (cases "mg_Find pid (dmActuator d) = None")
    case False
    then show ?thesis using 2 by simp
  next
    case True
    obtain added mg where a: "AddBatchProcess (ceq_of os) (doPid os) env name pid (dmActuator d) = (added, mg)"
      by fastforce
    define d1 where "d1 = (if added then d\<lparr>dmActuator := mg\<rparr>
      else if pid \<in> set (dmProtectedLogged d) then d else d\<lparr>dmProtectedLogged := pid # dmProtectedLogged d\<rparr>)"
    have "dm_core os (d\<lparr>dmActuator := mg\<rparr>)"
      using core_add [OF "2.prems"(1), of name pid "dmAdhoc d" env] "2.prems"(2) a by simp
    then have c1: "dm_core os d1" "dmCfg d1 = dmCfg d" "dmTrigger d1 = dmTrigger d"
      using "2.prems"(1) by (auto simp: d1_def intro: dm_core_frame)
    have "fst (discover_pids os env name (pid # pids) d) = fst (discover_pids os env name pids d1)"
      using True a by (simp add: Let_def split_beta d1_def)
    moreover have "dm_core os (fst (discover_pids os env name pids d1)) \<and>
        dmCfg (fst (discover_pids os env name pids d1)) = dmCfg d1 \<and>
        dmTrigger (fst (discover_pids os env name pids d1)) = dmTrigger d1"
      using "2.IH"(2) [OF _ a [symmetric] refl refl d1_def refl] True c1 "2.prems"(2) by metis
    ultimately show ?thesis using c1 by simp
  qed
qed

lemma core_discover_names:
  "dm_core os d \<Longrightarrow> \<forall>n \<in> set names. Contains os (cfBatchProcesses (dmCfg d)) n \<Longrightarrow>
   dm_core os (fst (discover_names os env snapshot names d)) \<and>
   dmTrigger (fst (discover_names os env snapshot names d)) = dmTrigger d"
proof (induction names arbitrary: d)
  case Nil
  then show ?case by simp
next
  case (Cons n ns)
  define d1 where "d1 = fst (discover_pids os env n (FindByName (ceq_of os) snapshot n) d)"
  have "dm_core os d1" "dmCfg d1 = dmCfg d" "dmTrigger d1 = dmTrigger d"
    using core_discover_pids [of os d n env "FindByName (ceq_of os) snapshot n"] Cons.prems by (simp_all add: d1_def)
  then have "dm_core os (fst (discover_names os env snapshot ns d1))"
      "dmTrigger (fst (discover_names os env snapshot ns d1)) = dmTrigger d"
    using Cons.IH [of d1] Cons.prems(2) by simp_all
  then show ?case by (simp add: split_beta d1_def)
qed

lemma core_Discover:
  assumes "dm_core os d" and "\<forall>n. ceq_of os n n"
  shows "dm_core os (fst (DiscoverBatchProcesses os env snapshot d))"
    and "dmTrigger (fst (DiscoverBatchProcesses os env snapshot d)) = dmTrigger d"
  using core_discover_names [of os d "cfBatchProcesses (dmCfg d)" env snapshot] assms Contains_refl
  by (simp_all add: DiscoverBatchProcesses_def)

lemma core_adapt:
  assumes "dm_core os d"
  shows "dm_core os (fst (adapt_thresholds d))" and "dmTrigger (fst (adapt_thresholds d)) = dmTrigger d"
proof -
  have h: "recoverThresholdPercent (dmBase d) < throttleThresholdPercent (dmBase d)"
    using assms config_hysteresis by (auto simp: dm_core_defs)
  have "managed_for_a_reason os (d\<lparr>dmEffective := e, dmActuator := mg_SetConfig c (dmActuator d)\<rparr>)" for e c
    using assms by (fastforce simp: dm_core_def managed_for_a_reason_def mg_Find_SetConfig sm_SetConfig_def)
  then show "dm_core os (fst (adapt_thresholds d))"
    using assms ad_Adjust_effective [OF h] mg_inv_SetConfig
    unfolding adapt_thresholds_def Let_def dm_core_def thresholds_in_step_def actuator_ok_def auto_in_step_def
    by auto
  show "dmTrigger (fst (adapt_thresholds d)) = dmTrigger d" by (simp add: adapt_thresholds_def Let_def)
qed

lemma core_update_actuator:
  assumes "dm_core os d"
  shows "dm_core os (fst (update_actuator os env pressure d))"
    and "dmTrigger (fst (update_actuator os env pressure d)) = dmTrigger d"
proof -
  define mg where "mg = fst (snd (UpdateAll env pressure (dmActuator d)))"
  define d1 where "d1 = fst (on_effects os (snd (snd (UpdateAll env pressure (dmActuator d)))) (d\<lparr>dmActuator := mg\<rparr>))"
  have i: "mg_inv (ceq_of os) (doPid os) (dmActuator d)" using assms by (simp add: dm_core_defs)
  have "dm_core os (d\<lparr>dmActuator := mg\<rparr>)"
    unfolding mg_def by (intro dm_core_same assms mg_same_UpdateAll [OF i] mg_inv_UpdateAll i)
  then have c1: "dm_core os d1" by (simp add: d1_def core_effects)
  have "managed_for_a_reason os (d1\<lparr>dmTracker := t, dmAdhoc := filter (\<lambda>pid. mg_Find pid (dmActuator d1) \<noteq> None) (dmAdhoc d1)\<rparr>)" for t
    using c1 by (auto simp: dm_core_def managed_for_a_reason_def)
  then have "dm_core os (d1\<lparr>dmTracker := t, dmAdhoc := filter (\<lambda>pid. mg_Find pid (dmActuator d1) \<noteq> None) (dmAdhoc d1)\<rparr>)" for t
    using c1 unfolding dm_core_def thresholds_in_step_def actuator_ok_def auto_in_step_def by auto
  moreover have "fst (update_actuator os env pressure d) = d1\<lparr>dmTracker :=
      (if fst (UpdateAll env pressure (dmActuator d)) then tr_Reset (dmTracker d1) else dmTracker d1),
      dmAdhoc := filter (\<lambda>pid. mg_Find pid (dmActuator d1) \<noteq> None) (dmAdhoc d1)\<rparr>"
    by (simp only: update_actuator_def Let_def split_beta d1_def mg_def fst_conv)
  ultimately show "dm_core os (fst (update_actuator os env pressure d))" by simp
  show "dmTrigger (fst (update_actuator os env pressure d)) = dmTrigger d"
    by (simp add: update_actuator_def split_beta Let_def)
qed

lemma Lower_settings [simp]: "ppSettings (fst (fst (ap_Lower env row target s))) = ppSettings (fst s)"
  by (simp add: ap_Lower_def Let_def split: option.split)

lemma lower_all_settings [simp]: "ppSettings (fst (fst (lower_all env rows target cs s))) = ppSettings (fst s)"
proof (induction cs arbitrary: s)
  case Nil
  then show ?case by simp
next
  case (Cons c cs)
  have "ppSettings (fst (fst (case find (\<lambda>r. rwPid r = acPid c) rows of None \<Rightarrow> (s, [])
      | Some r \<Rightarrow> ap_Lower env r target s))) = ppSettings (fst s)" by (simp split: option.split)
  then show ?case using Cons.IH by (simp add: split_beta)
qed

lemma RestoreAll_settings [simp]: "ppSettings (fst (fst (RestoreAll env reason s))) = ppSettings (fst s)"
  by (simp add: RestoreAll_def split_beta)

lemma tick_elevated_settings: "ppSettings (fst (fst (tick_elevated ceq env ex level s))) = ppSettings (fst s)"
  by (simp add: tick_elevated_def select_and_lower_def split_beta Let_def)

lemma tick_normal_settings: "ppSettings (fst (fst (tick_normal ceq env cpu s))) = ppSettings (fst s)"
  by (simp add: tick_normal_def split_beta Let_def)

lemma Tick_settings: "ppSettings (fst (fst (Tick ceq env ex s))) = ppSettings (fst s)"
  by (simp add: Tick_def split_beta Let_def tick_elevated_settings tick_normal_settings)

lemma core_tick:
  assumes "dm_core os d"
  shows "dm_core os (fst (tick_protector os env d))" and "dmTrigger (fst (tick_protector os env d)) = dmTrigger d"
proof -
  have "ap_inv (fst (Tick (ceq_of os) env (auto_exclude os d) (dmAuto d, dmClasses d)))"
    using assms Tick_spec(2) [OF surjective_pairing, of "(dmAuto d, dmClasses d)" "ceq_of os" env "auto_exclude os d"]
    by (simp add: dm_core_defs)
  then show "dm_core os (fst (tick_protector os env d))"
    unfolding tick_protector_def by (intro dm_core_auto assms) (simp_all add: Tick_settings)
  show "dmTrigger (fst (tick_protector os env d)) = dmTrigger d" by (simp add: tick_protector_def)
qed

lemma core_act:
  assumes "dm_core os d"
  shows "dm_core os (fst (act_on_pressure os env ps d))" and "dmTrigger (fst (act_on_pressure os env ps d)) = dmTrigger d"
proof -
  obtain p sig pid where ps: "ps = (p, sig, pid)" by (metis prod_cases3)
  define d0 where "d0 = d\<lparr>dmPressure := p, dmSignal := sig, dmCriticalPid := pid, dmAdaptive := ad_AddSample p (dmAdaptive d)\<rparr>"
  define d1 where "d1 = fst (adapt_thresholds d0)"
  define d2 where "d2 = fst (report_streaks p pid d1)"
  define d3 where "d3 = fst (update_actuator os (pvUpdate env) p d2)"
  define d4 where "d4 = fst (tick_protector os (pvAuto env) d3)"
  define d5 where "d5 = fst (log_self_when_due env d4)"
  have e: "fst (act_on_pressure os env ps d) = d5"
    by (simp add: act_on_pressure_def ps split_beta Let_def d0_def d1_def d2_def d3_def d4_def d5_def)
  have "dm_core os d0" using assms by (auto simp: d0_def intro: dm_core_frame)
  then have "dm_core os d1" by (simp add: d1_def core_adapt)
  then have "dm_core os d2" by (auto simp: d2_def report_streaks_def split_beta intro: dm_core_frame)
  then have "dm_core os d3" by (simp add: d3_def core_update_actuator)
  then have "dm_core os d4" by (simp add: d4_def core_tick)
  then show "dm_core os (fst (act_on_pressure os env ps d))" unfolding e d5_def
    by (auto simp: log_self_when_due_def LogSelf_def split_beta intro: dm_core_frame)
  have "dmTrigger d5 = dmTrigger d4" by (simp add: d5_def log_self_when_due_def LogSelf_def split_beta)
  also have "\<dots> = dmTrigger d3" using \<open>dm_core os d3\<close> by (simp add: d4_def core_tick)
  also have "\<dots> = dmTrigger d2" using \<open>dm_core os d2\<close> by (simp add: d3_def core_update_actuator)
  also have "\<dots> = dmTrigger d1" by (simp add: d2_def report_streaks_def split_beta)
  also have "\<dots> = dmTrigger d" using core_adapt(2) [OF \<open>dm_core os d0\<close>] by (simp add: d1_def d0_def)
  finally show "dmTrigger (fst (act_on_pressure os env ps d)) = dmTrigger d" using e by simp
qed

lemma core_Poll:
  assumes "dm_core os d" and "\<forall>n. ceq_of os n n"
  shows "dm_core os (fst (Poll os env d))" and "dmTrigger (fst (Poll os env d)) = dmTrigger d"
proof -
  obtain snapshot impostors ids where f: "if_Filter (ceq_of os) (pvIdentity env) (pvSnapshot env) (dmIdentity d) =
      (snapshot, impostors, ids)" by (metis prod_cases3)
  obtain crit samples events hs where c: "poll_critical (ceq_of os) (pvMonitor env) snapshot (dmCritical d) =
      (crit, samples, events, hs)" by (metis prod_cases4)
  define d0 where "d0 = d\<lparr>dmIdentity := ids, dmCritical := crit, dmLastSamples := samples\<rparr>"
  define d1 where "d1 = fst (DiscoverBatchProcesses os (pvAdd env) snapshot d0)"
  define comb where "comb = combine (dmCfg d)
    (if cfMemoryTriggerEnabled (dmCfg d) then SystemMemoryLoadPercent (pvMemory env) else 0) samples"
  have "fst (Poll os env d) = (if samples \<noteq> [] \<and> \<not> fst comb then d1 else fst (act_on_pressure os env (snd comb) d1))"
    by (simp only: Poll_def f c split_beta Let_def d0_def d1_def comb_def fst_conv snd_conv if_distrib [of fst])
  moreover have "dm_core os d0" using assms(1) by (auto simp: d0_def intro: dm_core_frame)
  then have "dm_core os d1" "dmTrigger d1 = dmTrigger d"
    using core_Discover [OF _ assms(2)] by (simp_all add: d1_def d0_def)
  ultimately show "dm_core os (fst (Poll os env d))" "dmTrigger (fst (Poll os env d)) = dmTrigger d"
    using core_act [OF \<open>dm_core os d1\<close>] by (simp_all split: if_splits)
qed

section \<open>A new configuration\<close>

lemma ap_inv_Exempt: "ap_inv s \<Longrightarrow> ap_inv (fst (snd (Exempt env pid name s)))"
  by (rule Exempt_spec(2))

lemma Exempt_settings [simp]: "ppSettings (fst (fst (snd (Exempt env pid name s)))) = ppSettings (fst s)"
  by (simp add: Exempt_def Restore_def split_beta Let_def split: option.split)

lemma exempt_entries_inv:
  "ap_inv s \<Longrightarrow> ap_inv (fst (exempt_entries env sel pid es s)) \<and>
   ppSettings (fst (fst (exempt_entries env sel pid es s))) = ppSettings (fst s)"
proof (induction es arbitrary: s)
  case Nil
  then show ?case by simp
next
  case (Cons e es)
  show ?case
    using Cons.IH [OF Cons.prems] Cons.IH [OF ap_inv_Exempt [OF Cons.prems, of env pid "peName e"]]
    by (simp add: split_beta)
qed

lemma exempt_pids_inv:
  "ap_inv s \<Longrightarrow> ap_inv (fst (exempt_pids env sel snap pids s)) \<and>
   ppSettings (fst (fst (exempt_pids env sel snap pids s))) = ppSettings (fst s)"
proof (induction pids arbitrary: s)
  case Nil
  then show ?case by simp
next
  case (Cons p ps)
  show ?case
    using Cons.IH [of "fst (exempt_entries env sel p (snap p) s)"] exempt_entries_inv [OF Cons.prems, of env sel p "snap p"]
    by (simp add: split_beta)
qed

lemma exempt_matching_inv:
  "ap_inv s \<Longrightarrow> ap_inv (fst (exempt_matching env es s)) \<and>
   ppSettings (fst (fst (exempt_matching env es s))) = ppSettings (fst s)"
proof (induction es arbitrary: s)
  case Nil
  then show ?case by simp
next
  case (Cons e es)
  show ?case using Cons.IH [OF ap_inv_Exempt [OF Cons.prems, of env "pePid e" "peName e"]] by (simp add: split_beta)
qed

lemma Configure_settings: "ppSettings (fst (fst (ap_Configure env se ess s))) = se"
  by (simp add: ap_Configure_def split_beta Let_def)

text \<open>What holds from the new thresholds on, until the dropped processes are gone.\<close>

definition dm_half :: "daemon_os \<Rightarrow> daemon \<Rightarrow> bool" where
  "dm_half os d \<longleftrightarrow> config_ok (doConf os) (dmCfg d) \<and> thresholds_in_step d \<and> actuator_ok os d \<and>
     ap_inv (dmAuto d, dmClasses d)"

lemma half_thresholds:
  assumes "config_ok (doConf os) cfg" and "dmCfg d = cfg" and "mg_inv (ceq_of os) (doPid os) (dmActuator d)"
    and "mgCallback (dmActuator d)" and "ap_inv (dmAuto d, dmClasses d)"
  shows "dm_half os (fst (apply_thresholds os env cfg d))"
  using assms ad_Adjust_effective [OF config_hysteresis [OF assms(1)]]
  by (auto simp: apply_thresholds_def dm_half_def thresholds_in_step_def actuator_ok_def Let_def split_beta
      intro: mg_inv_SetProtected mg_inv_SetConfig)

lemma drop_one_frame [simp]:
  "dmActuator (fst (drop_one os env pid d)) = RemoveBatchProcess pid (dmActuator d)"
  "dmAdhoc (fst (drop_one os env pid d)) = dmAdhoc d" "dmCfg (fst (drop_one os env pid d)) = dmCfg d"
  "dmBase (fst (drop_one os env pid d)) = dmBase d" "dmEffective (fst (drop_one os env pid d)) = dmEffective d"
  "dmAuto (fst (drop_one os env pid d)) = dmAuto d" "dmClasses (fst (drop_one os env pid d)) = dmClasses d"
  "dmTrigger (fst (drop_one os env pid d)) = ''automatic''"
  by (simp_all add: drop_one_def Let_def split_beta)

lemma drop_all_frame [simp]:
  "dmAdhoc (fst (drop_all os env pids d)) = dmAdhoc d" "dmCfg (fst (drop_all os env pids d)) = dmCfg d"
  "dmBase (fst (drop_all os env pids d)) = dmBase d" "dmEffective (fst (drop_all os env pids d)) = dmEffective d"
  "dmAuto (fst (drop_all os env pids d)) = dmAuto d" "dmClasses (fst (drop_all os env pids d)) = dmClasses d"
  "dmTrigger (fst (drop_all os env pids d)) = (if pids = [] then dmTrigger d else ''automatic'')"
  "mgConfig (dmActuator (fst (drop_all os env pids d))) = mgConfig (dmActuator d)"
  "mgProtected (dmActuator (fst (drop_all os env pids d))) = mgProtected (dmActuator d)"
  "mgCallback (dmActuator (fst (drop_all os env pids d))) = mgCallback (dmActuator d)"
  by (induction pids arbitrary: d) (simp_all add: split_beta)

lemma drop_all_Find:
  "mg_Find pid (dmActuator (fst (drop_all os env pids d))) = (if pid \<in> set pids then None else mg_Find pid (dmActuator d))"
  by (induction pids arbitrary: d) (simp_all add: split_beta)

lemma drop_all_inv:
  "mg_inv ceq self (dmActuator d) \<Longrightarrow> mg_inv ceq self (dmActuator (fst (drop_all os env pids d)))"
  by (induction pids arbitrary: d) (simp_all add: split_beta mg_inv_Remove)

lemma half_drop:
  assumes "dm_half os d"
  shows "dm_half os (fst (drop_all os env (dropped_pids os (dmCfg d) d) d))"
    and "managed_for_a_reason os (fst (drop_all os env (dropped_pids os (dmCfg d) d) d))"
proof -
  have i: "mg_inv (ceq_of os) (doPid os) (dmActuator d)" using assms by (simp add: dm_half_def actuator_ok_def)
  show "dm_half os (fst (drop_all os env (dropped_pids os (dmCfg d) d) d))"
    using assms unfolding dm_half_def thresholds_in_step_def actuator_ok_def by (auto intro: drop_all_inv)
  have "pid \<in> set (dropped_pids os (dmCfg d) d)"
    if "mg_Find pid (dmActuator d) = Some m" "\<not> Contains os (cfBatchProcesses (dmCfg d)) (smName m)"
      "pid \<notin> set (dmAdhoc d)" for pid m
  proof -
    have "smPid m = pid" using mg_invD [OF i that(1)] by (simp add: entry_ok_def)
    moreover have "(pid, m) \<in> set (mgMachines (dmActuator d))"
      using that(1) by (auto simp: mg_Find_def dest: map_of_SomeD)
    ultimately show ?thesis using that(2,3) by (force simp: dropped_pids_def)
  qed
  then show "managed_for_a_reason os (fst (drop_all os env (dropped_pids os (dmCfg d) d) d))"
    by (auto simp: managed_for_a_reason_def drop_all_Find)
qed

lemma restart_frame [simp]:
  "dmActuator (fst (restart_coordination cfg d)) = dmActuator d" "dmAdhoc (fst (restart_coordination cfg d)) = dmAdhoc d"
  "dmCfg (fst (restart_coordination cfg d)) = dmCfg d" "dmAuto (fst (restart_coordination cfg d)) = dmAuto d"
  "dmClasses (fst (restart_coordination cfg d)) = dmClasses d" "dmBase (fst (restart_coordination cfg d)) = dmBase d"
  "dmEffective (fst (restart_coordination cfg d)) = dmEffective d" "dmTrigger (fst (restart_coordination cfg d)) = dmTrigger d"
  by (simp_all add: restart_coordination_def)

lemma half_telemetry: "dm_half os d \<Longrightarrow> dm_half os (fst (apply_telemetry os cfg d))"
  by (auto simp: apply_telemetry_def split_beta dm_half_def thresholds_in_step_def actuator_ok_def)

lemma core_protector:
  assumes "dm_half os d" and "managed_for_a_reason os d"
  shows "dm_core os (fst (apply_protector os env (dmCfg d) d))"
    and "dmTrigger (fst (apply_protector os env (dmCfg d) d)) = dmTrigger d"
proof -
  define s1 where "s1 = fst (ap_Configure (avConfigure env) (ToAutoSettings (dmCfg d)) kAlwaysProtected (dmAuto d, dmClasses d))"
  define s2 where "s2 = fst (exempt_pids (avExempt env) (configured_name os (dmCfg d)) (avSnapshot env)
    (map fst (ap_States (fst s1))) s1)"
  have "ap_inv s1" using assms(1) Configure_spec(2) by (simp add: s1_def dm_half_def)
  then have i: "ap_inv s2" and st: "ppSettings (fst s2) = ToAutoSettings (dmCfg d)"
    using exempt_pids_inv [of s1] by (simp_all add: s2_def) (simp add: s1_def Configure_settings)
  have "\<exists>eff. fst (apply_protector os env (dmCfg d) d) = fst (with_auto os (s2, eff) d)"
    by (simp add: apply_protector_def split_beta Let_def s1_def s2_def, blast)
  then obtain eff where e: "fst (apply_protector os env (dmCfg d) d) = fst (with_auto os (s2, eff) d)" by blast
  show "dm_core os (fst (apply_protector os env (dmCfg d) d))"
    unfolding e using assms i st
    by (auto simp: dm_half_def dm_core_def thresholds_in_step_def actuator_ok_def managed_for_a_reason_def auto_in_step_def)
  show "dmTrigger (fst (apply_protector os env (dmCfg d) d)) = dmTrigger d" by (simp add: e)
qed

lemma core_ApplyConfig:
  assumes "config_ok (doConf os) cfg" and "mg_inv (ceq_of os) (doPid os) (dmActuator d)"
    and "mgCallback (dmActuator d)" and "ap_inv (dmAuto d, dmClasses d)" and "dmTrigger d = ''automatic''"
  shows "dm_inv os (fst (ApplyConfig os env cfg initial d))"
    and "dmCfg (fst (ApplyConfig os env cfg initial d)) = cfg"
proof -
  define d0 where "d0 = d\<lparr>dmDashboardDirty := (dashboard_changed initial cfg (dmCfg d) \<or> dmDashboardDirty d), dmCfg := cfg,
    dmLogger := (log_changed initial cfg (dmCfg d) \<or> dmLogger d)\<rparr>"
  define d1 where "d1 = fst (apply_thresholds os env cfg d0)"
  define d2 where "d2 = fst (apply_telemetry os cfg d1)"
  define d3 where "d3 = fst (drop_all os (avDrop env) (dropped_pids os cfg d2) d2)"
  define d4 where "d4 = d3\<lparr>dmAlerter := al_Configure (cfAlertPopup cfg) (cfAlertWebhookUrl cfg) (dmAlerter d3)\<rparr>"
  define d5 where "d5 = fst (apply_protector os env cfg d4)"
  define d6 where "d6 = (if coord_changed initial cfg (dmCfg d) then fst (restart_coordination cfg d5) else d5)"
  have e: "fst (ApplyConfig os env cfg initial d) = d6"
    by (simp only: ApplyConfig_def Let_def split_beta d0_def d1_def d2_def d3_def d4_def d5_def d6_def
        fst_conv snd_conv if_distrib [of fst])
  have h1: "dm_half os d1" unfolding d1_def using assms by (intro half_thresholds) (simp_all add: d0_def)
  have c1: "dmCfg d1 = cfg" "dmTrigger d1 = ''automatic''"
    using assms(5) by (simp_all add: d1_def apply_thresholds_def split_beta Let_def d0_def)
  have c2: "dmCfg d2 = cfg" "dmTrigger d2 = ''automatic''" using c1 by (simp_all add: d2_def apply_telemetry_def split_beta)
  have h2: "dm_half os d2" unfolding d2_def by (rule half_telemetry [OF h1])
  have h3: "dm_half os d3" "managed_for_a_reason os d3"
    using half_drop [OF h2, of "avDrop env"] by (simp_all add: d3_def c2)
  have c4: "dmCfg d4 = cfg" "dmTrigger d4 = ''automatic''" using c2 by (simp_all add: d4_def d3_def)
  have h4: "dm_half os d4" "managed_for_a_reason os d4"
    using h3 by (auto simp: d4_def dm_half_def thresholds_in_step_def actuator_ok_def managed_for_a_reason_def)
  have h5: "dm_core os d5" "dmTrigger d5 = ''automatic''"
    using core_protector [OF h4, of env] by (simp_all add: d5_def c4)
  have c5: "dmCfg d5 = cfg" using c4 by (simp add: d5_def apply_protector_def split_beta Let_def)
  show "dm_inv os (fst (ApplyConfig os env cfg initial d))"
    unfolding e using h5 by (auto simp: d6_def dm_inv_def intro: dm_core_frame)
  show "dmCfg (fst (ApplyConfig os env cfg initial d)) = cfg" unfolding e by (simp add: d6_def c5)
qed

lemma LoadAndVerify_ok: "LoadAndVerify os files acl d = (Inr cfg, out) \<Longrightarrow> config_ok (doConf os) cfg"
  using ParseConfig_ok by (auto simp: LoadAndVerify_def LoadConfigFile_def split: sum.splits option.splits if_splits)

lemma inv_Reload:
  assumes "dm_inv os d"
  shows "dm_inv os (fst (CheckConfigReload os env d))"
proof (cases "rvAttr env")
  case None
  then show ?thesis using assms by (simp add: CheckConfigReload_def)
next
  case (Some a)
  obtain w h l where a: "a = (w, h, l)" by (metis prod_cases3)
  define d1 where "d1 = d\<lparr>dmConfigWriteTime := w, dmConfigSize := file_size_of h l\<rparr>"
  have c1: "dm_inv os d1" using assms by (auto simp: dm_inv_def d1_def intro: dm_core_frame)
  obtain loaded out1 where ld: "LoadAndVerify os (rvFiles env) (rvAcl env) d1 = (loaded, out1)" by fastforce
  have cases: "fst (CheckConfigReload os env d) = d \<or> fst (CheckConfigReload os env d) = d1 \<or>
      (\<exists>cfg. loaded = Inr cfg \<and> fst (CheckConfigReload os env d) = fst (ApplyConfig os (rvApply env) cfg False d1))"
    using ld by (cases loaded) (simp_all add: CheckConfigReload_def Some a split_beta Let_def flip: d1_def)
  have "dm_inv os (fst (ApplyConfig os (rvApply env) cfg False d1))" if "loaded = Inr cfg" for cfg
  proof (rule core_ApplyConfig(1))
    show "config_ok (doConf os) cfg" using LoadAndVerify_ok ld that by blast
  qed (use c1 in \<open>auto simp: dm_inv_def dm_core_defs\<close>)
  then show ?thesis using cases assms c1 by auto
qed

section \<open>Commands\<close>

lemma force_frame [simp]:
  "dmCfg (fst (force_process os env pid st d)) = dmCfg d" "dmTrigger (fst (force_process os env pid st d)) = dmTrigger d"
  "dmAdhoc (fst (force_process os env pid st d)) = dmAdhoc d"
  "dmActuator (fst (force_process os env pid st d)) =
     fst (snd (mg_ForceState env pid st (dmPressure d) True (dmActuator d)))"
  by (simp_all add: force_process_def split_beta)

lemma core_force:
  assumes "dm_core os d"
  shows "dm_core os (fst (force_process os env pid st d))"
proof -
  have "mg_inv (ceq_of os) (doPid os) (dmActuator d)" using assms by (simp add: dm_core_def actuator_ok_def)
  then have "dm_core os (d\<lparr>dmActuator := fst (snd (mg_ForceState env pid st (dmPressure d) True (dmActuator d)))\<rparr>)"
    by (intro dm_core_same assms mg_same_ForceState mg_inv_ForceState)
  then show ?thesis by (simp add: force_process_def split_beta core_effects)
qed

lemma hold_cases:
  obtains "fst (snd (hold_process os env e st said d)) = fst (force_process os env (pePid e) st d)"
  | "fst (snd (hold_process os env e st said d)) = d"
  | "mg_Find (pePid e) (dmActuator d) = None"
    "fst (snd (hold_process os env e st said d)) = fst (force_process os env (pePid e) st
       (d\<lparr>dmActuator := snd (AddBatchProcess (ceq_of os) (doPid os) env (peName e) (pePid e) (dmActuator d)),
          dmAdhoc := List.insert (pePid e) (dmAdhoc d)\<rparr>))"
  by (cases "mg_Find (pePid e) (dmActuator d) = None";
      cases "fst (AddBatchProcess (ceq_of os) (doPid os) env (peName e) (pePid e) (dmActuator d))")
    (simp_all add: hold_process_def split_beta Let_def)

lemma release_cases:
  obtains "fst (snd (release_process pid d)) = d\<lparr>dmActuator := snd (mg_ReleaseManualHold pid (dmActuator d))\<rparr>"
  | "fst (snd (release_process pid d)) = d\<lparr>dmActuator := RemoveBatchProcess pid (snd (mg_ReleaseManualHold pid (dmActuator d))),
       dmAdhoc := removeAll pid (dmAdhoc d)\<rparr>"
proof (cases "pid \<in> set (dmAdhoc d) \<and>
    map_option smState (mg_Find pid (snd (mg_ReleaseManualHold pid (dmActuator d)))) = Some StNormal")
  case True
  then have "fst (snd (release_process pid d)) =
      d\<lparr>dmActuator := snd (mg_ReleaseManualHold pid (dmActuator d)),
        dmActuator := RemoveBatchProcess pid (snd (mg_ReleaseManualHold pid (dmActuator d))),
        dmAdhoc := removeAll pid (dmAdhoc d)\<rparr>"
    by (simp only: release_process_def Let_def if_True simp_thms fst_conv snd_conv)
  then show ?thesis using that(2) by simp
next
  case False
  then have "fst (snd (release_process pid d)) = d\<lparr>dmActuator := snd (mg_ReleaseManualHold pid (dmActuator d))\<rparr>"
    by (simp only: release_process_def Let_def if_False simp_thms fst_conv snd_conv)
  then show ?thesis by (rule that(1))
qed

lemma core_hold: "dm_core os d \<Longrightarrow> dm_core os (fst (snd (hold_process os env e st said d)))"
  by (rule hold_cases [of os env e st said d])
    (auto intro!: core_force core_add [where adhoc = "List.insert (pePid e) (dmAdhoc d)"])

lemma core_release:
  assumes "dm_core os d"
  shows "dm_core os (fst (snd (release_process pid d)))"
proof (rule release_cases [of pid d])
  let ?mg = "snd (mg_ReleaseManualHold pid (dmActuator d))"
  have i: "mg_inv (ceq_of os) (doPid os) (dmActuator d)" using assms by (simp add: dm_core_defs)
  have c: "dm_core os (d\<lparr>dmActuator := ?mg\<rparr>)"
    by (intro dm_core_same assms mg_same_Release mg_inv_Release i)
  show ?thesis if "fst (snd (release_process pid d)) = d\<lparr>dmActuator := ?mg\<rparr>" using that c by simp
  have "dm_core os (d\<lparr>dmActuator := RemoveBatchProcess pid ?mg, dmAdhoc := removeAll pid (dmAdhoc d)\<rparr>)"
    using c by (auto simp: dm_core_defs intro: mg_inv_Remove)
  then show ?thesis if "fst (snd (release_process pid d)) =
      d\<lparr>dmActuator := RemoveBatchProcess pid ?mg, dmAdhoc := removeAll pid (dmAdhoc d)\<rparr>" using that by simp
qed

lemma override_one_frame [simp]:
  "dmCfg (fst (snd (override_one os env v e d))) = dmCfg d"
  "dmTrigger (fst (snd (override_one os env v e d))) = dmTrigger d"
proof -
  have h: "dmCfg (fst (snd (hold_process os env e st said d))) = dmCfg d \<and>
      dmTrigger (fst (snd (hold_process os env e st said d))) = dmTrigger d" for st said
    by (rule hold_cases [of os env e st said d]) simp_all
  have r: "dmCfg (fst (snd (release_process (pePid e) d))) = dmCfg d \<and>
      dmTrigger (fst (snd (release_process (pePid e) d))) = dmTrigger d"
    by (rule release_cases [of "pePid e" d]) simp_all
  show "dmCfg (fst (snd (override_one os env v e d))) = dmCfg d"
    "dmTrigger (fst (snd (override_one os env v e d))) = dmTrigger d"
    by (cases v; simp add: override_one_def Let_def h r)+
qed

lemma core_override_one: "dm_core os d \<Longrightarrow> dm_core os (fst (snd (override_one os env v e d)))"
  by (cases v; simp add: override_one_def Let_def core_hold core_release core_force)

lemma core_override_all:
  "dm_core os d \<Longrightarrow> dm_core os (fst (snd (override_all os env said v es d))) \<and>
   dmCfg (fst (snd (override_all os env said v es d))) = dmCfg d"
proof (induction es arbitrary: d)
  case Nil
  then show ?case by simp
next
  case (Cons e es)
  show ?case using Cons.IH [OF core_override_one [OF Cons.prems, of env v e]] by (simp add: split_beta)
qed

text \<open>What a command may do to the daemon.\<close>

lemma command_cases:
  obtains "fst (snd (HandleCommand os env line d)) = d"
  | es where "fst (snd (HandleCommand os env line d)) =
      fst (with_auto os (exempt_matching (caAuto env) es (dmAuto d, dmClasses d)) d)"
  | said v es where "set es \<subseteq> set (caSnapshot env)"
    "fst (snd (HandleCommand os env line d)) =
      (fst (snd (override_all os (caOs env) said v es (d\<lparr>dmTrigger := ''manual''\<rparr>))))\<lparr>dmTrigger := ''automatic''\<rparr>"
proof -
  define verb where "verb = map ascii_lower (fst (next_word line))"
  define target where "target = fst (next_word (snd (next_word line)))"
  have h: "HandleCommand os env line d = (if verb = ''status'' then (Some (StatusJson os d), d, [])
      else if verb = ''stop'' then stop_command os d
      else if verb = ''exempt'' then exempt_command os env target d
      else (case override_of verb of
          None \<Rightarrow> (Some (reply_text os False (unknown_command verb)), d, [])
        | Some v \<Rightarrow> override_command os env verb v target d))"
    by (simp only: HandleCommand_def Let_def split_beta verb_def target_def)
  have st: "fst (snd (stop_command os d)) = d" by (simp add: stop_command_def)
  have ex: "fst (snd (exempt_command os env target d)) = d \<or>
      (\<exists>es. fst (snd (exempt_command os env target d)) =
         fst (with_auto os (exempt_matching (caAuto env) es (dmAuto d, dmClasses d)) d))"
    by (simp add: exempt_command_def Let_def split_beta) blast
  have sub: "set es \<subseteq> set (caSnapshot env)" if "command_targets os (caSnapshot env) target = Some es" for es
    using that by (auto simp: command_targets_def split: if_splits)
  have ov: "fst (snd (override_command os env verb v target d)) = d \<or>
      (\<exists>es. set es \<subseteq> set (caSnapshot env) \<and> fst (snd (override_command os env verb v target d)) =
      (fst (snd (override_all os (caOs env) verb v es (d\<lparr>dmTrigger := ''manual''\<rparr>))))\<lparr>dmTrigger := ''automatic''\<rparr>)" for v
  proof (cases "command_targets os (caSnapshot env) target")
    case None
    then show ?thesis by (simp add: override_command_def)
  next
    case (Some es)
    show ?thesis
    proof (cases "target = [] \<or> es = []")
      case True
      then show ?thesis using Some by (auto simp: override_command_def)
    next
      case False
      then have "fst (snd (override_command os env verb v target d)) =
          (fst (snd (override_all os (caOs env) verb v es (d\<lparr>dmTrigger := ''manual''\<rparr>))))\<lparr>dmTrigger := ''automatic''\<rparr>"
        using Some by (cases es) (simp_all add: override_command_def split_beta Let_def del: override_all.simps)
      then show ?thesis using sub [OF Some] by blast
    qed
  qed
  have shape: "fst (snd (if a then (x, d, []) else if b then stop_command os d else if c then exempt_command os env target d
        else (case o' of None \<Rightarrow> (y, d, []) | Some v \<Rightarrow> override_command os env verb v target d))) = d \<or>
      fst (snd (if a then (x, d, []) else if b then stop_command os d else if c then exempt_command os env target d
        else (case o' of None \<Rightarrow> (y, d, []) | Some v \<Rightarrow> override_command os env verb v target d))) =
        fst (snd (exempt_command os env target d)) \<or>
      (\<exists>v. fst (snd (if a then (x, d, []) else if b then stop_command os d else if c then exempt_command os env target d
        else (case o' of None \<Rightarrow> (y, d, []) | Some v \<Rightarrow> override_command os env verb v target d))) =
        fst (snd (override_command os env verb v target d)))" for a b c x y o'
    using st by (cases o') auto
  consider "fst (snd (HandleCommand os env line d)) = d"
    | "fst (snd (HandleCommand os env line d)) = fst (snd (exempt_command os env target d))"
    | v where "fst (snd (HandleCommand os env line d)) = fst (snd (override_command os env verb v target d))"
    using shape unfolding h by blast
  then show ?thesis using that ex ov by cases metis+
qed

lemma inv_HandleCommand:
  assumes "dm_inv os d"
  shows "dm_inv os (fst (snd (HandleCommand os env line d)))"
proof (rule command_cases [of os env line d])
  show ?thesis if "fst (snd (HandleCommand os env line d)) = d" using that assms by simp
next
  fix es
  assume e: "fst (snd (HandleCommand os env line d)) = fst (with_auto os (exempt_matching (caAuto env) es (dmAuto d, dmClasses d)) d)"
  have "dm_core os (fst (with_auto os (exempt_matching (caAuto env) es (dmAuto d, dmClasses d)) d))"
    using assms exempt_matching_inv [of "(dmAuto d, dmClasses d)" "caAuto env" es]
    by (intro dm_core_auto) (auto simp: dm_inv_def dm_core_def auto_in_step_def)
  then show ?thesis using assms by (simp add: e dm_inv_def)
next
  fix said v es
  let ?d1 = "fst (snd (override_all os (caOs env) said v es (d\<lparr>dmTrigger := ''manual''\<rparr>)))"
  assume e: "fst (snd (HandleCommand os env line d)) = ?d1\<lparr>dmTrigger := ''automatic''\<rparr>"
  have "dm_core os (d\<lparr>dmTrigger := ''manual''\<rparr>)" using assms by (auto simp: dm_inv_def intro: dm_core_frame)
  then have "dm_core os ?d1" using core_override_all by blast
  then show ?thesis by (auto simp: e dm_inv_def intro: dm_core_frame)
qed

lemma inv_SetRole:
  assumes "dm_inv os d"
  shows "dm_inv os (fst (snd (SetRole os env name role c d)))"
  using assms inv_Reload [OF assms, of "roReload env"]
  by (simp add: SetRole_def Let_def split_beta split: option.split sum.split role_exn.split)

lemma inv_UpdateDashboard: "dm_inv os d \<Longrightarrow> dm_inv os (fst (UpdateDashboard start d))"
  by (auto simp: UpdateDashboard_def Let_def dm_inv_def split: sum.split intro: dm_core_frame)

lemma inv_DashboardStatus: "dm_inv os d \<Longrightarrow> dm_inv os (fst (DashboardStatus os env d))"
  by (auto simp: DashboardStatus_def system_fields_def Let_def split_beta dm_inv_def split: option.split
      intro: dm_core_frame)

lemma inv_Poll: "dm_inv os d \<Longrightarrow> \<forall>n. ceq_of os n n \<Longrightarrow> dm_inv os (fst (Poll os env d))"
  by (simp add: dm_inv_def core_Poll)

lemma inv_Initialize:
  assumes "Initialize os env tick (new_daemon path cores born aenv classes) = (Inr d, out)"
  shows "dm_inv os d"
proof -
  let ?n = "new_daemon path cores born aenv classes"
  obtain loaded out1 where ld: "LoadAndVerify os (rvFiles env) (rvAcl env) ?n = (loaded, out1)" by fastforce
  with assms obtain cfg where l: "loaded = Inr cfg" by (cases loaded) (simp_all add: Initialize_def)
  define d1 where "d1 = (case rvAttr env of None \<Rightarrow> ?n
    | Some (written, high, low) \<Rightarrow> ?n\<lparr>dmConfigWriteTime := written, dmConfigSize := file_size_of high low\<rparr>)"
  define d2 where "d2 = fst (ApplyConfig os (rvApply env) cfg True d1)"
  have d: "d = d2\<lparr>dmStartedTick := tick, dmLastSelfLog := tick\<rparr>"
    using assms ld l by (auto simp: Initialize_def Let_def split_beta d2_def d1_def)
  have n: "dmActuator d1 = new_manager default_sm_config True" "dmAuto d1 = new_protector aenv"
      "dmTrigger d1 = ''automatic''"
    by (auto simp: d1_def new_daemon_def split: option.split prod.split)
  have "dm_inv os d2" unfolding d2_def
  proof (rule core_ApplyConfig(1))
    show "config_ok (doConf os) cfg" using LoadAndVerify_ok ld l by blast
    show "mg_inv (ceq_of os) (doPid os) (dmActuator d1)" unfolding n by (rule mg_inv_new)
    show "mgCallback (dmActuator d1)" by (simp add: n new_manager_def)
    show "ap_inv (dmAuto d1, dmClasses d1)" by (simp add: n new_protector_def ap_inv_def okeys_def)
    show "dmTrigger d1 = ''automatic''" by (rule n)
  qed
  then show ?thesis by (auto simp: d dm_inv_def intro: dm_core_frame)
qed

end
