(* ===== verification/Daemon_Properties.thy ===== *)
theory Daemon_Properties
  imports Daemon_Invariant Config_Properties
begin

text \<open>
  The properties of the whole daemon: what holds in every reachable state, what commands may not
  touch, and what becomes of a suspended process that is made critical.
\<close>

section \<open>Reachable daemons\<close>

text \<open>
  Any operation may come next, with any answers of Windows; \<open>session\<close> is the coordination thread
  changing its own client.
\<close>

inductive dm_reach :: "daemon_os \<Rightarrow> daemon \<Rightarrow> bool" for os where
  started: "Initialize os env tick (new_daemon path cores born aenv classes) = (Inr d, out) \<Longrightarrow> dm_reach os d"
| poll: "dm_reach os d \<Longrightarrow> dm_reach os (fst (Poll os penv d))"
| reload: "dm_reach os d \<Longrightarrow> dm_reach os (fst (CheckConfigReload os renv d))"
| command: "dm_reach os d \<Longrightarrow> dm_reach os (fst (snd (HandleCommand os cenv line d)))"
| role: "dm_reach os d \<Longrightarrow> dm_reach os (fst (snd (SetRole os oenv name r c d)))"
| dashboard: "dm_reach os d \<Longrightarrow> dm_reach os (fst (UpdateDashboard start d))"
| status: "dm_reach os d \<Longrightarrow> dm_reach os (fst (DashboardStatus os senv d))"
| session: "dm_reach os d \<Longrightarrow> dm_reach os (d\<lparr>dmCoordination := cl\<rparr>)"

lemma dm_reach_inv:
  assumes "\<forall>n. ceq_of os n n" and "dm_reach os d"
  shows "dm_inv os d"
  using assms(2)
proof (induction rule: dm_reach.induct)
  case (started env tick path cores aenv classes d out)
  then show ?case by (rule inv_Initialize)
next
  case (session d cl)
  then show ?case by (auto simp: dm_inv_def intro: dm_core_frame)
qed (simp_all add: assms(1) inv_Poll inv_Reload inv_HandleCommand inv_SetRole inv_UpdateDashboard inv_DashboardStatus)

lemma not_protected:
  "\<not> IsProtected ceq self mg name pid \<longleftrightarrow> pid \<noteq> self \<and> (\<forall>n \<in> set kAlwaysProtected \<union> set (mgProtected mg). \<not> ceq name n)"
  by (auto simp: IsProtected_def)

lemma managed_facts:
  assumes "dm_core os d" and "mg_Find pid (dmActuator d) = Some m"
  shows "smPid m = pid" and "smConfig m = dmEffective d" and "pid \<noteq> doPid os"
    and "\<forall>n \<in> set kAlwaysProtected \<union> set (cfProtectedProcesses (dmCfg d)). \<not> ceq_of os (smName m) n"
    and "Contains os (cfBatchProcesses (dmCfg d)) (smName m) \<or> pid \<in> set (dmAdhoc d)"
proof -
  have i: "mg_inv (ceq_of os) (doPid os) (dmActuator d)" and c: "mgConfig (dmActuator d) = dmEffective d"
    and p: "mgProtected (dmActuator d) = cfProtectedProcesses (dmCfg d)"
    using assms(1) by (simp_all add: dm_core_defs)
  note e = mg_invD [OF i assms(2)]
  have np: "\<not> IsProtected (ceq_of os) (doPid os) (dmActuator d) (smName m) pid" using e by (simp add: entry_ok_def)
  show "smPid m = pid" "smConfig m = dmEffective d" using e c by (simp_all add: entry_ok_def)
  show "pid \<noteq> doPid os" and "\<forall>n \<in> set kAlwaysProtected \<union> set (cfProtectedProcesses (dmCfg d)). \<not> ceq_of os (smName m) n"
    using np unfolding not_protected p by blast+
  show "Contains os (cfBatchProcesses (dmCfg d)) (smName m) \<or> pid \<in> set (dmAdhoc d)"
    using assms unfolding dm_core_def managed_for_a_reason_def by blast
qed

lemma threshold_facts:
  assumes "dm_core os d"
  shows "tsPercent (cfLow (dmCfg d)) < throttleThresholdPercent (dmEffective d)"
    and "throttleThresholdPercent (dmEffective d) \<le> tsPercent (cfHigh (dmCfg d))"
    and "throttleThresholdPercent (dmEffective d) \<le> escalateThresholdPercent (dmEffective d)"
    and "positive_counts (dmEffective d)"
proof -
  have b: "dmBase d = ToStateMachineConfig (dmCfg d)" and e: "effective_ok (dmBase d) (dmEffective d)"
    and ok: "thresholds_ok (dmCfg d)"
    using assms unfolding dm_core_def thresholds_in_step_def config_ok_def by blast+
  note e' = e [unfolded b effective_ok_def ToStateMachineConfig_def, simplified]
  show "tsPercent (cfLow (dmCfg d)) < throttleThresholdPercent (dmEffective d)"
    "throttleThresholdPercent (dmEffective d) \<le> tsPercent (cfHigh (dmCfg d))" using e' by simp_all
  show "throttleThresholdPercent (dmEffective d) \<le> escalateThresholdPercent (dmEffective d)"
    using e' assms by (simp add: dm_core_def config_ok_def hysteresis_ok_def)
  show "positive_counts (dmEffective d)" using e' ok by (simp add: positive_counts_def thresholds_ok_def)
qed

text \<open>
  C1.  In every state the daemon can reach - after any start, polls, reloads, commands and role
  changes, with any answers of Windows - the thresholds in force have a gap between recovery and
  throttling, never exceed the configured ones, and are those of every managed process; every managed
  process is not the daemon itself, not on either protection list, and is there because its name is
  configured as batch or because a manual command added it; and the protector runs with the configured
  settings and has raised no process above its own priority class.
\<close>

theorem daemon_invariant:
  assumes "\<forall>n. ceq_of os n n" and "dm_reach os d"
  shows "tsPercent (cfLow (dmCfg d)) < throttleThresholdPercent (dmEffective d) \<and>
    throttleThresholdPercent (dmEffective d) \<le> tsPercent (cfHigh (dmCfg d)) \<and>
    throttleThresholdPercent (dmEffective d) \<le> escalateThresholdPercent (dmEffective d) \<and>
    positive_counts (dmEffective d) \<and> ppSettings (dmAuto d) = ToAutoSettings (dmCfg d) \<and>
    ap_inv (dmAuto d, dmClasses d) \<and>
    (\<forall>pid m. mg_Find pid (dmActuator d) = Some m \<longrightarrow>
       smPid m = pid \<and> smConfig m = dmEffective d \<and> pid \<noteq> doPid os \<and>
       (\<forall>n \<in> set kAlwaysProtected \<union> set (cfProtectedProcesses (dmCfg d)). \<not> ceq_of os (smName m) n) \<and>
       (Contains os (cfBatchProcesses (dmCfg d)) (smName m) \<or> pid \<in> set (dmAdhoc d)))"
proof -
  have c: "dm_core os d" using dm_reach_inv [OF assms] by (simp add: dm_inv_def)
  have a: "ppSettings (dmAuto d) = ToAutoSettings (dmCfg d)" "ap_inv (dmAuto d, dmClasses d)"
    using c by (simp_all add: dm_core_defs)
  show ?thesis
    using threshold_facts [OF c] a managed_facts [OF c] by blast
qed

text \<open>A small world: one batch process is running, and Windows grants everything.\<close>

definition toy_daemon_os :: daemon_os where
  "toy_daemon_os = \<lparr>doConf = sample_os, doPid = 1, doWiden = (\<lambda>s. s), doFmt1 = (\<lambda>_. []),
     doWellKnown = (\<lambda>_. None), doSession = 1, doEventSource = True, doLower = (\<lambda>s. s)\<rparr>"

definition toy_os_env :: os_env where
  "toy_os_env = \<lparr>openErr = (\<lambda>_. None), signalled = (\<lambda>_. False), setClassErr = (\<lambda>_ _. None),
     threadSnap = Some [(11, 7)], openThreadErr = (\<lambda>_. None), suspendThread = (\<lambda>_. 0), resumeThread = (\<lambda>_. 1)\<rparr>"

definition toy_proc_env :: proc_env where
  "toy_proc_env = \<lparr>peSelf = 1, peWindowsDir = None, peOpen = (\<lambda>_. True), peImagePath = (\<lambda>_. None), peToken = (\<lambda>_. False),
     peTokenUser = (\<lambda>_. None), peWellKnown = (\<lambda>_. None), peSession = (\<lambda>_. Some 1)\<rparr>"

definition toy_table_env :: table_env where
  "toy_table_env = \<lparr>teCores = 4, teSystemTimes = None, teMemory = None, teNow = \<lparr>dwLowDateTime = 0, dwHighDateTime = 0\<rparr>,
     teSnapshot = [], teProc = toy_proc_env, teOpen = (\<lambda>_. True), teTimes = (\<lambda>_. None), teWorkingSet = (\<lambda>_. None)\<rparr>"

definition toy_ap_env :: ap_env where
  "toy_ap_env = \<lparr>aeSystemTimes = None, aeExited = (\<lambda>_. False), aeOpen = (\<lambda>_. None), aeSetOk = (\<lambda>_ _. True),
     aeTick = 0, aeTable = toy_table_env\<rparr>"

definition toy_reload :: reload_env where
  "toy_reload = \<lparr>rvAttr = None, rvFiles = (\<lambda>_. Some ''sample''), rvAcl = DaclUnreadable,
     rvSha = \<lparr>shOpen = False, shCreate = False, shData = (\<lambda>_. False), shFinish = (\<lambda>_. None)\<rparr>,
     rvApply = \<lparr>avProtect = toy_os_env, avDrop = toy_os_env, avConfigure = toy_ap_env, avSnapshot = (\<lambda>_. []),
       avExempt = toy_ap_env\<rparr>\<rparr>"

definition toy_born :: "filetime \<times> filetime \<times> filetime" where
  "toy_born = (let t = \<lparr>dwLowDateTime = 7, dwHighDateTime = 0\<rparr> in (t, t, t))"

definition toy_start :: daemon where
  "toy_start = new_daemon ''c.json'' 4 toy_born toy_ap_env (\<lambda>_. NORMAL_PRIORITY_CLASS)"

lemma toy_refl: "\<forall>n. ceq_of toy_daemon_os n n"
  by (simp add: ceq_of_def toy_daemon_os_def sample_os_def)

lemma sample_critical: "\<exists>c. ParseConfig sample_os ''sample'' = Inr c \<and> cfCriticalProcesses c = [''db.exe''] \<and> cfProtectedProcesses c = []"
  by (simp add: parse_defs sample_os_def sample_parser_def sample_doc_def sample_processes_def
      threshold_json_def default_config_def)

lemma apply_no_machines:
  assumes "mgMachines (dmActuator d) = []"
  shows "mgMachines (dmActuator (fst (ApplyConfig os env cfg initial d))) = []"
proof -
  have t: "mgMachines (dmActuator (fst (apply_thresholds os env cfg d0))) = []" if "dmActuator d0 = dmActuator d" for d0
    using that assms by (simp add: apply_thresholds_def Let_def split_beta SetProtectedProcessNames_def mg_SetConfig_def)
  have n: "dropped_pids os cfg d2 = []" if "mgMachines (dmActuator d2) = []" for d2
    using that by (simp add: dropped_pids_def)
  show ?thesis
    by (simp add: ApplyConfig_def Let_def split_beta apply_protector_def apply_telemetry_def n t)
qed

definition toy_ready :: "daemon \<Rightarrow> bool" where
  "toy_ready d \<longleftrightarrow> cfCriticalProcesses (dmCfg d) = [''db.exe''] \<and> cfProtectedProcesses (dmCfg d) = [] \<and>
     mgMachines (dmActuator d) = []"

lemma toy_reach: "\<exists>d. dm_reach toy_daemon_os d \<and> toy_ready d"
proof -
  obtain cfg where cfg: "ParseConfig sample_os ''sample'' = Inr cfg" "cfCriticalProcesses cfg = [''db.exe'']"
      "cfProtectedProcesses cfg = []"
    using sample_critical by blast
  have ld: "LoadAndVerify toy_daemon_os (rvFiles toy_reload) (rvAcl toy_reload) toy_start = (Inr cfg, [])"
    using cfg(1) by (simp add: LoadAndVerify_def LoadConfigFile_def toy_daemon_os_def toy_reload_def IsWritableByNonAdmins_def)
  define d where "d = fst (ApplyConfig toy_daemon_os (rvApply toy_reload) cfg True toy_start)"
  have "\<exists>out. Initialize toy_daemon_os toy_reload 0 toy_start = (Inr (d\<lparr>dmStartedTick := 0, dmLastSelfLog := 0\<rparr>), out)"
    using ld by (simp add: Initialize_def Let_def split_beta toy_reload_def d_def)
  then obtain out where i: "Initialize toy_daemon_os toy_reload 0 toy_start =
      (Inr (d\<lparr>dmStartedTick := 0, dmLastSelfLog := 0\<rparr>), out)" by blast
  have "dmCfg d = cfg" unfolding d_def
  proof (rule core_ApplyConfig(2))
    show "config_ok (doConf toy_daemon_os) cfg" using LoadAndVerify_ok [OF ld] .
    show "mg_inv (ceq_of toy_daemon_os) (doPid toy_daemon_os) (dmActuator toy_start)"
      by (simp add: toy_start_def new_daemon_def mg_inv_new)
  qed (simp_all add: toy_start_def new_daemon_def new_manager_def new_protector_def ap_inv_def okeys_def)
  moreover have "mgMachines (dmActuator d) = []" unfolding d_def
    by (rule apply_no_machines) (simp add: toy_start_def new_daemon_def new_manager_def)
  ultimately have "toy_ready (d\<lparr>dmStartedTick := 0, dmLastSelfLog := 0\<rparr>)" using cfg by (simp add: toy_ready_def)
  then show ?thesis using dm_reach.started [OF i [unfolded toy_start_def]] by blast
qed

theorem daemon_invariant_witness:
  "\<exists>d. dm_reach toy_daemon_os d \<and> tsPercent (cfLow (dmCfg d)) < throttleThresholdPercent (dmEffective d)"
  using toy_reach daemon_invariant [OF toy_refl] by blast

section \<open>Commands\<close>

lemma hold_other:
  "q \<noteq> pePid e \<Longrightarrow> mg_Find q (dmActuator (fst (snd (hold_process os env e st said d)))) = mg_Find q (dmActuator d)"
  by (rule hold_cases [of os env e st said d]) (simp_all add: mg_Find_ForceState mg_Find_Add)

lemma release_other:
  "q \<noteq> pid \<Longrightarrow> mg_Find q (dmActuator (fst (snd (release_process pid d)))) = mg_Find q (dmActuator d)"
  by (rule release_cases [of pid d]) (simp_all add: mg_Find_Release)

lemma hold_adhoc:
  "q \<in> set (dmAdhoc d) \<Longrightarrow> q \<in> set (dmAdhoc (fst (snd (hold_process os env e st said d))))"
  by (rule hold_cases [of os env e st said d]) simp_all

lemma release_adhoc:
  "q \<noteq> pid \<Longrightarrow> q \<in> set (dmAdhoc d) \<Longrightarrow> q \<in> set (dmAdhoc (fst (snd (release_process pid d))))"
  by (rule release_cases [of pid d]) simp_all

lemma override_one_other:
  assumes "pePid e = q \<longrightarrow> Contains os (cfCriticalProcesses (dmCfg d)) (peName e)"
  shows "mg_Find q (dmActuator (fst (snd (override_one os env v e d)))) = mg_Find q (dmActuator d)"
    and "q \<in> set (dmAdhoc d) \<Longrightarrow> q \<in> set (dmAdhoc (fst (snd (override_one os env v e d))))"
  using assms by (cases v; auto simp: override_one_def Let_def hold_other release_other hold_adhoc release_adhoc
      mg_Find_ForceState)+

lemma override_all_other:
  assumes "\<forall>e \<in> set es. pePid e = q \<longrightarrow> Contains os (cfCriticalProcesses (dmCfg d)) (peName e)"
  shows "mg_Find q (dmActuator (fst (snd (override_all os env said v es d)))) = mg_Find q (dmActuator d) \<and>
    (q \<in> set (dmAdhoc d) \<longrightarrow> q \<in> set (dmAdhoc (fst (snd (override_all os env said v es d)))))"
  using assms
proof (induction es arbitrary: d)
  case Nil
  then show ?case by simp
next
  case (Cons e es)
  have h: "pePid e = q \<longrightarrow> Contains os (cfCriticalProcesses (dmCfg d)) (peName e)" using Cons.prems by simp
  show ?case
    using Cons.IH [of "fst (snd (override_one os env v e d))"] Cons.prems override_one_other [OF h, of env v]
    by (simp add: split_beta)
qed

lemma override_all_cfg: "dmCfg (fst (snd (override_all os env said v es d))) = dmCfg d"
  by (induction es arbitrary: d) (simp_all add: split_beta)

lemma command_cfg: "dmCfg (fst (snd (HandleCommand os env line d))) = dmCfg d"
  by (rule command_cases [of os env line d]) (simp_all add: override_all_cfg)

lemma command_other:
  assumes "\<forall>e \<in> set (caSnapshot env). pePid e = q \<longrightarrow> Contains os (cfCriticalProcesses (dmCfg d)) (peName e)"
  shows "mg_Find q (dmActuator (fst (snd (HandleCommand os env line d)))) = mg_Find q (dmActuator d) \<and>
    (q \<in> set (dmAdhoc d) \<longrightarrow> q \<in> set (dmAdhoc (fst (snd (HandleCommand os env line d)))))"
proof (rule command_cases [of os env line d])
  fix said v es
  let ?d1 = "fst (snd (override_all os (caOs env) said v es (d\<lparr>dmTrigger := ''manual''\<rparr>)))"
  assume es: "set es \<subseteq> set (caSnapshot env)" and e: "fst (snd (HandleCommand os env line d)) = ?d1\<lparr>dmTrigger := ''automatic''\<rparr>"
  show ?thesis
    using override_all_other [of es q os "d\<lparr>dmTrigger := ''manual''\<rparr>" "caOs env" said v] assms es
    by (auto simp: e)
qed simp_all

text \<open>
  C31.  No command - whatever its text, from the pipe, the controller or the dashboard - changes how a
  process is managed whose name is configured as critical, and after any command no managed process is
  the daemon or on a protection list.
\<close>

theorem commands_spare_critical_processes:
  assumes "dm_inv os d" and "HandleCommand os env line d = (reply, d', out)"
  shows "(\<forall>pid. (\<forall>e \<in> set (caSnapshot env). pePid e = pid \<longrightarrow> Contains os (cfCriticalProcesses (dmCfg d)) (peName e)) \<longrightarrow>
      mg_Find pid (dmActuator d') = mg_Find pid (dmActuator d)) \<and>
    (\<forall>pid m. mg_Find pid (dmActuator d') = Some m \<longrightarrow> pid \<noteq> doPid os \<and>
      (\<forall>n \<in> set kAlwaysProtected \<union> set (cfProtectedProcesses (dmCfg d)). \<not> ceq_of os (smName m) n))"
proof -
  have d': "d' = fst (snd (HandleCommand os env line d))" using assms(2) by simp
  have c: "dm_core os d'" using inv_HandleCommand [OF assms(1)] by (simp add: d' dm_inv_def)
  have cfg: "dmCfg d' = dmCfg d" unfolding d' by (rule command_cfg)
  show ?thesis
    using command_other [of env _ os d line] managed_facts [OF c] unfolding d' [symmetric] cfg by blast
qed

definition toy_command :: command_env where
  "toy_command = \<lparr>caSnapshot = [\<lparr>peName = ''db.exe'', pePid = 7\<rparr>], caOs = toy_os_env, caAuto = toy_ap_env\<rparr>"

theorem commands_spare_critical_processes_witness:
  "\<exists>d. dm_inv toy_daemon_os d \<and>
     mg_Find 7 (dmActuator (fst (snd (HandleCommand toy_daemon_os toy_command ''suspend 7'' d)))) = mg_Find 7 (dmActuator d)"
proof -
  obtain d where d: "dm_reach toy_daemon_os d" "cfCriticalProcesses (dmCfg d) = [''db.exe'']"
    using toy_reach unfolding toy_ready_def by blast
  have i: "dm_inv toy_daemon_os d" by (rule dm_reach_inv [OF toy_refl d(1)])
  obtain r d' out where h: "HandleCommand toy_daemon_os toy_command ''suspend 7'' d = (r, d', out)" by (metis prod_cases3)
  have "\<forall>e \<in> set (caSnapshot toy_command). pePid e = 7 \<longrightarrow>
      Contains toy_daemon_os (cfCriticalProcesses (dmCfg d)) (peName e)"
    by (simp add: toy_command_def d(2) Contains_def SameName_def toy_refl)
  then show ?thesis using commands_spare_critical_processes [OF i h] i h by auto
qed

section \<open>A suspended process that becomes critical\<close>

text \<open>Suspended by a manual command, and configured as critical since.\<close>

definition stuck :: "daemon_os \<Rightarrow> dword \<Rightarrow> wstring \<Rightarrow> process_state \<Rightarrow> daemon \<Rightarrow> bool" where
  "stuck os pid name st d \<longleftrightarrow> (\<exists>m. mg_Find pid (dmActuator d) = Some m \<and> smName m = name \<and> smHold m \<and> smState m = st) \<and>
     pid \<in> set (dmAdhoc d) \<and> Contains os (cfCriticalProcesses (dmCfg d)) name"

lemma stuck_cong:
  "dmActuator d' = dmActuator d \<Longrightarrow> dmAdhoc d' = dmAdhoc d \<Longrightarrow> dmCfg d' = dmCfg d \<Longrightarrow>
   stuck os pid name st d' = stuck os pid name st d"
  by (simp add: stuck_def)

datatype dm_event = EvPoll poll_env | EvCommand command_env string

fun dm_event_step :: "daemon_os \<Rightarrow> dm_event \<Rightarrow> daemon \<Rightarrow> daemon" where
  "dm_event_step os (EvPoll env) d = fst (Poll os env d)"
| "dm_event_step os (EvCommand env line) d = fst (snd (HandleCommand os env line d))"

text \<open>The process keeps running, and lists of processes show it under its name.\<close>

fun event_shows :: "dword \<Rightarrow> wstring \<Rightarrow> dm_event \<Rightarrow> bool" where
  "event_shows pid name (EvPoll env) \<longleftrightarrow> \<not> signalled (pvUpdate env) pid"
| "event_shows pid name (EvCommand env line) \<longleftrightarrow> (\<forall>e \<in> set (caSnapshot env). pePid e = pid \<longrightarrow> peName e = name)"

lemma discover_pids_keep:
  "mg_Find q (dmActuator d) = Some m \<Longrightarrow>
   mg_Find q (dmActuator (fst (discover_pids os env name pids d))) = Some m \<and>
   dmAdhoc (fst (discover_pids os env name pids d)) = dmAdhoc d \<and> dmCfg (fst (discover_pids os env name pids d)) = dmCfg d"
proof (induction pids arbitrary: d)
  case Nil
  then show ?case by simp
next
  case (Cons pid pids)
  obtain added mg where a: "AddBatchProcess (ceq_of os) (doPid os) env name pid (dmActuator d) = (added, mg)" by fastforce
  have k: "mg_Find q mg = Some m"
    using mg_Find_Add [of q "ceq_of os" "doPid os" env name pid "dmActuator d"] a Cons.prems by auto
  show ?case
    using Cons.IH [of d] Cons.IH [of "d\<lparr>dmActuator := mg\<rparr>"]
      Cons.IH [of "d\<lparr>dmProtectedLogged := pid # dmProtectedLogged d\<rparr>"] Cons.prems k
    by (simp add: a split_beta Let_def)
qed

lemma discover_names_keep:
  "mg_Find q (dmActuator d) = Some m \<Longrightarrow>
   mg_Find q (dmActuator (fst (discover_names os env snap names d))) = Some m \<and>
   dmAdhoc (fst (discover_names os env snap names d)) = dmAdhoc d \<and> dmCfg (fst (discover_names os env snap names d)) = dmCfg d"
proof (induction names arbitrary: d)
  case Nil
  then show ?case by simp
next
  case (Cons n ns)
  note k = discover_pids_keep [OF Cons.prems, of os env n "FindByName (ceq_of os) snap n"]
  then show ?case using Cons.IH [of "fst (discover_pids os env n (FindByName (ceq_of os) snap n) d)"]
    by (simp add: split_beta)
qed

lemma stuck_adapt: "stuck os pid name st d \<Longrightarrow> stuck os pid name st (fst (adapt_thresholds d))"
  by (auto simp: stuck_def adapt_thresholds_def Let_def mg_Find_SetConfig sm_SetConfig_def)

lemma UpdateAll_held:
  assumes "mg_Find pid mg = Some m" and "smHold m" and "\<not> signalled env pid" and "smPid m = pid"
    and "distinct (map fst (mgMachines mg))"
  shows "mg_Find pid (fst (snd (UpdateAll env cpu mg))) = Some (count_sample cpu m)"
proof -
  have "map_of (map (\<lambda>(p, m). (p, fst (snd (sm_Update env cpu m)))) (filter (\<lambda>p. \<not> HasExited env (snd p)) ms)) pid =
      Some (count_sample cpu m)" if "map_of ms pid = Some m" for ms
    using that assms(2-4)
    by (induction ms) (auto simp: sm_Update_held HasExited_def split: if_splits)
  then show ?thesis using assms(1) by (simp add: UpdateAll_def split_beta mg_Find_def update_all_machines)
qed

lemma stuck_update:
  assumes "stuck os pid name st d" and "dm_core os d" and "\<not> signalled env pid"
  shows "stuck os pid name st (fst (update_actuator os env p d))"
proof -
  obtain m where m: "mg_Find pid (dmActuator d) = Some m" "smName m = name" "smHold m" "smState m = st"
    using assms(1) unfolding stuck_def by blast
  have i: "mg_inv (ceq_of os) (doPid os) (dmActuator d)" using assms(2) by (simp add: dm_core_def actuator_ok_def)
  have "mg_Find pid (fst (snd (UpdateAll env p (dmActuator d)))) = Some (count_sample p m)"
    using UpdateAll_held [OF m(1,3) assms(3)] managed_facts(1) [OF assms(2) m(1)] mg_keys_distinct [OF i] by simp
  then show ?thesis
    using assms(1) m by (auto simp: stuck_def update_actuator_def split_beta Let_def)
qed

lemma stuck_Poll:
  assumes "stuck os pid name st d" and "dm_core os d" and "\<forall>n. ceq_of os n n" and "\<not> signalled (pvUpdate env) pid"
  shows "stuck os pid name st (fst (Poll os env d))"
proof -
  obtain snapshot impostors ids where f: "if_Filter (ceq_of os) (pvIdentity env) (pvSnapshot env) (dmIdentity d) =
      (snapshot, impostors, ids)" by (metis prod_cases3)
  obtain crit samples events hs where c: "poll_critical (ceq_of os) (pvMonitor env) snapshot (dmCritical d) =
      (crit, samples, events, hs)" by (metis prod_cases4)
  define d0 where "d0 = d\<lparr>dmIdentity := ids, dmCritical := crit, dmLastSamples := samples\<rparr>"
  define d1 where "d1 = fst (DiscoverBatchProcesses os (pvAdd env) snapshot d0)"
  define comb where "comb = combine (dmCfg d)
    (if cfMemoryTriggerEnabled (dmCfg d) then SystemMemoryLoadPercent (pvMemory env) else 0) samples"
  have e: "fst (Poll os env d) = (if samples \<noteq> [] \<and> \<not> fst comb then d1 else fst (act_on_pressure os env (snd comb) d1))"
    by (simp only: Poll_def f c split_beta Let_def d0_def d1_def comb_def fst_conv snd_conv if_distrib [of fst])
  have s0: "stuck os pid name st d0" using assms(1) by (simp add: d0_def stuck_def)
  obtain m where "mg_Find pid (dmActuator d0) = Some m" using s0 unfolding stuck_def by blast
  from discover_names_keep [OF this, of os "pvAdd env" snapshot "cfBatchProcesses (dmCfg d0)"] this
  have s1: "stuck os pid name st d1" using s0 by (simp add: stuck_def d1_def DiscoverBatchProcesses_def)
  have "dm_core os d0" using assms(2) by (auto simp: d0_def intro: dm_core_frame)
  then have c1: "dm_core os d1" using core_Discover(1) assms(3) by (simp add: d1_def)
  obtain p sig cpid where ps: "snd comb = (p, sig, cpid)" by (metis prod_cases3)
  define a0 where "a0 = d1\<lparr>dmPressure := p, dmSignal := sig, dmCriticalPid := cpid, dmAdaptive := ad_AddSample p (dmAdaptive d1)\<rparr>"
  define a1 where "a1 = fst (adapt_thresholds a0)"
  define a2 where "a2 = fst (report_streaks p cpid a1)"
  define a3 where "a3 = fst (update_actuator os (pvUpdate env) p a2)"
  define a4 where "a4 = fst (tick_protector os (pvAuto env) a3)"
  define a5 where "a5 = fst (log_self_when_due env a4)"
  have e2: "fst (act_on_pressure os env (snd comb) d1) = a5"
    by (simp add: act_on_pressure_def ps split_beta Let_def a0_def a1_def a2_def a3_def a4_def a5_def)
  have "dm_core os a0" using c1 by (auto simp: a0_def intro: dm_core_frame)
  then have "dm_core os a1" by (simp add: a1_def core_adapt)
  then have k2: "dm_core os a2" by (auto simp: a2_def report_streaks_def split_beta intro: dm_core_frame)
  have "stuck os pid name st a0" using s1 by (simp add: a0_def stuck_def)
  then have "stuck os pid name st a1" unfolding a1_def by (rule stuck_adapt)
  then have "stuck os pid name st a2" by (simp add: a2_def report_streaks_def split_beta stuck_def)
  then have "stuck os pid name st a3" unfolding a3_def by (rule stuck_update [OF _ k2 assms(4)])
  then have "stuck os pid name st a4" by (simp add: a4_def tick_protector_def stuck_def)
  then have "stuck os pid name st a5" by (simp add: a5_def log_self_when_due_def LogSelf_def split_beta stuck_def)
  then show ?thesis using s1 by (simp add: e e2)
qed

lemma stuck_command:
  assumes "stuck os pid name st d" and "\<forall>e \<in> set (caSnapshot env). pePid e = pid \<longrightarrow> peName e = name"
  shows "stuck os pid name st (fst (snd (HandleCommand os env line d)))"
proof -
  have "\<forall>e \<in> set (caSnapshot env). pePid e = pid \<longrightarrow> Contains os (cfCriticalProcesses (dmCfg d)) (peName e)"
    using assms by (auto simp: stuck_def)
  from command_other [OF this] show ?thesis using assms(1) by (simp add: stuck_def command_cfg)
qed

lemma stuck_run:
  assumes "stuck os pid name st d" and "dm_inv os d" and "\<forall>n. ceq_of os n n" and "\<forall>ev \<in> set evs. event_shows pid name ev"
  shows "stuck os pid name st (fold (dm_event_step os) evs d)"
  using assms
proof (induction evs arbitrary: d)
  case Nil
  then show ?case by simp
next
  case (Cons ev evs)
  have "stuck os pid name st (dm_event_step os ev d) \<and> dm_inv os (dm_event_step os ev d)"
    using Cons.prems stuck_Poll inv_Poll stuck_command inv_HandleCommand
    by (cases ev) (simp_all add: dm_inv_def)
  then show ?case using Cons by simp
qed

lemma stuck_Apply:
  assumes "dm_core os d" and "mg_Find pid (dmActuator d) = Some m" and "smHold m" and "pid \<in> set (dmAdhoc d)"
    and "Contains os (cfCriticalProcesses cfg) (smName m)"
    and "\<forall>n \<in> set (cfProtectedProcesses cfg). \<not> ceq_of os (smName m) n"
  shows "stuck os pid (smName m) (smState m) (fst (ApplyConfig os env cfg initial d))"
proof -
  define d0 where "d0 = d\<lparr>dmDashboardDirty := (dashboard_changed initial cfg (dmCfg d) \<or> dmDashboardDirty d), dmCfg := cfg,
    dmLogger := (log_changed initial cfg (dmCfg d) \<or> dmLogger d)\<rparr>"
  define d1 where "d1 = fst (apply_thresholds os env cfg d0)"
  define d2 where "d2 = fst (apply_telemetry os cfg d1)"
  define d3 where "d3 = fst (drop_all os (avDrop env) (dropped_pids os cfg d2) d2)"
  define d4 where "d4 = d3\<lparr>dmAlerter := al_Configure (cfAlertPopup cfg) (cfAlertWebhookUrl cfg) (dmAlerter d3)\<rparr>"
  define d5 where "d5 = fst (apply_protector os env cfg d4)"
  define d6 where "d6 = (if coord_changed initial cfg (dmCfg d) then fst (restart_coordination cfg d5) else d5)"
  have e: "fst (ApplyConfig os env cfg initial d) = d6"
    by (simp only: ApplyConfig_def Let_def split_beta d0_def d1_def d2_def d3_def d4_def d5_def d6_def
        fst_conv snd_conv if_distrib [of fst])
  define c where "c = ad_Adjust (ad_SetSettings (ToAdaptive cfg) (dmAdaptive d0)) (ToStateMachineConfig cfg) (dm_bias d0)"
  let ?mg = "mg_SetConfig c (dmActuator d)"
  have np: "\<not> IsProtected (ceq_of os) (doPid os) (?mg\<lparr>mgProtected := cfProtectedProcesses cfg\<rparr>) (smName m) pid"
    using managed_facts(3) [OF assms(1,2)] managed_facts(4) [OF assms(1,2), unfolded ball_Un, THEN conjunct1] assms(6)
    unfolding not_protected ball_Un by simp
  have keep: "map_of (filter (\<lambda>p. \<not> prot (smName (snd p)) (fst p)) ms) pid = Some k"
    if "map_of ms pid = Some k" "\<not> prot (smName k) pid" for ms k and prot :: "wstring \<Rightarrow> dword \<Rightarrow> bool"
    using that by (induction ms) (auto split: if_splits)
  have f: "mg_Find pid ?mg = Some (sm_SetConfig c m)" by (simp add: mg_Find_SetConfig assms(2))
  have "mg_Find pid (fst (SetProtectedProcessNames (ceq_of os) (doPid os) (avProtect env) (cfProtectedProcesses cfg) ?mg)) =
      Some (sm_SetConfig c m)"
    using f np keep [of "mgMachines ?mg" "sm_SetConfig c m" "IsProtected (ceq_of os) (doPid os) (?mg\<lparr>mgProtected := cfProtectedProcesses cfg\<rparr>)"]
    by (simp add: SetProtectedProcessNames_def Let_def split_beta drop_protected_machines mg_Find_def sm_SetConfig_def)
  then have s1: "stuck os pid (smName m) (smState m) d1"
    using assms(3-5) by (simp add: stuck_def d1_def apply_thresholds_def Let_def split_beta d0_def c_def sm_SetConfig_def)
  then have s2: "stuck os pid (smName m) (smState m) d2" by (simp add: stuck_def d2_def apply_telemetry_def split_beta)
  have "pid \<notin> set (dropped_pids os cfg d2)" using s2 by (auto simp: stuck_def dropped_pids_def)
  then have "stuck os pid (smName m) (smState m) d3" using s2 by (simp add: stuck_def d3_def drop_all_Find)
  then have "stuck os pid (smName m) (smState m) d4" by (simp add: stuck_def d4_def)
  then have "stuck os pid (smName m) (smState m) d5" by (simp add: stuck_def d5_def apply_protector_def split_beta Let_def)
  then show ?thesis unfolding e by (simp add: stuck_def d6_def)
qed

text \<open>
  C32.  A process that was suspended by a manual command and is then configured as critical stays
  suspended: applying the configuration does not drop it (processes added by a command are skipped
  there), and afterwards neither any sequence of polls, whatever the pressure, nor any command -
  \<open>resume\<close> and \<open>release\<close> included - changes its state while it is running.  The process the
  configuration declares critical is the one the daemon keeps frozen.
\<close>

theorem suspended_critical_process_is_stuck:
  assumes "\<forall>n. ceq_of os n n" and "dm_inv os d" and "config_ok (doConf os) cfg"
    and "mg_Find pid (dmActuator d) = Some m" and "smState m = StSuspended" and "smHold m" and "pid \<in> set (dmAdhoc d)"
    and "Contains os (cfCriticalProcesses cfg) (smName m)"
    and "\<forall>n \<in> set (cfProtectedProcesses cfg). \<not> ceq_of os (smName m) n"
    and "\<forall>ev \<in> set evs. event_shows pid (smName m) ev"
  shows "\<exists>m'. mg_Find pid (dmActuator (fold (dm_event_step os) evs (fst (ApplyConfig os env cfg False d)))) = Some m' \<and>
    smState m' = StSuspended"
proof -
  have core: "dm_core os d" using assms(2) by (simp add: dm_inv_def)
  have "dm_inv os (fst (ApplyConfig os env cfg False d))"
  proof (rule core_ApplyConfig(1) [OF assms(3)])
    show "dmTrigger d = ''automatic''" using assms(2) unfolding dm_inv_def by blast
  qed (use core in \<open>auto simp: dm_core_defs\<close>)
  then have "stuck os pid (smName m) (smState m) (fold (dm_event_step os) evs (fst (ApplyConfig os env cfg False d)))"
    by (rule stuck_run [OF stuck_Apply [OF core assms(4,6-9)] _ assms(1,10)])
  then show ?thesis using assms(5) by (auto simp: stuck_def)
qed

lemma toy_app_ok: "config_ok sample_os (default_config\<lparr>cfCriticalProcesses := [''app.exe'']\<rparr>)"
proof -
  have "good_name sample_os ''app.exe''"
    unfolding good_name_def
    by (rule exI [of _ "''app.exe''"]) (simp add: sample_os_def has_slash_def backslash_def slash_def)
  then have "config_ok sample_os (default_config\<lparr>cfCriticalProcesses := [''app.exe''], cfBatchProcesses := [],
      cfProtectedProcesses := []\<rparr>)"
    by (intro ok_processes default_ok) simp_all
  then show ?thesis by (simp only: default_config_def config.update_convs)
qed

text \<open>After the command \<open>suspend 7\<close> on a process that no list names.\<close>

lemma toy_suspended:
  assumes "dm_inv toy_daemon_os d" and "toy_ready d"
  shows "\<exists>d' m. dm_inv toy_daemon_os d' \<and> mg_Find 7 (dmActuator d') = Some m \<and> smState m = StSuspended \<and>
    smHold m \<and> smName m = ''app.exe'' \<and> 7 \<in> set (dmAdhoc d')"
proof -
  let ?e = "\<lparr>peName = ''app.exe'', pePid = 7\<rparr>"
  let ?add = "AddBatchProcess (ceq_of toy_daemon_os) (doPid toy_daemon_os) toy_os_env ''app.exe'' 7 (dmActuator d)"
  define d' where "d' = fst (snd (override_one toy_daemon_os toy_os_env OvSuspend ?e d))"
  have n: "mg_Find 7 (dmActuator d) = None" using assms(2) by (simp add: toy_ready_def mg_Find_def)
  have nc: "\<not> Contains toy_daemon_os (cfCriticalProcesses (dmCfg d)) ''app.exe''"
    using assms(2) by (simp add: toy_ready_def Contains_def SameName_def ceq_of_def toy_daemon_os_def sample_os_def)
  have "mgProtected (dmActuator d) = []" using assms by (auto simp: dm_inv_def dm_core_defs toy_ready_def)
  then have "\<not> IsProtected (ceq_of toy_daemon_os) (doPid toy_daemon_os) (dmActuator d) ''app.exe'' 7"
    by (simp add: IsProtected_def kAlwaysProtected_def ceq_of_def toy_daemon_os_def sample_os_def)
  then have a: "fst ?add" by (simp add: AddBatchProcess_def)
  have d': "d' = fst (force_process toy_daemon_os toy_os_env 7 StSuspended
      (d\<lparr>dmActuator := snd ?add, dmAdhoc := List.insert 7 (dmAdhoc d)\<rparr>))"
    using n nc a by (simp add: d'_def override_one_def hold_process_def Let_def split_beta)
  have f: "mg_Find 7 (dmActuator d') = Some (fst (sm_ForceState toy_os_env StSuspended (dmPressure d) True
      (new_machine toy_os_env ''app.exe'' 7 (mgConfig (dmActuator d)) (mgCallback (dmActuator d)))))"
    using a n by (simp add: d' mg_Find_ForceState mg_Find_Add)
  have "dm_core toy_daemon_os d'" unfolding d'_def using assms(1) by (intro core_override_one) (simp add: dm_inv_def)
  moreover have "dmTrigger d' = ''automatic''" using assms(1) unfolding d'_def dm_inv_def by (simp only: override_one_frame)
  ultimately have "dm_inv toy_daemon_os d'" by (simp add: dm_inv_def)
  moreover have "7 \<in> set (dmAdhoc d')" by (simp add: d')
  ultimately show ?thesis using f by (intro exI [of _ d']) (simp add: new_machine_def)
qed

theorem suspended_critical_process_is_stuck_witness:
  "\<exists>d m'. dm_inv toy_daemon_os d \<and>
     mg_Find 7 (dmActuator (dm_event_step toy_daemon_os
       (EvCommand (toy_command\<lparr>caSnapshot := [\<lparr>peName = ''app.exe'', pePid = 7\<rparr>]\<rparr>) ''release 7'')
       (fst (ApplyConfig toy_daemon_os (rvApply toy_reload) (default_config\<lparr>cfCriticalProcesses := [''app.exe'']\<rparr>) False d)))) = Some m' \<and>
     smState m' = StSuspended"
proof -
  obtain d0 where "dm_reach toy_daemon_os d0" "toy_ready d0" using toy_reach by blast
  then obtain d m where d: "dm_inv toy_daemon_os d" "mg_Find 7 (dmActuator d) = Some m" "smState m = StSuspended"
      "smHold m" "smName m = ''app.exe''" "7 \<in> set (dmAdhoc d)"
    using toy_suspended [OF dm_reach_inv [OF toy_refl]] by blast
  let ?cfg = "default_config\<lparr>cfCriticalProcesses := [''app.exe'']\<rparr>"
  let ?ev = "EvCommand (toy_command\<lparr>caSnapshot := [\<lparr>peName = ''app.exe'', pePid = 7\<rparr>]\<rparr>) ''release 7''"
  have "\<exists>m'. mg_Find 7 (dmActuator (fold (dm_event_step toy_daemon_os) [?ev]
      (fst (ApplyConfig toy_daemon_os (rvApply toy_reload) ?cfg False d)))) = Some m' \<and> smState m' = StSuspended"
  proof (rule suspended_critical_process_is_stuck [OF toy_refl d(1) _ d(2,3,4,6)])
    show "config_ok (doConf toy_daemon_os) ?cfg" using toy_app_ok by (simp add: toy_daemon_os_def)
    show "Contains toy_daemon_os (cfCriticalProcesses ?cfg) (smName m)"
      by (simp add: d(5) Contains_def SameName_def toy_refl)
    show "\<forall>n \<in> set (cfProtectedProcesses ?cfg). \<not> ceq_of toy_daemon_os (smName m) n" by (simp add: default_config_def)
    show "\<forall>ev \<in> set [?ev]. event_shows 7 (smName m) ev" by (simp add: d(5))
  qed
  then show ?thesis using d(1) by auto
qed

end
