(* ===== verification/Daemon_Run.thy ===== *)
theory Daemon_Run
  imports Daemon_Properties
begin

text \<open>The poll loop from start to stop, and the pressure that drives it.\<close>

section \<open>The pressure\<close>

text \<open>All signals of one sample that the configuration enables, each as a percentage of its limit.\<close>

definition enabled_signals :: "config \<Rightarrow> double \<Rightarrow> process_sample \<Rightarrow> double set" where
  "enabled_signals cfg memLoad s =
     {psCpuPercent s} \<union>
     (if cfMemoryTriggerEnabled cfg then {100 * memLoad / cfSystemMemoryLimitPercent cfg} else {}) \<union>
     (if cfMemoryTriggerEnabled cfg \<and> cfCriticalWorkingSetLimitMb cfg > 0
      then {100 * psWorkingSetMb s / cfCriticalWorkingSetLimitMb cfg} else {}) \<union>
     (if cfIoTriggerEnabled cfg then {100 * psIoMbPerSec s / cfCriticalIoLimitMbPerSec cfg} else {})"

lemma fst_stronger [simp]: "fst (stronger a b) = max (fst a) (fst b)"
  by (simp add: stronger_def max_def)

lemma sample_signal_value:
  "fst (sample_signal cfg memLoad s) =
     (let p1 = (if cfMemoryTriggerEnabled cfg
          then (let q = max (100 * memLoad / cfSystemMemoryLimitPercent cfg) (psCpuPercent s)
                in if cfCriticalWorkingSetLimitMb cfg > 0
                   then max (100 * psWorkingSetMb s / cfCriticalWorkingSetLimitMb cfg) q else q)
          else psCpuPercent s)
      in if cfIoTriggerEnabled cfg then max (100 * psIoMbPerSec s / cfCriticalIoLimitMbPerSec cfg) p1 else p1)"
  by (simp add: sample_signal_def Let_def)

lemma strongest_of_four:
  fixes a b c e :: real and m w i :: bool
  defines "r \<equiv> (let p1 = (if m then (let q = max b a in if w then max c q else q) else a) in if i then max e p1 else p1)"
    and "S \<equiv> {a} \<union> (if m then {b} else {}) \<union> (if m \<and> w then {c} else {}) \<union> (if i then {e} else {})"
  shows "r \<in> S" and "x \<in> S \<Longrightarrow> x \<le> r"
proof -
  show "r \<in> S" unfolding r_def S_def Let_def
    using max_def [of b a] max_def [of c "max b a"]
    by (cases m; cases w; cases i; simp; metis max_def)
  show "x \<in> S \<Longrightarrow> x \<le> r" unfolding r_def S_def Let_def
    by (cases m; cases w; cases i) (auto simp: le_max_iff_disj)
qed

lemma sample_signal_max:
  "fst (sample_signal cfg memLoad s) \<in> enabled_signals cfg memLoad s"
  "x \<in> enabled_signals cfg memLoad s \<Longrightarrow> x \<le> fst (sample_signal cfg memLoad s)"
  unfolding sample_signal_value enabled_signals_def by (rule strongest_of_four)+

definition pressure_ok :: "config \<Rightarrow> double \<Rightarrow> process_sample list \<Rightarrow> pressure_state \<Rightarrow> bool" where
  "pressure_ok cfg memLoad samples st \<longleftrightarrow>
     (let (anyValid, p, sig, pid) = st in
      (anyValid \<longleftrightarrow> (\<exists>s \<in> set samples. psValid s)) \<and>
      (\<not> anyValid \<longrightarrow> p = 0 \<and> pid = 0) \<and> 0 \<le> p \<and>
      (anyValid \<longrightarrow> (\<exists>s \<in> set samples. psValid s \<and> pid = psPid s \<and> (p, sig) = sample_signal cfg memLoad s)) \<and>
      (\<forall>s \<in> set samples. psValid s \<longrightarrow> fst (sample_signal cfg memLoad s) \<le> p))"

lemma pressure_ok_step:
  assumes "pressure_ok cfg memLoad samples st" and "psValid s \<longrightarrow> 0 \<le> psCpuPercent s"
  shows "pressure_ok cfg memLoad (samples @ [s]) (combine_step cfg memLoad s st)"
proof -
  obtain anyValid p sig pid where st: "st = (anyValid, p, sig, pid)" by (metis prod_cases4)
  obtain q qs where q: "sample_signal cfg memLoad s = (q, qs)" by fastforce
  have "psCpuPercent s \<le> q" using sample_signal_max(2) [of "psCpuPercent s" cfg memLoad s] q
    by (simp add: enabled_signals_def)
  then show ?thesis using assms by (auto simp: pressure_ok_def combine_step_def st q)
qed

lemma pressure_ok_fold:
  assumes "pressure_ok cfg memLoad done st" and "\<forall>s \<in> set samples. psValid s \<longrightarrow> 0 \<le> psCpuPercent s"
  shows "pressure_ok cfg memLoad (done @ samples) (fold (combine_step cfg memLoad) samples st)"
  using assms
proof (induction samples arbitrary: "done" st)
  case Nil
  then show ?case by simp
next
  case (Cons s ss)
  show ?case using Cons.IH [OF pressure_ok_step [OF Cons.prems(1), of s]] Cons.prems(2) by simp
qed

text \<open>
  C33.  The pressure of a poll is the largest of all signals that the configuration enables (CPU, the
  system's memory load, working set and I/O, each in percent of its limit) over all critical processes
  with a valid sample; the signal's name and the process reported with it are those of a sample that
  reaches it; and without a valid sample it is 0.
\<close>

theorem pressure_is_the_strongest_signal:
  assumes "combine cfg memLoad samples = (anyValid, p, sig, pid)"
    and "\<forall>s \<in> set samples. psValid s \<longrightarrow> 0 \<le> psCpuPercent s"
  shows "(anyValid \<longleftrightarrow> (\<exists>s \<in> set samples. psValid s)) \<and>
    (\<forall>s \<in> set samples. psValid s \<longrightarrow> (\<forall>x \<in> enabled_signals cfg memLoad s. x \<le> p)) \<and>
    (if anyValid then \<exists>s \<in> set samples. psValid s \<and> pid = psPid s \<and> (p, sig) = sample_signal cfg memLoad s \<and>
        p \<in> enabled_signals cfg memLoad s
     else p = 0 \<and> pid = 0)"
proof -
  have "pressure_ok cfg memLoad [] (False, 0, ''cpu'', 0)" by (simp add: pressure_ok_def)
  from pressure_ok_fold [OF this assms(2)] have k: "pressure_ok cfg memLoad samples (anyValid, p, sig, pid)"
    using assms(1) by (simp add: combine_def)
  then have v: "anyValid \<longleftrightarrow> (\<exists>s \<in> set samples. psValid s)" "\<not> anyValid \<longrightarrow> p = 0 \<and> pid = 0"
    by (simp_all add: pressure_ok_def)
  have "\<forall>s \<in> set samples. psValid s \<longrightarrow> (\<forall>x \<in> enabled_signals cfg memLoad s. x \<le> p)"
    using k sample_signal_max(2) by (fastforce simp: pressure_ok_def)
  moreover have "\<exists>s \<in> set samples. psValid s \<and> pid = psPid s \<and> (p, sig) = sample_signal cfg memLoad s \<and>
      p \<in> enabled_signals cfg memLoad s" if valid: anyValid
  proof -
    obtain s where "s \<in> set samples" "psValid s" "pid = psPid s" "(p, sig) = sample_signal cfg memLoad s"
      using k valid by (auto simp: pressure_ok_def)
    then show ?thesis using sample_signal_max(1) [of cfg memLoad s] by (metis fst_conv)
  qed
  ultimately show ?thesis using v by simp
qed

definition toy_sample :: "dword \<Rightarrow> double \<Rightarrow> process_sample" where
  "toy_sample pid cpu = \<lparr>psName = ''db.exe'', psPid = pid, psValid = True, psCpuPercent = cpu,
     psWorkingSetMb = 0, psIoMbPerSec = 0\<rparr>"

theorem pressure_is_the_strongest_signal_witness:
  "\<exists>anyValid p sig. combine default_config 0 [toy_sample 7 40, toy_sample 8 90] = (anyValid, p, sig, 8) \<and> 90 \<le> p \<and> anyValid"
proof -
  obtain a p sig pid where c: "combine default_config 0 [toy_sample 7 40, toy_sample 8 90] = (a, p, sig, pid)"
    by (metis prod_cases4)
  have "\<forall>s \<in> set [toy_sample 7 40, toy_sample 8 90]. psValid s \<longrightarrow> 0 \<le> psCpuPercent s" by (simp add: toy_sample_def)
  from pressure_is_the_strongest_signal [OF c this]
  have "a" "90 \<le> p" "\<exists>s \<in> set [toy_sample 7 40, toy_sample 8 90]. pid = psPid s \<and> p \<in> enabled_signals default_config 0 s"
    by (auto simp: toy_sample_def enabled_signals_def split: if_splits)
  then have "pid = 8" by (auto simp: toy_sample_def enabled_signals_def default_config_def)
  then show ?thesis using c \<open>a\<close> \<open>90 \<le> p\<close> by auto
qed

section \<open>The loop\<close>

lemma recover_all_normal:
  "mg_Find pid (fst (ForceRecoverAllForShutdown env mg)) = Some m \<Longrightarrow> smState m = StNormal \<and> \<not> smHold m"
proof -
  assume "mg_Find pid (fst (ForceRecoverAllForShutdown env mg)) = Some m"
  then have "(pid, m) \<in> set (fst (recover_all env (mgMachines mg)))"
    by (auto simp: ForceRecoverAllForShutdown_def mg_Find_def split_beta dest: map_of_SomeD)
  then show ?thesis by (auto simp: recover_all_machines)
qed

lemma Shutdown_restores:
  assumes "dm_inv os d" and "Shutdown os env autoEnv d = (d', out)"
  shows "mg_Find pid (dmActuator d') = Some m \<Longrightarrow> smState m = StNormal \<and> \<not> smHold m"
    and "ppThrottled (dmAuto d') = []"
    and "restorable autoEnv (dmAuto d, dmClasses d) pid \<Longrightarrow> dmClasses d' pid = own_class (dmAuto d, dmClasses d) pid"
proof -
  define reason where "reason = ''service stopping''"
  define r where "r = RestoreAll autoEnv reason (dmAuto d, dmClasses d)"
  have a: "ap_inv (dmAuto d, dmClasses d)" using assms(1) unfolding dm_inv_def dm_core_def auto_in_step_def by blast
  have d': "d' = fst (Shutdown os env autoEnv d)" using assms(2) by simp
  have f: "dmActuator d' = fst (ForceRecoverAllForShutdown env (dmActuator d))" "dmAuto d' = fst (fst r)" "dmClasses d' = snd (fst r)"
    unfolding d' by (simp_all add: Shutdown_def Let_def split_beta r_def reason_def)
  show "mg_Find pid (dmActuator d') = Some m \<Longrightarrow> smState m = StNormal \<and> \<not> smHold m"
    unfolding f by (rule recover_all_normal)
  show "ppThrottled (dmAuto d') = []" "restorable autoEnv (dmAuto d, dmClasses d) pid \<Longrightarrow>
      dmClasses d' pid = own_class (dmAuto d, dmClasses d) pid"
    using RestoreAll_base [OF a, of autoEnv reason "fst r" "snd r"] unfolding f r_def by simp_all
qed

lemma inv_Run_turn:
  "dm_inv os d \<Longrightarrow> \<forall>n. ceq_of os n n \<Longrightarrow> dm_inv os (fst (snd (Run_turn os t d)))"
  by (simp add: Run_turn_def split_beta inv_Poll inv_Reload inv_UpdateDashboard)

lemma Run_stops:
  assumes "dm_inv os d" and "\<forall>n. ceq_of os n n"
  shows "if \<exists>t \<in> set ts. rnStop t
    then \<exists>d1 d' out1 out. dm_inv os d1 \<and> Shutdown os env autoEnv d1 = (d', out1) \<and>
      Run os env autoEnv ts d = Some (d', out @ out1)
    else Run os env autoEnv ts d = None"
  using assms(1)
proof (induction ts arbitrary: d)
  case Nil
  then show ?case by simp
next
  case (Cons t ts)
  obtain wait d1 out1 where t: "Run_turn os t d = (wait, d1, out1)" by (metis prod_cases3)
  have i: "dm_inv os d1" using inv_Run_turn [OF Cons.prems assms(2), of t] t by simp
  obtain d2 out2 where sh: "Shutdown os env autoEnv d1 = (d2, out2)" by fastforce
  show ?case
  proof (cases "rnStop t")
    case True
    then show ?thesis using i sh t by (auto intro!: exI [of _ d1])
  next
    case False
    show ?thesis
    proof (cases "\<exists>t \<in> set ts. rnStop t")
      case True
      then obtain d3 d4 o1 o2 where r: "dm_inv os d3" "Shutdown os env autoEnv d3 = (d4, o1)"
          "Run os env autoEnv ts d1 = Some (d4, o2 @ o1)" using Cons.IH [OF i] by auto
      then have "Run os env autoEnv (t # ts) d = Some (d4, (out1 @ o2) @ o1)" using t False by simp
      then show ?thesis using True r by fastforce
    next
      case none: False
      then show ?thesis using Cons.IH [OF i] t False by simp
    qed
  qed
qed


definition toy_id_env :: id_env where
  "toy_id_env = \<lparr>ieOpen = (\<lambda>_. True), ieTimes = (\<lambda>_. None), ieImage = (\<lambda>_. None), ieVerifies = (\<lambda>_. False), ieSigner = (\<lambda>_. None)\<rparr>"

definition toy_mon_env :: mon_env where
  "toy_mon_env = \<lparr>meSignalled = (\<lambda>_. False), meExitCode = (\<lambda>_. 0), meOpen = (\<lambda>_. None), meDenied = (\<lambda>_. False),
     meTimes = (\<lambda>_. None), meNow = (\<lambda>_. \<lparr>dwLowDateTime = 0, dwHighDateTime = 0\<rparr>), meIo = (\<lambda>_. None), meWorkingSet = (\<lambda>_. None)\<rparr>"

definition toy_self :: self_answers where
  "toy_self = \<lparr>saKernel = \<lparr>dwLowDateTime = 0, dwHighDateTime = 0\<rparr>, saUser = \<lparr>dwLowDateTime = 0, dwHighDateTime = 0\<rparr>,
     saNow = \<lparr>dwLowDateTime = 0, dwHighDateTime = 0\<rparr>, saWorkingSet = 0, saPrivate = 0, saHandles = 0\<rparr>"

definition toy_poll :: poll_env where
  "toy_poll = \<lparr>pvSnapshot = [], pvIdentity = toy_id_env, pvMonitor = (\<lambda>_. toy_mon_env), pvMemory = None,
     pvAdd = toy_os_env, pvExited = toy_os_env, pvUpdate = toy_os_env, pvAuto = toy_ap_env, pvTick = 0, pvSelfTick = 0,
     pvSelf = toy_self\<rparr>"

definition toy_turn :: "bool \<Rightarrow> run_env" where
  "toy_turn stop = \<lparr>rnDashboard = (\<lambda>_. Inl ''port in use''), rnReload = toy_reload, rnPoll = toy_poll,
     rnStarted = 0, rnEnded = 10, rnStop = stop\<rparr>"


lemma poll_wait_bounded: "poll_wait elapsed interval \<le> interval"
proof (cases "elapsed \<ge> ucast interval")
  case True
  then show ?thesis by (simp add: poll_wait_def)
next
  case False
  have "unat interval < 2 ^ LENGTH(32)" by (rule unsigned_less)
  then have "unat interval < 2 ^ 64" by simp
  then have up: "unat (ucast interval :: u64) = unat interval"
    by (simp add: unsigned_ucast_eq take_bit_nat_eq_self_iff)
  have "unat (ucast interval - elapsed :: u64) \<le> unat interval"
  proof -
    have "elapsed \<le> ucast interval" using False by simp
    then show ?thesis using up by (simp add: unat_sub)
  qed
  moreover have "unat (ucast (w :: u64) :: dword) \<le> unat w" for w
    by (simp add: unsigned_ucast_eq take_bit_nat_less_eq_self)
  ultimately have "unat (ucast (ucast interval - elapsed :: u64) :: dword) \<le> unat interval" by (meson le_trans)
  then show ?thesis using False by (simp add: poll_wait_def word_le_nat_alt)
qed

end
