(* ===== verification/DaemonDashboard.thy ===== *)
theory DaemonDashboard
  imports Daemon_Properties
begin

text \<open>
  The dashboard's handler (\<open>src/service/Dashboard.cpp\<close>) on the daemon (\<open>src/service/Daemon.cpp\<close>):
  the contract the handler needs is a locale, the daemon's operations are an interpretation of it, and
  what any sequence of HTTP requests can do to the daemon follows.
\<close>

section \<open>The dashboard of a daemon\<close>

text \<open>The dashboard's process table when it is constructed: primed by a first sample.\<close>

definition dash_table :: "name_eq \<Rightarrow> table_env \<Rightarrow> process_table" where
  "dash_table ceq env =
     fst (snd (pt_Sample ceq env (SetEssentialNames kAlwaysProtected new_table, default_system)))"

section \<open>The contract\<close>

text \<open>The commands the handler passes on: a verb of its list and one word.\<close>

definition accepted_command :: "string \<Rightarrow> bool" where
  "accepted_command line \<longleftrightarrow> (\<exists>verb target. verb \<in> set command_verbs \<and> target \<noteq> [] \<and>
     (\<forall>c \<in> set target. \<not> blank_char c) \<and> line = verb @ '' '' @ target)"

text \<open>Requests one after the other, each with the answers Windows gives then.\<close>

fun serve_requests ::
  "('q \<Rightarrow> 'd daemon_api) \<Rightarrow> ('q \<times> dash_env \<times> http_request) list \<Rightarrow> session_guard \<times> 'd \<Rightarrow> session_guard \<times> 'd" where
  "serve_requests api [] s = s"
| "serve_requests api ((q, env, req) # rs) (g, d) =
     (let (g', _, d', _) = Handle (api q) env req g d in serve_requests api rs (g', d'))"

locale dashboard_service =
  fixes api :: "'q \<Rightarrow> 'd daemon_api" and keeps :: "'d \<Rightarrow> 'd \<Rightarrow> bool"
  assumes keeps_refl: "keeps d d"
    and keeps_trans: "keeps d d' \<Longrightarrow> keeps d' d'' \<Longrightarrow> keeps d d''"
    and status_keeps: "keeps d (snd (daStatus (api q) d))"
    and command_keeps: "accepted_command line \<Longrightarrow> keeps d (snd (daHandleCommand (api q) line d))"
    and role_keeps: "keeps d (snd (daSetRole (api q) name role c d))"
begin

lemma command_endpoint_keeps: "keeps d (fst (snd (command_endpoint (api q) env body d)))"
proof (rule disjE [OF command_endpoint_calls [of "api q" env body d]])
  show ?thesis if "snd (command_endpoint (api q) env body d) = (d, [])" using that keeps_refl by simp
next
  assume "\<exists>verb target. command_allowed (api q) body d verb target \<and>
      command_endpoint (api q) env body d = do_command (api q) (verb @ '' '' @ target) d"
  then obtain verb target where a: "command_allowed (api q) body d verb target"
      "command_endpoint (api q) env body d = do_command (api q) (verb @ '' '' @ target) d" by blast
  then have "accepted_command (verb @ '' '' @ target)" unfolding accepted_command_def command_allowed_def by blast
  from command_keeps [OF this, of d q] show ?thesis by (simp add: a(2) do_command_def split_beta)
qed

lemma role_endpoint_keeps: "keeps d (fst (snd (role_endpoint (api q) body d)))"
  by (simp add: role_endpoint_def split_beta keeps_refl role_keeps split: sum.split)

lemma post_endpoint_keeps: "keeps d (fst (snd (post_endpoint (api q) env req d)))"
  using command_endpoint_keeps role_endpoint_keeps keeps_refl
  by (simp add: post_endpoint_def split: option.split)

lemma api_endpoint_keeps: "keeps d (fst (snd (snd (api_endpoint (api q) env req d))))"
  using post_endpoint_keeps keeps_refl status_keeps by (simp add: api_endpoint_def Let_def split_beta)

lemma Handle_keeps: "keeps d (fst (snd (snd (Handle (api q) env req g d))))"
  using api_endpoint_keeps keeps_refl
  by (simp add: Handle_def Let_def split_beta split: option.split session_result.split)

lemma requests_keep: "keeps d (snd (serve_requests api rs (g, d)))"
proof (induction rs arbitrary: g d)
  case Nil
  show ?case by (simp add: keeps_refl)
next
  case (Cons r rs)
  obtain q env req where r: "r = (q, env, req)" by (metis prod_cases3)
  show ?case using keeps_trans [OF Handle_keeps [of d q env req g] Cons.IH] by (simp add: r split_beta)
qed

end

section \<open>The daemon keeps its invariant\<close>

lemma api_simps:
  "snd (daStatus (dashboard_api os q) s) = (fst (DashboardStatus os (qeStatus q) (fst s)), snd s)"
  "snd (daHandleCommand (dashboard_api os q) line s) =
     (fst (snd (HandleCommand os (qeCommand q) line (fst s))), snd s @ snd (snd (HandleCommand os (qeCommand q) line (fst s))))"
  "snd (daSetRole (dashboard_api os q) name role c s) =
     (fst (snd (SetRole os (qeRole q) name role c (fst s))), snd s @ snd (snd (SetRole os (qeRole q) name role c (fst s))))"
  by (simp_all add: dashboard_api_def split_beta Let_def)

interpretation dash_inv: dashboard_service "dashboard_api os" "\<lambda>s s'. dm_inv os (fst s) \<longrightarrow> dm_inv os (fst s')" for os
  by unfold_locales (simp_all add: api_simps inv_DashboardStatus inv_HandleCommand inv_SetRole)

section \<open>What the dashboard can make the daemon do\<close>

text \<open>
  Neither stopping the daemon, its pipe or its dashboard, nor writing a file: what is left are calls on
  processes, logs, reports, alerts and the coordination client.
\<close>

fun quiet :: "daemon_effect \<Rightarrow> bool" where
  "quiet DfDashStop = False" | "quiet (DfDashStart p) = False" | "quiet DfPipeStart = False" | "quiet DfPipeStop = False"
| "quiet (DfSleep n) = False" | "quiet DfSignalStop = False" | "quiet (DfWriteFile f t) = False"
| "quiet (DfReplaceFile f t) = False" | "quiet (DfDeleteFile f) = False" | "quiet _ = True"

text \<open>The only files are the configuration and its temporary copy.\<close>

definition dashboard_effect :: "wstring \<Rightarrow> daemon_effect \<Rightarrow> bool" where
  "dashboard_effect path e \<longleftrightarrow> quiet e \<or> (\<exists>t. e = DfWriteFile (path @ ''.tmp'') t) \<or>
     e = DfReplaceFile path (path @ ''.tmp'') \<or> e = DfDeleteFile (path @ ''.tmp'')"

definition contained :: "wstring \<Rightarrow> daemon \<times> daemon_effect list \<Rightarrow> bool" where
  "contained path r \<longleftrightarrow> dmConfigPath (fst r) = path \<and> list_all quiet (snd r)"

lemma quiet_Log [simp]: "list_all quiet (dm_Log d ty fs)"
  by (simp add: dm_Log_def)

lemma quiet_alert [simp]: "list_all quiet (suspension_alert os ti d)"
  by (simp add: suspension_alert_def list_all_iff) (auto simp: dm_Log_def)

lemma contained_effects: "dmConfigPath d = path \<Longrightarrow> contained path (on_effects os es d)"
proof (induction os es d rule: on_effects.induct)
  case (3 os ti es d)
  have "list_all quiet (snd (OnTransition os ti d))"
    by (simp add: OnTransition_def split: option.split)
  moreover have "dmConfigPath (fst (OnTransition os ti d)) = dmConfigPath d" by (simp add: OnTransition_def)
  moreover obtain d1 out1 where "OnTransition os ti d = (d1, out1)" by fastforce
  ultimately show ?case using 3 by (simp add: contained_def split_beta)
qed (simp_all add: contained_def split_beta)

lemma contained_auto: "dmConfigPath d = path \<Longrightarrow> contained path (with_auto os r d)"
proof -
  have a: "list_all quiet (OnAutoProtect os' d' ev e f t det)" for os' d' ev e f t det
    by (simp add: OnAutoProtect_def split: option.split)
  have "list_all quiet (on_auto os d' es)" for d' es
    by (induction os d' es rule: on_auto.induct) (simp_all add: a)
  then show "dmConfigPath d = path \<Longrightarrow> contained path (with_auto os r d)"
    by (simp add: contained_def with_auto_def split_beta Let_def)
qed

lemma contained_force: "dmConfigPath d = path \<Longrightarrow> contained path (force_process os env pid st d)"
  by (simp add: force_process_def split_beta contained_effects)

lemma contained_override_one: "dmConfigPath d = path \<Longrightarrow> contained path (snd (override_one os env v e d))"
proof -
  assume p: "dmConfigPath d = path"
  have h: "contained path (snd (hold_process os env e st said d))" for st said
    using p by (simp add: hold_process_def Let_def split_beta contained_force) (simp add: contained_def)
  have r: "contained path (snd (release_process pid d))" for pid
    using p by (simp add: release_process_def Let_def contained_def)
  have n: "contained path (d, [])" using p by (simp add: contained_def)
  show ?thesis
    by (cases v) (simp_all add: override_one_def Let_def h r n contained_force p)
qed

lemma contained_override_all: "dmConfigPath d = path \<Longrightarrow> contained path (snd (override_all os env said v es d))"
proof (induction es arbitrary: d)
  case (Cons e es)
  have c: "contained path (snd (override_one os env v e d))" using Cons.prems by (rule contained_override_one)
  then have "contained path (snd (override_all os env said v es (fst (snd (override_one os env v e d)))))"
    by (intro Cons.IH) (simp add: contained_def)
  with c show ?case by (simp add: contained_def split_beta override_log_def)
qed (simp add: contained_def)

lemma next_word_plain:
  assumes "\<forall>c \<in> set w. \<not> c_space c" and "w \<noteq> []"
  shows "fst (next_word (w @ '' '' @ rest)) = w"
proof -
  obtain x xs where w: "w = x # xs" using assms(2) by (cases w) auto
  have sp: "c_space CHR '' ''" by code_simp
  have "dropWhile c_space (w @ '' '' @ rest) = w @ '' '' @ rest" using assms(1) by (simp add: w)
  then show ?thesis using assms(1) sp by (simp add: next_word_def Let_def)
qed

lemma accepted_never_stops:
  assumes "accepted_command line"
  shows "map ascii_lower (fst (next_word line)) \<noteq> ''stop''"
proof -
  obtain verb target where v: "verb \<in> set command_verbs" "line = verb @ '' '' @ target"
    using assms unfolding accepted_command_def by blast
  have "list_all (\<lambda>v. v \<noteq> [] \<and> list_all (\<lambda>c. \<not> c_space c) v \<and> map ascii_lower v \<noteq> ''stop'') command_verbs"
    by code_simp
  then have f: "verb \<noteq> [] \<and> list_all (\<lambda>c. \<not> c_space c) verb \<and> map ascii_lower verb \<noteq> ''stop''"
    using v(1) unfolding list_all_iff [of _ command_verbs] by (rule bspec)
  have "fst (next_word line) = verb" unfolding v(2) 
    by (rule next_word_plain) (use f in \<open>unfold list_all_iff, blast+\<close>)
  with f show ?thesis by simp
qed

lemma contained_HandleCommand:
  assumes "accepted_command line"
  shows "contained (dmConfigPath d) (snd (HandleCommand os env line d))"
proof -
  define verb where "verb = map ascii_lower (fst (next_word line))"
  define target where "target = fst (next_word (snd (next_word line)))"
  have n: "contained (dmConfigPath d) (d, [])" by (simp add: contained_def)
  have ex: "contained (dmConfigPath d) (snd (exempt_command os env target d))"
    using contained_auto [of d] by (simp add: exempt_command_def Let_def split_beta n)
  have ov: "contained (dmConfigPath d) (snd (override_command os env verb v target d))" for v
  proof (cases "target = []")
    case True
    then show ?thesis using n by (simp add: override_command_def)
  next
    case False
    have c: "contained (dmConfigPath d) (snd (override_all os (caOs env) verb v es (d\<lparr>dmTrigger := ''manual''\<rparr>)))" for es
      by (rule contained_override_all) simp
    show ?thesis
    proof (cases "command_targets os (caSnapshot env) target")
      case None
      then show ?thesis using n False by (simp add: override_command_def)
    next
      case (Some es)
      then show ?thesis using False n c [of es]
        by (cases es) (simp_all add: override_command_def split_beta Let_def contained_def del: override_all.simps)
    qed
  qed
  have "verb \<noteq> ''stop''" using assms unfolding verb_def by (rule accepted_never_stops)
  then have "snd (HandleCommand os env line d) = (if verb = ''exempt'' then snd (exempt_command os env target d)
      else (case override_of verb of None \<Rightarrow> (d, []) | Some v \<Rightarrow> snd (override_command os env verb v target d))) \<or>
      snd (HandleCommand os env line d) = (d, [])"
    by (simp only: HandleCommand_def Let_def split_beta verb_def [symmetric] target_def [symmetric])
       (simp split: option.split)
  then show ?thesis using n ex ov by (auto split: if_splits option.splits)
qed

section \<open>Role changes\<close>

lemma contained_drop_all: "dmConfigPath d = path \<Longrightarrow> contained path (drop_all os env pids d)"
proof (induction pids arbitrary: d)
  case (Cons pid pids)
  have c: "contained path (drop_one os env pid d)"
    using contained_effects [of "d\<lparr>dmTrigger := ''config_reload''\<rparr>" path] Cons.prems
    by (simp add: drop_one_def Let_def split_beta contained_def)
  then have "contained path (drop_all os env pids (fst (drop_one os env pid d)))"
    by (intro Cons.IH) (simp add: contained_def)
  with c show ?case by (simp add: contained_def split_beta)
qed (simp add: contained_def)

lemma contained_ApplyConfig:
  assumes "dmConfigPath d = path"
  shows "contained path (ApplyConfig os env cfg initial d)"
proof -
  define lg where "lg = log_changed initial cfg (dmCfg d)"
  define d0 where "d0 = d\<lparr>dmDashboardDirty := (dashboard_changed initial cfg (dmCfg d) \<or> dmDashboardDirty d), dmCfg := cfg,
                 dmLogger := (lg \<or> dmLogger d)\<rparr>"
  define r1 where "r1 = apply_thresholds os env cfg d0"
  define r2 where "r2 = apply_telemetry os cfg (fst r1)"
  define r3 where "r3 = drop_all os (avDrop env) (dropped_pids os cfg (fst r2)) (fst r2)"
  define d4 where "d4 = (fst r3)\<lparr>dmAlerter := al_Configure (cfAlertPopup cfg) (cfAlertWebhookUrl cfg) (dmAlerter (fst r3))\<rparr>"
  define r5 where "r5 = apply_protector os env cfg d4"
  define r6 where "r6 = (if coord_changed initial cfg (dmCfg d) then restart_coordination cfg (fst r5) else (fst r5, []))"
  have c1: "contained path r1" unfolding r1_def apply_thresholds_def Let_def split_beta
    by (rule contained_effects) (simp add: d0_def assms)
  have c2: "contained path r2" using c1 unfolding r2_def
    by (simp add: apply_telemetry_def split_beta contained_def list_all_iff)
  have c3: "contained path r3" using c2 unfolding r3_def by (intro contained_drop_all) (simp add: contained_def)
  have c5: "contained path r5" using c3 unfolding r5_def apply_protector_def Let_def split_beta
    by (intro contained_auto) (simp add: d4_def contained_def)
  have c6: "contained path r6" using c5 unfolding r6_def by (simp add: restart_coordination_def contained_def)
  have a: "ApplyConfig os env cfg initial d = (fst r6, (if lg
      then [DfNewLogger (cfLogPath cfg) (nat (cfMaxFileSizeMb cfg) * 1024 * 1024) (cfMaxRotatedFiles cfg)] else []) @
      snd r1 @ snd r2 @ snd r3 @ snd r5 @ snd r6)"
    by (simp only: ApplyConfig_def Let_def split_beta lg_def [symmetric] d0_def [symmetric] r1_def [symmetric]
      r2_def [symmetric] r3_def [symmetric] d4_def [symmetric] r5_def [symmetric] r6_def [symmetric] fst_conv snd_conv)
  show ?thesis using c1 c2 c3 c5 c6 by (simp add: a contained_def)
qed

lemma quiet_Load: "list_all quiet (snd (LoadAndVerify os files acl d))"
  by (simp add: LoadAndVerify_def split: sum.split option.split)

lemma contained_Reload: "contained (dmConfigPath d) (CheckConfigReload os env d)"
proof (cases "rvAttr env")
  case None
  then show ?thesis by (simp add: CheckConfigReload_def contained_def)
next
  case (Some w)
  obtain written high low where w: "rvAttr env = Some (written, high, low)" using Some by (metis prod_cases3)
  define d1 where "d1 = d\<lparr>dmConfigWriteTime := written, dmConfigSize := file_size_of high low\<rparr>"
  obtain loaded out1 where l: "LoadAndVerify os (rvFiles env) (rvAcl env) d1 = (loaded, out1)" by fastforce
  have q: "list_all quiet out1" using quiet_Load [of os "rvFiles env" "rvAcl env" d1] by (simp add: l)
  have p: "dmConfigPath d1 = dmConfigPath d" by (simp add: d1_def)
  show ?thesis
  proof (cases loaded)
    case (Inl e)
    then show ?thesis using w q p
      by (simp add: CheckConfigReload_def Let_def d1_def [symmetric] l contained_def)
  next
    case (Inr cfg)
    obtain d2 out2 where a: "ApplyConfig os (rvApply env) cfg False d1 = (d2, out2)" by fastforce
    have "contained (dmConfigPath d) (d2, out2)" using contained_ApplyConfig [OF p, of os "rvApply env" cfg False] by (simp add: a)
    then show ?thesis using w q p Inr
      by (simp add: CheckConfigReload_def Let_def d1_def [symmetric] l a contained_def)
  qed
qed

lemma contained_SetRole:
  "dmConfigPath (fst (snd (SetRole os env name role c d))) = dmConfigPath d \<and>
   list_all (dashboard_effect (dmConfigPath d)) (snd (snd (SetRole os env name role c d)))"
proof -
  have m: "list_all (dashboard_effect p) es" if "list_all quiet es" for p es
    using that by (induction es) (simp_all add: dashboard_effect_def)
  show ?thesis
    using contained_Reload [of d os "roReload env"] unfolding contained_def
    by (simp add: SetRole_def Let_def split_beta m split: option.split sum.split role_exn.split)
       (simp add: dashboard_effect_def)
qed

text \<open>The second law of the contract: every effect added is one the dashboard may cause.\<close>

definition adds_allowed :: "daemon \<times> daemon_effect list \<Rightarrow> daemon \<times> daemon_effect list \<Rightarrow> bool" where
  "adds_allowed s s' \<longleftrightarrow> dmConfigPath (fst s') = dmConfigPath (fst s) \<and>
     (\<exists>out. snd s' = snd s @ out \<and> list_all (dashboard_effect (dmConfigPath (fst s))) out)"

lemma adds_allowed_trans: "adds_allowed a b \<Longrightarrow> adds_allowed b c \<Longrightarrow> adds_allowed a c"
  unfolding adds_allowed_def by auto

lemma contained_allowed: "contained (dmConfigPath d) (d', out) \<Longrightarrow> adds_allowed (d, o1) (d', o1 @ out)"
  by (auto simp: contained_def adds_allowed_def dashboard_effect_def list_all_iff)

lemma command_allowed_effects:
  assumes "accepted_command line"
  shows "adds_allowed s (snd (daHandleCommand (dashboard_api os q) line s))"
  using contained_HandleCommand [OF assms, of "fst s" os "qeCommand q"]
    contained_allowed [of "fst s" "fst (snd (HandleCommand os (qeCommand q) line (fst s)))" _ "snd s"]
  by (simp add: api_simps)

lemma status_allowed_effects: "adds_allowed s (snd (daStatus (dashboard_api os q) s))"
  by (simp add: api_simps adds_allowed_def DashboardStatus_def system_fields_def Let_def split_beta split: option.split)

lemma role_allowed_effects: "adds_allowed s (snd (daSetRole (dashboard_api os q) name role c s))"
  using contained_SetRole [of os "qeRole q" name role c "fst s"] by (simp add: api_simps adds_allowed_def)

interpretation dash_effects: dashboard_service "dashboard_api os" adds_allowed for os
proof
  show "adds_allowed s s" for s by (simp add: adds_allowed_def)
qed (fact adds_allowed_trans status_allowed_effects command_allowed_effects role_allowed_effects)+

text \<open>
  C2.  Whatever HTTP requests arrive - any number, from anyone, signed in or not, with any answers of
  Windows - the daemon's invariant is kept, its configuration path does not change, and every effect
  they cause is allowed to a dashboard: the daemon is never stopped, nor its pipe or dashboard, and the
  only files written, replaced or deleted are the configuration file and its temporary copy.
\<close>

theorem dashboard_requests_are_contained:
  assumes "dm_inv os d" and "serve_requests (dashboard_api os) requests (g, (d, [])) = (g', (d', out))"
  shows "dm_inv os d' \<and> dmConfigPath d' = dmConfigPath d \<and> (\<forall>e \<in> set out. dashboard_effect (dmConfigPath d) e)"
  using dash_inv.requests_keep [of os "(d, [])" requests g] dash_effects.requests_keep [of "(d, [])" os requests g] assms
  by (auto simp: adds_allowed_def list_all_iff)

definition toy_answers :: request_env where
  "toy_answers = \<lparr>qeStatus = \<lparr>seTick = 0, seWorkingSet = None, seTimes = None, seMemory = None\<rparr>,
     qeReadable = True, qeLog = None, qeProc = toy_proc_env, qeSnapshot = [], qeCommand = toy_command,
     qeRole = \<lparr>roProc = toy_proc_env, roSnapshot = [], roRead = None, roWrite = False, roReplace = None,
       roSha = [], roReload = toy_reload\<rparr>\<rparr>"

theorem dashboard_requests_are_contained_witness:
  "\<exists>d g' d' out. dm_reach toy_daemon_os d \<and>
     serve_requests (dashboard_api toy_daemon_os) [(toy_answers, toy_dash, toy_request)] (toy_guard, (d, [])) = (g', (d', out)) \<and>
     DfSignalStop \<notin> set out \<and> dm_inv toy_daemon_os d'"
proof -
  obtain d where d: "dm_reach toy_daemon_os d" using toy_reach by blast
  obtain g' d' out where h: "serve_requests (dashboard_api toy_daemon_os) [(toy_answers, toy_dash, toy_request)]
      (toy_guard, (d, [])) = (g', (d', out))" by (metis prod_cases3)
  note c = dashboard_requests_are_contained [OF dm_reach_inv [OF toy_refl d] h]
  then have "DfSignalStop \<notin> set out" by (auto simp: dashboard_effect_def)
  with c d h show ?thesis by blast
qed

section \<open>A process identifier with a leading zero\<close>

text \<open>
  \<open>SafetyOf\<close> compares the target with the printed identifier, \<open>HandleCommand\<close> with the number it
  denotes: for \<open>0\<close> followed by a process identifier the safety check sees no process, so no
  confirmation is asked, while the command does reach the process.
\<close>

lemma leading_zero_skips_confirmation:
  fixes pid :: dword
  assumes "e \<in> set snapshot" and "pePid e = pid"
  defines "target \<equiv> CHR ''0'' # to_string (unat pid)"
  shows "siLevel (SafetyOf os penv snapshot target) = SfNormal"
    and "\<exists>es. command_targets os snapshot target = Some es \<and> e \<in> set es"
proof -
  have num: "is_numeric target" using to_string_digits [of "unat pid"]
    by (simp add: target_def is_numeric_def list_all_iff is_digit_def)
  have "to_string m \<noteq> target" for m
  proof
    assume m: "to_string m = target"
    then have "m = unat pid" using digits_value_leading_zero [of "to_string (unat pid)"]
      by (metis digits_value_to_string target_def)
    then show False using m by (simp add: target_def)
  qed
  then have "filter (matches_text os True target) snapshot = []"
    by (simp add: matches_text_def filter_empty_conv)
  then show "siLevel (SafetyOf os penv snapshot target) = SfNormal"
    using num by (simp add: SafetyOf_def target_def no_info_def)
  have "stoul target = Some pid"
    using unsigned_less [of pid] by (simp add: stoul_def target_def digits_value_leading_zero)
  moreover have "snapshot \<noteq> []" using assms(1) by auto
  ultimately show "\<exists>es. command_targets os snapshot target = Some es \<and> e \<in> set es"
    using num assms(1,2) by (simp add: command_targets_def)
qed

end
