(* ===== verification/DaemonController.thy ===== *)
theory DaemonController
  imports Daemon_Properties
begin

text \<open>
  The coordination client (\<open>src/service/Coordination.cpp\<close>) on the daemon: the callbacks that
  \<open>ApplyConfig\<close> gives it are an interpretation of the contract its session relies on, so a controller,
  whatever it sends, keeps the daemon's invariant.
\<close>

text \<open>
  \<open>[this](cmd) { return HandleCommand(cmd); }\<close> with the answers of Windows for one command after the
  other; an exception other than the JSON library's is kept as one of its class.
\<close>

definition command_callback ::
  "daemon_os \<Rightarrow> (nat \<Rightarrow> command_env) \<Rightarrow> string \<Rightarrow> nat \<times> daemon \<times> daemon_effect list
     \<Rightarrow> (json_exn + string) \<times> nat \<times> daemon \<times> daemon_effect list" where
  "command_callback os envs line s =
     (let (n, d, out) = s; (r, d', out') = HandleCommand os (envs n) line d
      in ((case r of None \<Rightarrow> Inl (OutOfRange ''stoul argument out of range'') | Some t \<Rightarrow> Inr t), Suc n, d', out @ out'))"

definition status_callback :: "daemon_os \<Rightarrow> nat \<times> daemon \<times> daemon_effect list \<Rightarrow> string" where
  "status_callback os s = StatusJson os (fst (snd s))"

interpretation controller_inv: controller_service "command_callback os envs"
  "\<lambda>s s'. dm_inv os (fst (snd s)) \<longrightarrow> dm_inv os (fst (snd s'))" for os envs
  by unfold_locales (simp_all add: command_callback_def split_beta Let_def inv_HandleCommand)

interpretation controller_cfg: controller_service "command_callback os envs"
  "\<lambda>s s'. dmCfg (fst (snd s')) = dmCfg (fst (snd s))" for os envs
  by unfold_locales (simp_all add: command_callback_def split_beta Let_def command_cfg)

text \<open>
  A controller can neither break the invariant nor change the configuration, over any number of
  connections.
\<close>

lemma controller_keeps_invariant:
  assumes "dm_inv os d"
    and "coord_Loop cr (status_callback os) (command_callback os envs) host attempts backoffMs (c, (n, d, out)) =
      (e, (c', (n', d', out')), effects, waits)"
  shows "dm_inv os d' \<and> dmCfg d' = dmCfg d"
proof -
  let ?r = "coord_Loop cr (status_callback os) (command_callback os envs) host attempts backoffMs (c, (n, d, out))"
  have "dm_inv os (fst (snd (snd (c, (n, d, out))))) \<longrightarrow> dm_inv os (fst (snd (snd (fst (snd ?r)))))"
    by (rule controller_inv.thread_keeps)
  moreover have "dmCfg (fst (snd (snd (fst (snd ?r))))) = dmCfg (fst (snd (snd (c, (n, d, out)))))"
    by (rule controller_cfg.thread_keeps)
  ultimately show ?thesis using assms by simp
qed

end
