(* ===== verification/LogReader.thy ===== *)
theory LogReader
  imports DaemonCommands LogChain_Facts
begin

text \<open>
  What the dashboard's log reader (\<open>Daemon::ReadLog\<close>, \<open>src/service/Daemon.cpp\<close>) returns: a client that
  follows the log from page to page sees every complete line exactly once and in order, and gets to
  the end of the log when no line is longer than one read.
\<close>

section \<open>Searching for a character\<close>

lemma find_char_split: "c \<notin> set l \<Longrightarrow> find_char c (l @ c # r) = Some (length l)"
  by (induction l) auto

lemma find_char_cases:
  obtains "find_char c s = None" "c \<notin> set s"
  | l r where "s = l @ c # r" "c \<notin> set l" "find_char c s = Some (length l)"
proof (cases "c \<in> set s")
  case True
  then obtain l r where "s = l @ c # r" "c \<notin> set l" using split_list_first by metis
  then show ?thesis using that(2) find_char_split by metis
next
  case False
  then have "find_char c s = None" by (induction s) auto
  then show ?thesis using False that(1) by blast
qed

lemma rfind_char_split: "c \<notin> set r \<Longrightarrow> rfind_char c (l @ c # r) = Some (length l)"
  using find_char_split [of c "rev r" "rev l"] by (simp add: rfind_char_def)

lemma rfind_char_None: "rfind_char c s = None \<longleftrightarrow> c \<notin> set s"
proof -
  have "find_char c t = None \<longleftrightarrow> c \<notin> set t" for t by (induction t) auto
  then show ?thesis by (simp add: rfind_char_def split: option.split) (metis option.distinct(1) set_rev)
qed

section \<open>Lines up to a boundary\<close>

definition line_boundary :: "nat \<Rightarrow> string \<Rightarrow> bool" where
  "line_boundary n s \<longleftrightarrow> n \<le> length s \<and> (n = 0 \<or> s ! (n - 1) = newline)"

lemma getlines_nonempty: "s \<noteq> [] \<Longrightarrow> getlines s \<noteq> []"
  by (cases s) (simp_all split: list.split)

lemma getlines_append:
  assumes "s = [] \<or> last s = newline"
  shows "getlines (s @ t) = getlines s @ getlines t"
  using assms
proof (induction s)
  case (Cons c cs)
  show ?case
  proof (cases "cs = []")
    case False
    then have "getlines (cs @ t) = getlines cs @ getlines t" using Cons by simp
    then show ?thesis using getlines_nonempty [OF False] by (cases "getlines cs") simp_all
  qed (use Cons in simp)
qed simp

lemma line_boundary_last: "line_boundary n s \<Longrightarrow> take n s = [] \<or> last (take n s) = newline"
  using last_conv_nth [of "take n s"] by (cases "take n s = []") (auto simp: line_boundary_def)

lemma getlines_boundary:
  assumes "line_boundary n s" and "n \<le> m"
  shows "getlines (take m s) = getlines (take n s) @ getlines (drop n (take m s))"
proof -
  have "take m s = take n s @ drop n (take m s)" using assms(2) by (metis append_take_drop_id min.absorb1 take_take)
  then show ?thesis using getlines_append [OF line_boundary_last [OF assms(1)]] by metis
qed

text \<open>The reader's loop returns exactly those lines.\<close>

lemma lines_between_lines:
  assumes "p \<le> stop" and "stop \<le> length buf" and "p = stop \<or> buf ! (stop - 1) = newline"
  shows "lines_between buf p stop = map chomp (getlines (drop p (take stop buf)))"
  using assms
proof (induction buf p stop rule: lines_between.induct)
  case (1 buf p stop)
  show ?case
  proof (cases "p < stop")
    case False
    then show ?thesis by (subst lines_between.simps) simp
  next
    case True
    let ?s = "drop p (take stop buf)"
    have nl: "buf ! (stop - 1) = newline" using 1(4) True by simp
    have "?s ! (stop - 1 - p) = newline" "stop - 1 - p < length ?s" using True 1(3) nl by simp_all
    then have "newline \<in> set ?s" by (metis nth_mem)
    then obtain l r where s: "?s = l @ newline # r" "newline \<notin> set l" using split_list_first by metis
    have "drop p buf = ?s @ drop stop buf" using 1(2,3) by (metis append_take_drop_id drop_append diff_is_0_eq drop_0 length_take min.absorb2)
    then have d: "drop p buf = l @ newline # r @ drop stop buf" using s by simp
    have f: "find_char newline (drop p buf) = Some (length l)" unfolding d using find_char_split [OF s(2)] by simp
    have len: "p + length l < stop" using arg_cong [OF s(1), of length] True 1(3) by simp
    have r: "r = drop (p + length l + 1) (take stop buf)"
    proof -
      have "drop (length l + 1) ?s = r" by (simp add: s(1))
      then show ?thesis by (simp add: add.commute add.left_commute)
    qed
    have "lines_between buf (p + length l + 1) stop = map chomp (getlines r)"
      using 1(1) [OF True refl] f len 1(3) nl r by simp
    moreover have "lines_between buf p stop = chomp (take (length l) (drop p buf)) # lines_between buf (p + length l + 1) stop"
      using True f len by (subst lines_between.simps) simp
    ultimately show ?thesis using s by (simp add: d getlines_line)
  qed
qed

section \<open>One page\<close>

lemma last_line_end_boundary:
  "line_boundary (last_line_end 0 buf) buf \<and> newline \<notin> set (drop (last_line_end 0 buf) buf)"
proof (cases "newline \<in> set buf")
  case True
  then obtain l r where "buf = l @ newline # r" "newline \<notin> set r" using split_list_last by metis
  then show ?thesis by (simp add: last_line_end_def rfind_char_split line_boundary_def)
next
  case False
  then have "rfind_char newline buf = None" by (simp add: rfind_char_None)
  then show ?thesis using False by (simp add: last_line_end_def line_boundary_def)
qed

lemma last_line_end_zero: "last_line_end 0 buf = 0 \<longleftrightarrow> newline \<notin> set buf"
  using last_line_end_boundary [of buf]
  by (auto simp: last_line_end_def rfind_char_None [symmetric] split: option.splits)

text \<open>How far a page that starts at \<open>n\<close> gets.\<close>

definition page_end :: "nat \<Rightarrow> string \<Rightarrow> nat" where
  "page_end n content = n + last_line_end 0 (take (nat kMaxRead) (drop n content))"

lemma page_end_ge: "n \<le> page_end n content"
  by (simp add: page_end_def)

lemma page_end_boundary:
  assumes "line_boundary n content"
  shows "line_boundary (page_end n content) content"
proof -
  let ?buf = "take (nat kMaxRead) (drop n content)" and ?e = "last_line_end 0 (take (nat kMaxRead) (drop n content))"
  have b: "line_boundary ?e ?buf" using last_line_end_boundary by blast
  have n: "n \<le> length content" using assms by (simp add: line_boundary_def)
  show ?thesis
  proof (cases "?e = 0")
    case True
    then show ?thesis using assms by (simp add: page_end_def)
  next
    case False
    then have e: "?e \<le> length ?buf" "?buf ! (?e - 1) = newline" using b by (simp_all add: line_boundary_def)
    have "?e - 1 < nat kMaxRead" using e(1) False by simp linarith
    then have "?buf ! (?e - 1) = drop n content ! (?e - 1)" by (rule nth_take)
    also have "\<dots> = content ! (n + (?e - 1))" using n by (rule nth_drop)
    finally have "?buf ! (?e - 1) = content ! (n + (?e - 1))" .
    moreover have "n + (?e - 1) = n + ?e - 1" using False by simp
    ultimately have "content ! (n + ?e - 1) = newline" using e(2) by simp
    moreover have "n + ?e \<le> length content" using e(1) n by simp linarith
    ultimately show ?thesis using False by (simp add: page_end_def line_boundary_def)
  qed
qed

lemma log_page_lines:
  assumes "line_boundary n content"
  shows "log_page True (int n) content =
    (map chomp (getlines (drop n (take (page_end n content) content))), int (page_end n content), False)"
proof -
  let ?buf = "take (nat kMaxRead) (drop n content)" and ?e = "last_line_end 0 (take (nat kMaxRead) (drop n content))"
  have n: "n \<le> length content" using assms by (simp add: line_boundary_def)
  have b: "line_boundary ?e ?buf" using last_line_end_boundary by blast
  have len: "nat (min (int (length content) - int n) kMaxRead) = min (length content - n) (nat kMaxRead)"
    using n by (simp add: min_def nat_diff_distrib)
  have buf: "take (min (length content - n) (nat kMaxRead)) (drop n content) = ?buf" by (simp add: min_def)
  have "log_page True (int n) content = (lines_between ?buf 0 ?e, int n + int ?e, False)"
    using n by (simp add: log_page_def read_from_def first_line_at_def len buf Let_def)
  moreover have "lines_between ?buf 0 ?e = map chomp (getlines (take ?e ?buf))"
    using lines_between_lines [of 0 ?e ?buf] b by (auto simp: line_boundary_def)
  moreover have "take ?e ?buf = drop n (take (page_end n content) content)"
    using b by (simp add: page_end_def line_boundary_def drop_take)
  ultimately show ?thesis by (simp add: page_end_def)
qed

section \<open>Following the log\<close>

text \<open>A client that asks again from the offset it was given, while the log grows.\<close>

fun follow :: "int \<Rightarrow> string list \<Rightarrow> string list \<times> int" where
  "follow off [] = ([], off)"
| "follow off (c # cs) =
     (let (ls, next, reset) = log_page True off c; (ls', off') = follow next cs in (ls @ ls', off'))"

lemma boundary_prefix: "line_boundary n s \<Longrightarrow> prefix s t \<Longrightarrow> line_boundary n t \<and> take n t = take n s"
  by (cases "n = 0") (auto simp: line_boundary_def prefix_def nth_append)

lemma boundary_drop:
  assumes "line_boundary p s" and "n \<le> p" and "p \<le> m" and "m \<le> length s"
  shows "line_boundary (p - n) (drop n (take m s))"
proof (cases "p = n")
  case False
  then have "drop n (take m s) ! (p - n - 1) = take m s ! (n + (p - n - 1))" using assms by (intro nth_drop) simp
  also have "\<dots> = take m s ! (p - 1)" using False assms(2) by simp
  also have "\<dots> = s ! (p - 1)" using False assms by (intro nth_take) simp
  finally show ?thesis using assms False by (simp add: line_boundary_def)
qed (simp add: line_boundary_def)

lemma follow_lines:
  assumes "line_boundary n c" and "sorted_wrt prefix (c # cs)"
  shows "\<exists>m. follow (int n) (c # cs) = (map chomp (getlines (drop n (take m (last (c # cs))))), int m) \<and>
    n \<le> m \<and> line_boundary m (last (c # cs))"
  using assms
proof (induction cs arbitrary: n c)
  case Nil
  show ?case
    using log_page_lines [OF Nil.prems(1)] page_end_boundary [OF Nil.prems(1)] page_end_ge [of n c]
    by (intro exI [of _ "page_end n c"]) simp
next
  case (Cons d ds)
  let ?p = "page_end n c" and ?z = "last (d # ds)"
  have bp: "line_boundary ?p c" by (rule page_end_boundary [OF Cons.prems(1)])
  have cd: "prefix c d" and sd: "sorted_wrt prefix (d # ds)" using Cons.prems(2) by simp_all
  have cz: "prefix c ?z" using Cons.prems(2) by (auto simp: last_conv_nth)
  obtain m where m: "follow (int ?p) (d # ds) = (map chomp (getlines (drop ?p (take m ?z))), int m)"
      "?p \<le> m" "line_boundary m ?z"
    using Cons.IH [OF _ sd, of ?p] boundary_prefix [OF bp cd] by blast
  have nb: "line_boundary n ?z" using boundary_prefix [OF Cons.prems(1) cz] by blast
  have pb: "line_boundary (?p - n) (drop n (take m ?z))"
    using boundary_prefix [OF bp cz] m(2,3) page_end_ge [of n c] by (intro boundary_drop) (auto simp: line_boundary_def)
  have "drop n (take ?p c) = take (?p - n) (drop n (take m ?z))"
    using boundary_prefix [OF bp cz] m(2) by (metis drop_take min.absorb1 take_take)
  moreover have "drop ?p (take m ?z) = drop (?p - n) (drop n (take m ?z))" using page_end_ge [of n c] by simp
  ultimately have "getlines (drop n (take m ?z)) = getlines (drop n (take ?p c)) @ getlines (drop ?p (take m ?z))"
    using getlines_append [OF line_boundary_last [OF pb]] by (metis append_take_drop_id)
  then have "follow (int n) (c # d # ds) = (map chomp (getlines (drop n (take m ?z))), int m)"
    using m(1) log_page_lines [OF Cons.prems(1)] by (simp del: follow.simps(2) add: follow.simps(2) [of "int n"])
  then show ?case using m page_end_ge [of n c] by (metis last_ConsR le_trans list.distinct(1))
qed

lemma follow_append: "snd (follow off (xs @ ys)) = snd (follow (snd (follow off xs)) ys)"
  by (induction xs arbitrary: off) (simp_all add: split_beta)

section \<open>Reaching the end\<close>

lemma page_progress:
  assumes "line_boundary n c" and "newline \<in> set (drop n c)" and "\<forall>l \<in> set (getlines c). length l < nat kMaxRead"
  shows "n < page_end n c"
proof -
  obtain l r where d: "drop n c = l @ newline # r" "newline \<notin> set l" using assms(2) split_list_first by metis
  have "getlines c = getlines (take n c) @ getlines (drop n c)"
    using getlines_append [OF line_boundary_last [OF assms(1)], of "drop n c"] by simp
  then have "l \<in> set (getlines c)" by (simp add: d getlines_line)
  then have "length l < nat kMaxRead" using assms(3) by blast
  then have "newline \<in> set (take (nat kMaxRead) (drop n c))" by (simp add: d take_Cons' Suc_diff_Suc)
  then show ?thesis using last_line_end_zero [of "take (nat kMaxRead) (drop n c)"] by (simp add: page_end_def)
qed

lemma page_at_end: "newline \<notin> set (drop n c) \<Longrightarrow> page_end n c = n"
  using last_line_end_zero [of "take (nat kMaxRead) (drop n c)"] by (simp add: page_end_def) (meson in_set_takeD)

lemma follow_repeated:
  assumes "line_boundary n c" and "\<forall>l \<in> set (getlines c). length l < nat kMaxRead"
  shows "\<exists>m. snd (follow (int n) (replicate k c)) = int m \<and> line_boundary m c \<and> (newline \<notin> set (drop m c) \<or> n + k \<le> m)"
  using assms(1)
proof (induction k arbitrary: n)
  case 0
  then show ?case by auto
next
  case (Suc k)
  obtain m where m: "snd (follow (int (page_end n c)) (replicate k c)) = int m" "line_boundary m c"
      "newline \<notin> set (drop m c) \<or> page_end n c + k \<le> m"
    using Suc.IH [OF page_end_boundary [OF Suc.prems]] by blast
  have step: "snd (follow (int n) (replicate (Suc k) c)) = int m"
    using m(1) by (simp add: log_page_lines [OF Suc.prems] split_beta)
  show ?case
  proof (cases "newline \<in> set (drop n c)")
    case True
    then have "n < page_end n c" by (rule page_progress [OF Suc.prems _ assms(2)])
    then show ?thesis using step m by (intro exI [of _ m]) auto
  next
    case False
    have "newline \<notin> set (drop m c)"
    proof -
      have "snd (follow (int n) (replicate j c)) = int n" for j
        by (induction j) (simp_all add: log_page_lines [OF Suc.prems] page_at_end [OF False] split_beta)
      then have "m = n" using step by (metis of_nat_eq_iff)
      with False show ?thesis by simp
    qed
    then show ?thesis using step m by blast
  qed
qed

lemma boundary_unique:
  assumes "line_boundary m c" "newline \<notin> set (drop m c)" and "line_boundary k c" "newline \<notin> set (drop k c)"
  shows "m = k"
proof -
  have "False" if "a < b" "line_boundary b c" "newline \<notin> set (drop a c)" for a b
  proof -
    have b: "b - 1 < length c" "c ! (b - 1) = newline" "a \<le> b - 1" using that by (auto simp: line_boundary_def)
    have "drop a c ! (b - 1 - a) = c ! (a + (b - 1 - a))" using b by (intro nth_drop) simp
    also have "a + (b - 1 - a) = b - 1" using b(3) by simp
    finally have "drop a c ! (b - 1 - a) = newline" "b - 1 - a < length (drop a c)" using b that(1) by auto
    then show False using that(3) by (metis nth_mem)
  qed
  then show ?thesis using assms by (meson linorder_neqE_nat)
qed

text \<open>
  C10.  A client that follows the log by its offsets, while lines are appended to it, has at any time
  seen exactly the complete lines up to its offset, each once and in order, and never a part of a line;
  and when no line is as long as one read (1 MiB), asking often enough for a log that no longer grows
  brings it to the end of the last complete line.
\<close>

theorem log_follower_reads_every_line:
  assumes "contents \<noteq> []" and "sorted_wrt prefix contents" and "follow 0 contents = (ls, next)"
  shows "(\<exists>n. next = int n \<and> line_boundary n (last contents) \<and> ls = map chomp (getlines (take n (last contents)))) \<and>
    ((\<forall>l \<in> set (getlines (last contents)). length l < nat kMaxRead) \<and>
     suffix (replicate (Suc (length (last contents))) (last contents)) contents \<longrightarrow>
     next = int (last_line_end 0 (last contents)))"
proof (intro conjI impI)
  obtain c cs where c: "contents = c # cs" using assms(1) by (cases contents) auto
  have z: "line_boundary 0 c" by (simp add: line_boundary_def)
  then obtain m where m: "follow 0 contents = (map chomp (getlines (take m (last contents))), int m)" "line_boundary m (last contents)"
    using follow_lines [OF z, of cs] assms(2) unfolding c by auto
  then show "\<exists>n. next = int n \<and> line_boundary n (last contents) \<and> ls = map chomp (getlines (take n (last contents)))"
    using assms(3) by auto
  let ?z = "last contents"
  assume s: "(\<forall>l \<in> set (getlines ?z). length l < nat kMaxRead) \<and> suffix (replicate (Suc (length ?z)) ?z) contents"
  then obtain xs where xs: "contents = xs @ replicate (Suc (length ?z)) ?z" unfolding suffix_def by blast
  obtain n where n: "snd (follow 0 xs) = int n" "line_boundary n ?z"
  proof (cases xs)
    case Nil
    then show ?thesis using that [of 0] by (simp add: line_boundary_def)
  next
    case (Cons a as)
    have p: "sorted_wrt prefix (a # as)" and q: "\<forall>x \<in> set xs. prefix x ?z"
      using assms(2) by (subst (asm) xs, simp add: sorted_wrt_append Cons)+
    obtain n where "snd (follow 0 xs) = int n" "line_boundary n (last xs)"
      using follow_lines [of 0 a as, OF _ p] by (auto simp: Cons line_boundary_def)
    moreover have "prefix (last xs) ?z" using q Cons by simp
    ultimately show ?thesis using that boundary_prefix by blast
  qed
  obtain m where m: "snd (follow (int n) (replicate (Suc (length ?z)) ?z)) = int m" "line_boundary m ?z"
      "newline \<notin> set (drop m ?z) \<or> n + Suc (length ?z) \<le> m"
    using follow_repeated [OF n(2)] s by blast
  have "m \<le> length ?z" using m(2) by (simp add: line_boundary_def)
  then have "newline \<notin> set (drop m ?z)" using m(3) by simp
  then have "m = last_line_end 0 ?z" using boundary_unique [OF m(2)] last_line_end_boundary by blast
  moreover have "next = int m" using assms(3) m(1) n(1) follow_append [of 0 xs] by (metis xs snd_conv)
  ultimately show "next = int (last_line_end 0 ?z)" by simp
qed

definition toy_log :: string where
  "toy_log = ''{}'' @ [newline]"

theorem log_follower_reads_every_line_witness:
  "snd (follow 0 (replicate 4 toy_log)) = 3"
proof -
  have c: "replicate 4 toy_log \<noteq> []" "sorted_wrt prefix (replicate 4 toy_log)" "last (replicate 4 toy_log) = toy_log"
    by (simp_all add: numeral_eq_Suc)
  obtain ls off where f: "follow 0 (replicate 4 toy_log) = (ls, off)" by fastforce
  have "replicate (Suc (length toy_log)) toy_log = replicate 4 toy_log" by (simp add: toy_log_def numeral_eq_Suc)
  then have "suffix (replicate (Suc (length toy_log)) toy_log) (replicate 4 toy_log)" by simp
  moreover have "\<forall>l \<in> set (getlines toy_log). length l < nat kMaxRead"
    by (simp add: toy_log_def newline_def kMaxRead_def)
  moreover have "last_line_end 0 toy_log = 3"
    using rfind_char_split [of newline "[]" "''{}''"] by (simp add: last_line_end_def toy_log_def)
  ultimately show ?thesis using log_follower_reads_every_line [OF c(1,2) f] f by (simp add: c(3))
qed

text \<open>A line as long as one read is never passed: the reader gives the same empty page for ever.\<close>

lemma long_line_stalls_reader:
  assumes "line_boundary n content" and "newline \<notin> set (take (nat kMaxRead) (drop n content))"
  shows "log_page True (int n) content = ([], int n, False)"
proof -
  have "page_end n content = n" using assms(2) last_line_end_zero by (simp add: page_end_def)
  then show ?thesis using log_page_lines [OF assms(1)] by simp
qed

end
