(* ===== verification/ControlPipe.thy ===== *)
theory ControlPipe
  imports DaemonCommands
begin

text \<open>
  \<open>src/service/ControlPipe.h/.cpp\<close>: the named pipe between the command line and the daemon.  The
  server handles one message per connection; its thread and the thread that stops it are a step
  relation.  Windows' answers are arguments.
\<close>

section \<open>The server\<close>

text \<open>The SID of the process token's user as text; \<open>None\<close> answers are failed calls.\<close>

record sid_answers =
  siaOpened :: bool
  siaUser :: "wstring option option"

definition CurrentUserSidString :: "sid_answers \<Rightarrow> wstring" where
  "CurrentUserSidString a =
     (if \<not> siaOpened a then []
      else (case siaUser a of Some (Some sid) \<Rightarrow> sid | _ \<Rightarrow> []))"

text \<open>Only SYSTEM, administrators and the account itself (when its SID is known) may connect.\<close>

definition pipe_sddl :: "wstring \<Rightarrow> wstring" where
  "pipe_sddl self = ''D:P(A;;GA;;;SY)(A;;GA;;;BA)'' @ (if self \<noteq> [] then ''(A;;GA;;;'' @ self @ '')'' else [])"

definition kPipeBuffer :: nat where "kPipeBuffer = 4096"

text \<open>
  A connected client's message: \<open>ReadFile\<close> fails with \<open>ERROR_MORE_DATA\<close> on a message longer than the
  buffer.  The third component is what is written back, when anything is.
\<close>

definition pipe_connection ::
  "daemon_os \<Rightarrow> command_env \<Rightarrow> string option \<Rightarrow> daemon \<Rightarrow> (string option \<times> daemon \<times> daemon_effect list) option" where
  "pipe_connection os env message d = (case message of
       None \<Rightarrow> Some (None, d, [])
     | Some req \<Rightarrow>
         if req = [] \<or> length req > kPipeBuffer - 1 then Some (None, d, [])
         else (case pipe_request os env req d of
             (None, _, _) \<Rightarrow> None
           | (Some response, d', out) \<Rightarrow> Some (Some response, d', out)))"

text \<open>
  \<open>None\<close>: the handler threw, and nothing in the thread catches it.  A client that waits has its answer
  or nothing.
\<close>

section \<open>The client\<close>

datatype open_answer = OpenOk | OpenDenied | OpenFailed

record send_answers =
  saWait :: "bool option"
  saOpen :: open_answer
  saWrite :: bool
  saReads :: "(bool \<times> bool \<times> string) list"

text \<open>
  The read loop: success, whether the error was \<open>ERROR_MORE_DATA\<close>, and the bytes read.  The list ends
  with the read that ends the loop.
\<close>

fun read_chunks :: "(bool \<times> bool \<times> string) list \<Rightarrow> string \<Rightarrow> bool \<times> string" where
  "read_chunks [] response = (False, response)"
| "read_chunks ((ok, again, bytes) # rest) response =
     (if ok \<or> \<not> again then (ok, response @ bytes) else read_chunks rest (response @ bytes))"

text \<open>\<open>saWait\<close>: \<open>None\<close> when the pipe is there, otherwise whether the error was \<open>ERROR_FILE_NOT_FOUND\<close>.\<close>

definition SendControlRequest :: "send_answers \<Rightarrow> bool \<times> string" where
  "SendControlRequest an = (case saWait an of
       Some missing \<Rightarrow> (False, if missing then ''daemon is not running'' else ''daemon did not answer'')
     | None \<Rightarrow>
         (case saOpen an of
            OpenDenied \<Rightarrow> (False, ''access denied: run this command as Administrator'')
          | OpenFailed \<Rightarrow> (False, ''could not connect to daemon'')
          | OpenOk \<Rightarrow> if saWrite an then read_chunks (saReads an) [] else (False, [])))"

lemma read_chunks_message:
  assumes "\<forall>c \<in> set cs. \<not> fst c \<and> fst (snd c)"
  shows "read_chunks (cs @ [(True, again, lst)]) response = (True, response @ concat (map (snd \<circ> snd) cs) @ lst)"
  using assms by (induction cs arbitrary: response) auto

section \<open>Stopping\<close>

text \<open>
  Where the server's thread is - testing \<open>stopping_\<close>, creating an instance, waiting for a connection,
  serving, closing the instance, ended - and where the thread in \<open>Stop\<close> is.
\<close>

datatype server_at = SvTest | SvCreate | SvWait | SvServe | SvClose | SvEnd
datatype stop_at = StSet | StOpen | StJoin | StReturned

type_synonym pipe_state = "bool \<times> server_at \<times> stop_at"

definition pipe_start :: pipe_state where "pipe_start = (False, SvTest, StSet)"

text \<open>
  \<open>clients\<close>: whether other clients may connect.  The stopping thread's own connection succeeds only
  while an instance waits; otherwise there is no pipe or its one instance is busy, and the failure is
  ignored.
\<close>

inductive pipe_step :: "bool \<Rightarrow> pipe_state \<Rightarrow> pipe_state \<Rightarrow> bool" for clients where
  test: "pipe_step clients (stopping, SvTest, t) (stopping, if stopping then SvEnd else SvCreate, t)"
| created: "pipe_step clients (stopping, SvCreate, t) (stopping, SvWait, t)"
| not_created: "pipe_step clients (stopping, SvCreate, t) (stopping, SvTest, t)"
| client: "clients \<Longrightarrow> pipe_step clients (stopping, SvWait, t) (stopping, if stopping then SvClose else SvServe, t)"
| served: "pipe_step clients (stopping, SvServe, t) (stopping, SvClose, t)"
| closed: "pipe_step clients (stopping, SvClose, t) (stopping, SvTest, t)"
| set: "pipe_step clients (stopping, sv, StSet) (True, sv, StOpen)"
| opened: "pipe_step clients (stopping, SvWait, StOpen) (stopping, SvClose, StJoin)"
| not_opened: "sv \<noteq> SvWait \<Longrightarrow> pipe_step clients (stopping, sv, StOpen) (stopping, sv, StJoin)"
| joined: "pipe_step clients (stopping, SvEnd, StJoin) (stopping, SvEnd, StReturned)"

inductive_cases pipe_stepE: "pipe_step clients s s'"

code_pred (modes: i \<Rightarrow> i \<Rightarrow> o \<Rightarrow> bool) pipe_step .

text \<open>The window: the server has found \<open>stopping_\<close> unset and has no instance yet.\<close>

lemma pipe_stop_hangs:
  "(pipe_step clients)\<^sup>*\<^sup>* pipe_start (True, SvWait, StJoin)" "\<not> (\<exists>s'. pipe_step False (True, SvWait, StJoin) s')"
proof -
  have "pipe_step clients pipe_start (False, SvCreate, StSet)" unfolding pipe_start_def using pipe_step.test [of clients False StSet] by simp
  moreover have "pipe_step clients (False, SvCreate, StSet) (True, SvCreate, StOpen)" by (rule pipe_step.set)
  moreover have "pipe_step clients (True, SvCreate, StOpen) (True, SvCreate, StJoin)" by (rule pipe_step.not_opened) simp
  moreover have "pipe_step clients (True, SvCreate, StJoin) (True, SvWait, StJoin)" by (rule pipe_step.created)
  ultimately show "(pipe_step clients)\<^sup>*\<^sup>* pipe_start (True, SvWait, StJoin)" by (meson converse_rtranclp_into_rtranclp rtranclp.rtrancl_refl)
  show "\<not> (\<exists>s'. pipe_step False (True, SvWait, StJoin) s')" by (auto elim: pipe_stepE)
qed

text \<open>Outside that window every way on leads to the return: the steps left are bounded by a measure.\<close>

fun stop_rank :: "pipe_state \<Rightarrow> nat" where
  "stop_rank (st, sv, t) =
     (case t of StSet \<Rightarrow> 30 | StOpen \<Rightarrow> 20 | StJoin \<Rightarrow> 10 | StReturned \<Rightarrow> 0) +
     (case sv of SvServe \<Rightarrow> 4 | SvClose \<Rightarrow> 3 | SvWait \<Rightarrow> 5 | SvTest \<Rightarrow> 2 | SvCreate \<Rightarrow> 1 | SvEnd \<Rightarrow> 0)"

definition safe_stop :: "pipe_state \<Rightarrow> bool" where
  "safe_stop s \<longleftrightarrow> (\<exists>sv t. s = (True, sv, t) \<and> t \<noteq> StSet \<and> sv \<noteq> SvCreate \<and>
     (sv = SvWait \<longrightarrow> t = StOpen) \<and> (t = StReturned \<longrightarrow> sv = SvEnd))"

lemma safe_stop_step:
  assumes "safe_stop s" and "pipe_step clients s s'"
  shows "safe_stop s' \<and> stop_rank s' < stop_rank s"
  using assms(2,1) by (cases rule: pipe_step.cases) (auto simp: safe_stop_def)

lemma safe_stop_progress:
  assumes "safe_stop s" and "snd (snd s) \<noteq> StReturned"
  shows "\<exists>s'. pipe_step clients s s'"
proof -
  obtain sv t where s: "s = (True, sv, t)" "t \<noteq> StSet" "sv \<noteq> SvCreate" "sv = SvWait \<longrightarrow> t = StOpen" "t \<noteq> StReturned"
    using assms by (auto simp: safe_stop_def)
  show ?thesis
    unfolding s(1) using s by (cases sv; cases t) (auto intro: pipe_step.intros pipe_step.not_opened [of SvEnd, simplified])
qed

lemma safe_stop_returns:
  assumes "safe_stop s"
  shows "\<exists>s'. (pipe_step clients)\<^sup>*\<^sup>* s s' \<and> snd (snd s') = StReturned"
  using assms
proof (induction s rule: measure_induct_rule [where f = stop_rank])
  case (less s)
  show ?case
  proof (cases "snd (snd s) = StReturned")
    case False
    then obtain s1 where s1: "pipe_step clients s s1" using safe_stop_progress [OF less.prems] by blast
    then show ?thesis using less.IH [of s1] safe_stop_step [OF less.prems s1] by (meson converse_rtranclp_into_rtranclp)
  qed blast
qed



end
