(* ===== verification/SelfCheck.thy ===== *)
theory SelfCheck
  imports Daemon Config_Properties
begin

text \<open>
  \<open>src/service/SelfCheck.cpp\<close>: the audit of an installation.  \<open>check_env\<close> is what Windows answers;
  a line of the report is its level, the name of the check and the detail.
\<close>

datatype check_level = CkPass | CkInfo | CkWarn | CkFail

type_synonym check_line = "check_level \<times> string \<times> string"

datatype account_answer = AcNoService | AcUnreadable | AcName wstring

record check_env =
  ckDenied :: bool
  ckFiles :: "wstring \<Rightarrow> string option"
  ckExists :: "wstring \<Rightarrow> bool"
  ckAcl :: "wstring \<Rightarrow> dacl_answer"
  ckParent :: "wstring \<Rightarrow> wstring"
  ckAlike :: "wstring \<Rightarrow> wstring \<Rightarrow> bool"
  ckAccount :: account_answer
  ckCrypto :: crypto_os

definition IsLoopback :: "check_env \<Rightarrow> wstring \<Rightarrow> bool" where
  "IsLoopback env host \<longleftrightarrow> host = ''127.0.0.1'' \<or> host = ''::1'' \<or> ckAlike env host ''localhost''"

definition CheckServiceAccount :: "daemon_os \<Rightarrow> check_env \<Rightarrow> check_line list" where
  "CheckServiceAccount os env = (case ckAccount env of
       AcNoService \<Rightarrow> [(CkInfo, ''Service account'', ''service not installed (or no access); skipped'')]
     | AcName account \<Rightarrow>
         (if ckAlike env account ''LocalSystem'' then
            [(CkInfo, ''Service account'', ''LocalSystem: full control of all processes. If the managed programs run '' @
               ''under one service account, install.ps1 -Account Virtual limits the blast radius'')]
          else [(CkPass, ''Service account'', Narrow os account @ '' (reduced privilege)'')])
     | AcUnreadable \<Rightarrow> [(CkWarn, ''Service account'', ''could not read the service configuration'')])"

text \<open>\<open>rawString\<close>: a string member of a section of the file as it is, before any decryption.\<close>

definition raw_string :: "json option \<Rightarrow> string \<Rightarrow> string \<Rightarrow> string" where
  "raw_string raw section key = (case raw of
       None \<Rightarrow> []
     | Some j \<Rightarrow>
         (case jfind j section of
            None \<Rightarrow> []
          | Some s \<Rightarrow> (if \<not> is_object s then []
               else (case jfind s key of Some (JStr v) \<Rightarrow> v | _ \<Rightarrow> []))))"

definition plain_token :: "json option \<Rightarrow> bool" where
  "plain_token raw \<longleftrightarrow> (let token = raw_string raw ''coordination'' ''shared_token'' in
     token \<noteq> [] \<and> \<not> IsProtectedSecret token)"

definition plain_hook :: "json option \<Rightarrow> bool" where
  "plain_hook raw \<longleftrightarrow> (let hook = raw_string raw ''alerts'' ''webhook_url'' in
     hook \<noteq> [] \<and> \<not> IsProtectedSecret hook \<and> CHR ''?'' \<in> set hook)"

definition check_permissions :: "daemon_os \<Rightarrow> check_env \<Rightarrow> wstring \<Rightarrow> check_line list" where
  "check_permissions os env configPath = (case IsWritableByNonAdmins (doWellKnown os) (ckAcl env configPath) of
       Some who \<Rightarrow> [(CkFail, ''Config permissions'', Narrow os who @ '' can modify it; re-run scripts'' @
          [backslash] @ ''install.ps1 to lock it down'')]
     | None \<Rightarrow> [(CkPass, ''Config permissions'', ''writable only by SYSTEM and Administrators'')])"

definition check_secrets :: "json option \<Rightarrow> check_line list" where
  "check_secrets raw =
     (if plain_token raw then [(CkWarn, ''Secrets encrypted'',
        ''coordination.shared_token is plain text; encrypt it with '' @ [CHR 0x27] @
        ''ThreadHaulDaemon.exe protect-secret'' @ [CHR 0x27])] else []) @
     (if plain_hook raw then [(CkWarn, ''Secrets encrypted'',
        ''alerts.webhook_url carries a query string (often a key) in plain text; encrypt it with protect-secret'')] else []) @
     (if plain_token raw \<or> plain_hook raw then []
      else [(CkPass, ''Secrets encrypted'', ''no plain-text secrets found'')])"

definition weak_token :: "check_env \<Rightarrow> config \<Rightarrow> bool" where
  "weak_token env cfg \<longleftrightarrow> \<not> IsLoopback env (cfControllerHost cfg) \<and> length (cfSharedToken cfg) < 24"

definition check_link :: "daemon_os \<Rightarrow> check_env \<Rightarrow> config \<Rightarrow> check_line list" where
  "check_link os env cfg =
     (if cfCoordinationEnabled cfg then
        (CkPass, ''Controller link'', ''enabled to '' @ Narrow os (cfControllerHost cfg) @
           '': mutually authenticated, AES-256-GCM'') #
        (if weak_token env cfg then [(CkWarn, ''Controller token strength'',
           ''token is under 24 characters for a remote controller; use a long random value'')] else [])
      else [(CkPass, ''Controller link'', ''disabled'')])"

definition check_dashboard :: "config \<Rightarrow> check_line list" where
  "check_dashboard cfg =
     [(CkPass, ''Dashboard'',
       if cfDashboardEnabled cfg then ''loopback only (127.0.0.1:'' @ int_to_string (cfDashboardPort cfg) @
         ''), per-session key with expiry''
       else ''disabled'')]"

definition unpinned :: "check_env \<Rightarrow> config \<Rightarrow> wstring list" where
  "unpinned env cfg = filter (\<lambda>name. \<forall>p \<in> set (cfIdentities cfg). \<not> ckAlike env (piName p) name) (cfCriticalProcesses cfg)"

definition check_identities :: "check_env \<Rightarrow> config \<Rightarrow> check_line list" where
  "check_identities env cfg =
     (if unpinned env cfg \<noteq> [] then
        [(CkWarn, ''Process identity'', to_string (length (unpinned env cfg)) @
          '' critical process name(s) have no identity pin; any program '' @
          ''with that name gets the role (add an '' @ [dquote] @ ''identity'' @ [dquote] @ '' entry)'')]
      else [(CkPass, ''Process identity'', ''every critical process is pinned to a path or publisher'')])"

definition check_log_folder :: "daemon_os \<Rightarrow> check_env \<Rightarrow> config \<Rightarrow> check_line list" where
  "check_log_folder os env cfg =
     (let dir = ckParent env (cfLogPath cfg) in
      if dir \<noteq> [] \<and> ckExists env dir then
        (case IsWritableByNonAdmins (doWellKnown os) (ckAcl env dir) of
           Some who \<Rightarrow> [(CkWarn, ''Log permissions'', Narrow os who @ '' can write the log folder'')]
         | None \<Rightarrow> [(CkPass, ''Log permissions'', ''log folder not writable by ordinary users'')])
      else [])"

definition log_report :: "check_env \<Rightarrow> config \<Rightarrow> chain_report" where
  "log_report env cfg =
     VerifyChain (ckCrypto env) (case ckFiles env (cfLogPath cfg) of None \<Rightarrow> [] | Some c \<Rightarrow> c) []"

definition check_log :: "check_env \<Rightarrow> config \<Rightarrow> check_line list" where
  "check_log env cfg =
     (if ckExists env (cfLogPath cfg) then
        (let r = log_report env cfg in
         if \<not> report_ok r then
           [(CkFail, ''Log integrity'', ''line '' @ to_string (crBrokenLine r) @ '': '' @ crMessage r @
              '' (run verify-log for detail)'')]
         else if crChained r = 0 then
           [(CkWarn, ''Log integrity'', ''no hash-chained lines yet (written by an older version)'')]
         else [(CkPass, ''Log integrity'', to_string (crChained r) @ '' chained lines verified'')])
      else [(CkInfo, ''Log integrity'', ''no log file yet'')])"

definition parsed_file :: "daemon_os \<Rightarrow> check_env \<Rightarrow> wstring \<Rightarrow> json option" where
  "parsed_file os env path =
     (case coParse (doConf os) (case ckFiles env path of None \<Rightarrow> [] | Some c \<Rightarrow> c) of Inl _ \<Rightarrow> None | Inr j \<Rightarrow> Some j)"

definition all_checks :: "daemon_os \<Rightarrow> check_env \<Rightarrow> wstring \<Rightarrow> config \<Rightarrow> check_line list" where
  "all_checks os env configPath cfg =
     [(CkPass, ''Config valid'', ''loads and passes validation'')] @ check_permissions os env configPath @
     check_secrets (parsed_file os env configPath) @ check_link os env cfg @ check_dashboard cfg @
     check_identities env cfg @ check_log_folder os env cfg @ check_log env cfg @ CheckServiceAccount os env"

text \<open>The report and the exit code.\<close>

definition RunSelfCheck :: "daemon_os \<Rightarrow> check_env \<Rightarrow> wstring \<Rightarrow> check_line list \<times> nat" where
  "RunSelfCheck os env configPath =
     (if ckDenied env then
        ([(CkFail, ''Config valid'', ''access denied (expected: the installed config is locked to Administrators); '' @
            ''run selfcheck from an Administrator PowerShell'')], 1)
      else
        (case LoadConfigFile (doConf os) (ckFiles env) configPath of
           Inl e \<Rightarrow> ([(CkFail, ''Config valid'', e)], 1)
         | Inr cfg \<Rightarrow>
             (let rs = all_checks os env configPath cfg
              in (rs, if \<exists>r \<in> set rs. fst r = CkFail then 1 else 0))))"

section \<open>What a passing check means\<close>

text \<open>Whether a report has a line of a level.\<close>

definition has_level :: "check_level \<Rightarrow> check_line list \<Rightarrow> bool" where
  "has_level lv rs \<longleftrightarrow> (\<exists>r \<in> set rs. fst r = lv)"

named_theorems check_levels \<open>the levels each check reports\<close>

lemma has_level_list [simp]:
  "has_level lv [] = False" "has_level lv (r # rs) = (fst r = lv \<or> has_level lv rs)"
  "has_level lv (xs @ ys) = (has_level lv xs \<or> has_level lv ys)"
  by (auto simp: has_level_def)

lemma levels_account [check_levels]:
  "has_level lv (CheckServiceAccount os env) \<longleftrightarrow> lv = (case ckAccount env of AcNoService \<Rightarrow> CkInfo | AcUnreadable \<Rightarrow> CkWarn
     | AcName a \<Rightarrow> if ckAlike env a ''LocalSystem'' then CkInfo else CkPass)"
  unfolding CheckServiceAccount_def by (cases "ckAccount env") auto

lemma levels_permissions [check_levels]:
  "has_level lv (check_permissions os env path) \<longleftrightarrow>
     lv = (if IsWritableByNonAdmins (doWellKnown os) (ckAcl env path) = None then CkPass else CkFail)"
  unfolding check_permissions_def by (cases "IsWritableByNonAdmins (doWellKnown os) (ckAcl env path)") auto

lemma levels_secrets [check_levels]:
  "has_level lv (check_secrets raw) \<longleftrightarrow> lv = (if plain_token raw \<or> plain_hook raw then CkWarn else CkPass)"
  unfolding check_secrets_def by (cases "plain_token raw"; cases "plain_hook raw") auto

lemma levels_link [check_levels]:
  "has_level lv (check_link os env cfg) \<longleftrightarrow> lv = CkPass \<or> lv = CkWarn \<and> cfCoordinationEnabled cfg \<and> weak_token env cfg"
  unfolding check_link_def by auto

lemma levels_dashboard [check_levels]: "has_level lv (check_dashboard cfg) \<longleftrightarrow> lv = CkPass"
  unfolding check_dashboard_def by auto

lemma levels_identities [check_levels]:
  "has_level lv (check_identities env cfg) \<longleftrightarrow> lv = (if unpinned env cfg = [] then CkPass else CkWarn)"
  unfolding check_identities_def by auto

definition log_folder_open :: "daemon_os \<Rightarrow> check_env \<Rightarrow> config \<Rightarrow> bool" where
  "log_folder_open os env cfg \<longleftrightarrow> ckParent env (cfLogPath cfg) \<noteq> [] \<and> ckExists env (ckParent env (cfLogPath cfg)) \<and>
     IsWritableByNonAdmins (doWellKnown os) (ckAcl env (ckParent env (cfLogPath cfg))) \<noteq> None"

lemma levels_log_folder [check_levels]:
  "has_level CkFail (check_log_folder os env cfg) \<longleftrightarrow> False"
  "has_level CkWarn (check_log_folder os env cfg) \<longleftrightarrow> log_folder_open os env cfg"
  unfolding check_log_folder_def log_folder_open_def Let_def
  by (cases "IsWritableByNonAdmins (doWellKnown os) (ckAcl env (ckParent env (cfLogPath cfg)))"; simp)+

lemma levels_log [check_levels]:
  "has_level lv (check_log env cfg) \<longleftrightarrow> lv = (if \<not> ckExists env (cfLogPath cfg) then CkInfo
     else if \<not> report_ok (log_report env cfg) then CkFail
     else if crChained (log_report env cfg) = 0 then CkWarn else CkPass)"
  unfolding check_log_def Let_def by auto

lemma fails_all:
  "has_level CkFail (all_checks os env path cfg) \<longleftrightarrow> IsWritableByNonAdmins (doWellKnown os) (ckAcl env path) \<noteq> None \<or>
     ckExists env (cfLogPath cfg) \<and> \<not> report_ok (log_report env cfg)"
  unfolding all_checks_def has_level_list check_levels by (simp split: account_answer.split)

lemma warns_all:
  "has_level CkWarn (all_checks os env path cfg) \<longleftrightarrow> plain_token (parsed_file os env path) \<or> plain_hook (parsed_file os env path) \<or>
     cfCoordinationEnabled cfg \<and> weak_token env cfg \<or> unpinned env cfg \<noteq> [] \<or> log_folder_open os env cfg \<or>
     ckExists env (cfLogPath cfg) \<and> report_ok (log_report env cfg) \<and> crChained (log_report env cfg) = 0 \<or>
     ckAccount env = AcUnreadable"
  unfolding all_checks_def has_level_list check_levels by (auto split: account_answer.split)


text \<open>An installation in order: the configuration is readable, no log has been written yet.\<close>

definition toy_check :: check_env where
  "toy_check = \<lparr>ckDenied = False, ckFiles = (\<lambda>_. Some ''sample''), ckExists = (\<lambda>_. False), ckAcl = (\<lambda>_. DaclEntries []),
     ckParent = (\<lambda>_. []), ckAlike = (=), ckAccount = AcNoService,
     ckCrypto = \<lparr>coHash = (\<lambda>_ _ _. None), coSeal = (\<lambda>_ _ _. None), coOpen = (\<lambda>_ _ _ _. None), coJson = (\<lambda>_. None),
       coPrint = (\<lambda>_. [])\<rparr>\<rparr>"

definition toy_check_os :: daemon_os where
  "toy_check_os = \<lparr>doConf = sample_os, doPid = 1, doWiden = (\<lambda>s. s), doFmt1 = (\<lambda>_. []),
     doWellKnown = (\<lambda>_. None), doSession = 1, doEventSource = True, doLower = (\<lambda>s. s)\<rparr>"


end
