(* ===== verification/ServiceMain.thy ===== *)
theory ServiceMain
  imports ControlPipe SelfCheck DaemonPoll
begin

text \<open>
  \<open>src/service/main.cpp\<close>: the Windows service, console mode and the command line.  \<open>main_env\<close> is what
  Windows and the other parts of the program answer; what is printed, opened or asked of Windows is a
  list of effects.
\<close>

section \<open>The service's state\<close>

datatype service_state = SsStopped | SsStartPending | SsStopPending | SsRunning

text \<open>\<open>g_status\<close> with the static counter of \<open>SetState\<close>.\<close>

record service =
  ssState :: service_state
  ssExit :: nat
  ssHint :: nat
  ssAccepts :: bool
  ssCheckPoint :: nat
  ssNext :: nat

definition new_service :: service where
  "new_service = \<lparr>ssState = SsStopped, ssExit = 0, ssHint = 0, ssAccepts = False, ssCheckPoint = 0, ssNext = 1\<rparr>"

definition settled :: "service_state \<Rightarrow> bool" where
  "settled st \<longleftrightarrow> st = SsRunning \<or> st = SsStopped"

definition SetState :: "service_state \<Rightarrow> nat \<Rightarrow> nat \<Rightarrow> service \<Rightarrow> service" where
  "SetState st exitCode waitHint s =
     s\<lparr>ssState := st, ssExit := exitCode, ssHint := waitHint, ssAccepts := (st = SsRunning),
       ssCheckPoint := (if settled st then 0 else ssNext s), ssNext := (if settled st then ssNext s else ssNext s + 1)\<rparr>"

definition ERROR_BAD_CONFIGURATION :: nat where "ERROR_BAD_CONFIGURATION = 1610"
definition ERROR_CALL_NOT_IMPLEMENTED :: nat where "ERROR_CALL_NOT_IMPLEMENTED = 120"

datatype service_control = ScStop | ScShutdown | ScInterrogate | ScOther

text \<open>The code returned, the state, and whether the stop event is set.\<close>

definition ServiceCtrlHandler :: "service_control \<Rightarrow> service \<Rightarrow> nat \<times> service \<times> bool" where
  "ServiceCtrlHandler control s =
     (if control = ScStop \<or> control = ScShutdown then (0, SetState SsStopPending 0 10000 s, True)
      else (if control = ScInterrogate then 0 else ERROR_CALL_NOT_IMPLEMENTED, s, False))"

text \<open>Controls that arrive one after the other.\<close>

fun controls :: "service_control list \<Rightarrow> service \<Rightarrow> service \<times> bool" where
  "controls [] s = (s, False)"
| "controls (c # cs) s =
     (let (_, s1, stop) = ServiceCtrlHandler c s; (s2, later) = controls cs s1 in (s2, stop \<or> later))"

text \<open>
  \<open>EnablePrivilege\<close>, whose result the callers ignore: the last error tells whether the privilege was
  granted.  \<open>ConsoleCtrlHandler\<close>: whether the stop event is set, and what is returned.
\<close>

record privilege_answers =
  pvaOpened :: bool
  pvaLookup :: bool
  pvaAdjust :: "dword option"

definition EnablePrivilege :: "privilege_answers \<Rightarrow> bool" where
  "EnablePrivilege p = (pvaOpened p \<and> pvaLookup p \<and> pvaAdjust p = Some 0)"

definition ConsoleCtrlHandler :: "bool \<Rightarrow> bool \<times> bool" where
  "ConsoleCtrlHandler hasEvent = (if hasEvent then (True, True) else (False, False))"

datatype main_effect =
    MeStatus service
  | MeEnablePrivilege
  | MeStartupError wstring
  | MeDaemon "daemon_effect list"
  | MePrint string
  | MeError string
  | MeUsage
  | MeOpen wstring
  | MeCalls "os_call list"

record start_env =
  snRegistered :: bool
  snEvent :: bool
  snReload :: reload_env
  snTick :: u64
  snTurns :: "run_env list"
  snOs :: os_env
  snAuto :: ap_env
  snControls :: "service_control list"

text \<open>\<open>None\<close>: the loop is still running after the turns given.\<close>

definition ServiceMainFunc :: "daemon_os \<Rightarrow> start_env \<Rightarrow> daemon \<Rightarrow> service \<Rightarrow> (service \<times> main_effect list) option" where
  "ServiceMainFunc os env d s =
     (if \<not> snRegistered env then Some (s, [])
      else
        (let s1 = SetState SsStartPending 0 5000 s;
             (started, out1) = (if snEvent env then Initialize os (snReload env) (snTick env) d else (Inl [], []))
         in case started of
              Inl e \<Rightarrow>
                (let s2 = SetState SsStopped ERROR_BAD_CONFIGURATION 0 s1
                 in Some (s2, [MeStatus s1, MeEnablePrivilege, MeDaemon out1,
                      MeStartupError (''ThreadHaulDaemon could not start: '' @ (if e = [] then ''internal error'' else e)),
                      MeStatus s2]))
            | Inr d1 \<Rightarrow>
                (let s2 = SetState SsRunning 0 0 s1; s3 = fst (controls (snControls env) s2)
                 in case Run os (snOs env) (snAuto env) (snTurns env) d1 of
                      None \<Rightarrow> None
                    | Some (d2, out2) \<Rightarrow>
                        (let s4 = SetState SsStopped 0 0 s3
                         in Some (s4, [MeStatus s1, MeEnablePrivilege, MeDaemon out1, MeStatus s2, MeDaemon out2, MeStatus s4])))))"

section \<open>Acting without a daemon\<close>

text \<open>\<open>Narrow\<close> of this file: anything outside ASCII becomes a question mark.\<close>

definition narrow_ascii :: "wstring \<Rightarrow> string" where
  "narrow_ascii = map (\<lambda>c. if (of_char c :: nat) < 128 then c else CHR ''?'')"

text \<open>\<open>wcstoul\<close> saturates.\<close>

definition wcstoul :: "wstring \<Rightarrow> dword" where
  "wcstoul s = (if digits_value s < 2 ^ 32 then of_nat (digits_value s) else - 1)"

definition direct_match :: "daemon_os \<Rightarrow> wstring \<Rightarrow> process_entry \<Rightarrow> bool" where
  "direct_match os target e =
     (if target \<noteq> [] \<and> is_numeric target then pePid e = wcstoul target else SameName os (peName e) target)"

definition direct_one :: "os_env \<Rightarrow> wstring \<Rightarrow> dword \<Rightarrow> bool \<times> os_call list" where
  "direct_one env verb pid =
     (if verb = ''throttle'' then
        (let (r, calls) = SetProcessPriority env pid LvIdle in (r = PcSuccess, calls))
      else if verb = ''suspend'' then
        (let (r, calls) = SuspendAllThreads env pid in (AllSucceeded r, calls))
      else
        (let (r, calls) = ResumeAllThreads env pid in
         if threadsFailed r \<noteq> 0 then (False, calls)
         else (let (p, calls') = SetProcessPriority env pid LvNormal in (p = PcSuccess, calls @ calls'))))"

text \<open>One matching process: its outcome (\<open>None\<close> is refused) and the calls made.\<close>

definition direct_guarded :: "daemon_os \<Rightarrow> (dword \<Rightarrow> os_env) \<Rightarrow> wstring \<Rightarrow> process_entry \<Rightarrow> bool option \<times> os_call list" where
  "direct_guarded os envs verb e =
     (if IsProtected (ceq_of os) (doPid os) (new_manager default_sm_config False) (peName e) (pePid e) then (None, [])
      else (let (ok, calls) = direct_one (envs (pePid e)) verb (pePid e) in (Some ok, calls)))"

definition direct_text :: "process_entry \<Rightarrow> bool option \<Rightarrow> string" where
  "direct_text e outcome =
     ''  '' @ peName e @ '' (PID '' @ to_string (unat (pePid e)) @ ''): '' @ (case outcome of
         None \<Rightarrow> ''refused, protected process''
       | Some True \<Rightarrow> ''done''
       | Some False \<Rightarrow> ''failed (access denied? run as Administrator)'')"

definition DirectAction ::
  "daemon_os \<Rightarrow> (dword \<Rightarrow> os_env) \<Rightarrow> process_entry list \<Rightarrow> wstring \<Rightarrow> wstring \<Rightarrow> nat \<times> main_effect list" where
  "DirectAction os envs snapshot verb target =
     (let es = filter (direct_match os target) snapshot; rs = map (direct_guarded os envs verb) es
      in if es = [] then (1, [MePrint (''  no running process matches '' @ [dquote] @ target @ [dquote])])
         else (if \<forall>r \<in> set rs. fst r = Some True then 0 else 1,
           concat (map (\<lambda>(e, r). [MeCalls (snd r), MePrint (direct_text e (fst r))]) (zip es rs))))"

section \<open>The command line\<close>

record cli =
  clCommand :: wstring
  clPositional :: "wstring list"
  clConsole :: bool
  clUnelevated :: bool
  clConfig :: wstring

definition new_cli :: cli where
  "new_cli = \<lparr>clCommand = [], clPositional = [], clConsole = False, clUnelevated = False, clConfig = []\<rparr>"

definition help_words :: "wstring list" where
  "help_words = [''help'', ''--help'', ''-h'', ''/?'']"

text \<open>\<open>None\<close>: the usage is printed and the program ends with 0.\<close>

fun parse_args :: "wstring list \<Rightarrow> cli \<Rightarrow> cli option" where
  "parse_args [] c = Some c"
| "parse_args (a # rest) c =
     (if a = ''--config'' \<and> rest \<noteq> [] then parse_args (tl rest) (c\<lparr>clConfig := hd rest\<rparr>)
      else if a = ''--console'' then parse_args rest (c\<lparr>clConsole := True\<rparr>)
      else if a = ''--allow-unelevated'' then parse_args rest (c\<lparr>clUnelevated := True\<rparr>)
      else if a \<in> set help_words then None
      else if clCommand c = [] then parse_args rest (c\<lparr>clCommand := a\<rparr>)
      else parse_args rest (c\<lparr>clPositional := clPositional c @ [a]\<rparr>))"

text \<open>\<open>std::string::find\<close> of a text: the first place it starts.\<close>

fun find_text :: "string \<Rightarrow> string \<Rightarrow> nat option" where
  "find_text p [] = (if p = [] then Some 0 else None)"
| "find_text p (c # cs) = (if take (length p) (c # cs) = p then Some 0 else map_option Suc (find_text p cs))"

definition ok_text :: string where "ok_text = [dquote] @ ''ok'' @ [dquote] @ '':true''"
definition url_key :: string where "url_key = [dquote] @ ''url'' @ [dquote] @ '':'' @ [dquote]"

record main_env =
  meSend :: "string \<Rightarrow> send_answers"
  meSnapshot :: "process_entry list"
  meOs :: "dword \<Rightarrow> os_env"
  meToken :: token_answers
  meExeDir :: "wstring option"
  meExists :: "wstring \<Rightarrow> bool"
  meProgramData :: "wstring option"
  meFiles :: "wstring \<Rightarrow> string option"
  meCheck :: check_env
  meSecret :: string
  meLogs :: fs
  meCrypto :: crypto_os
  meWindow :: bool
  meDispatch :: "nat option"
  meStart :: start_env
  meDaemon :: "wstring \<Rightarrow> daemon"

definition default_path :: "main_env \<Rightarrow> bool \<Rightarrow> wstring" where
  "default_path env prefer = DefaultConfigPath prefer (meExeDir env) (meExists env) (meProgramData env)"

definition override_words :: "wstring list" where
  "override_words = [''throttle'', ''suspend'', ''resume'', ''release'', ''status'', ''stop'', ''exempt'']"

definition daemon_only_words :: "wstring list" where
  "daemon_only_words = [''status'', ''release'', ''stop'', ''exempt'']"

definition run_override :: "daemon_os \<Rightarrow> main_env \<Rightarrow> cli \<Rightarrow> nat \<times> main_effect list" where
  "run_override os env c =
     (let target = (case clPositional c of [] \<Rightarrow> [] | t # _ \<Rightarrow> t);
          request = narrow_ascii (clCommand c @ (if target = [] then [] else '' '' @ target));
          (sent, response) = SendControlRequest (meSend env request)
      in if sent then (if find_text ok_text response \<noteq> None then 0 else 1, [MePrint response])
         else if clCommand c \<in> set daemon_only_words then (1, [MePrint response])
         else if target = [] then (1, [MeUsage])
         else
           (let (code, out) = DirectAction os (meOs env) (meSnapshot env) (clCommand c) target
            in (code, MePrint (''Daemon not reachable ('' @ response @ ''); acting directly:'') # out)))"

definition run_dashboard :: "main_env \<Rightarrow> nat \<times> main_effect list" where
  "run_dashboard env =
     (let (sent, response) = SendControlRequest (meSend env ''dashboard'') in
      if \<not> sent then (1, [MePrint (''Cannot open the dashboard: '' @ response)])
      else (case find_text url_key response of
          None \<Rightarrow> (1, [MePrint response])
        | Some n \<Rightarrow>
            (let url = takeWhile (\<lambda>x. x \<noteq> dquote) (drop (n + length url_key) response)
             in (0, [MePrint (''Opening '' @ takeWhile (\<lambda>x. x \<noteq> CHR ''#'') url), MeOpen url]))))"

definition config_argument :: "main_env \<Rightarrow> cli \<Rightarrow> wstring" where
  "config_argument env c = (case clPositional c of
       p # _ \<Rightarrow> p
     | [] \<Rightarrow> if clConfig c \<noteq> [] then clConfig c else default_path env True)"

definition run_validate :: "daemon_os \<Rightarrow> main_env \<Rightarrow> cli \<Rightarrow> nat \<times> main_effect list" where
  "run_validate os env c =
     (let path = config_argument env c in
      case LoadConfigFile (doConf os) (meFiles env) path of
        Inr _ \<Rightarrow> (0, [MePrint (''OK: '' @ path @ '' is valid.'')])
      | Inl e \<Rightarrow> (2, [MePrint (''INVALID: '' @ e)]))"

text \<open>A carriage return at the end of the line read is dropped.\<close>

definition run_protect :: "daemon_os \<Rightarrow> main_env \<Rightarrow> nat \<times> main_effect list" where
  "run_protect os env =
     (let secret = chomp (meSecret env) in
      if secret = [] then (1, [MeError ''No secret given.''])
      else (let out = ProtectSecret (coCrypt (doConf os)) secret in
            if out = [] then (1, [MeError ''Encryption failed'']) else (0, [MePrint out])))"

definition run_verify :: "daemon_os \<Rightarrow> main_env \<Rightarrow> cli \<Rightarrow> nat \<times> main_effect list" where
  "run_verify os env c =
     (case (case clPositional c of
              p # _ \<Rightarrow> Inr p
            | [] \<Rightarrow> (case LoadConfigFile (doConf os) (meFiles env)
                     (if clConfig c \<noteq> [] then clConfig c else default_path env True) of
                  Inl e \<Rightarrow> Inl e | Inr cfg \<Rightarrow> Inr (cfLogPath cfg))) of
        Inl e \<Rightarrow> (2, [MePrint (''Cannot read the log path from the config: '' @ e)])
      | Inr lp \<Rightarrow>
          (let (code, reports) = VerifyLog (meCrypto env) (meLogs env) lp
           in (code, if reports = [] then [MePrint (''No log found at '' @ lp)]
              else map (\<lambda>r. MePrint ((if report_ok (snd r) then ''OK      '' else ''BROKEN  '') @ fst r)) reports)))"

text \<open>The daemon of a console run answers \<open>stop\<close>.\<close>

definition RunConsole :: "daemon_os \<Rightarrow> main_env \<Rightarrow> cli \<Rightarrow> (nat \<times> main_effect list) option" where
  "RunConsole os env c =
     (if \<not> IsRunningElevated (meToken env) \<and> \<not> clUnelevated c
      then Some (1, [MeError ''ThreadHaulDaemon must run as Administrator''])
      else
        (let sn = meStart env; (started, out1) = Initialize os (snReload sn) (snTick sn) (meDaemon env (clConfig c)) in
         case started of
           Inl e \<Rightarrow> Some (2, [MeEnablePrivilege, MeDaemon out1,
             MeError (''Invalid configuration ('' @ clConfig c @ ''): '' @ e)])
         | Inr d \<Rightarrow>
             (case Run os (snOs sn) (snAuto sn) (snTurns sn) (d\<lparr>dmRemoteStop := True\<rparr>) of
                None \<Rightarrow> None
              | Some (d', out2) \<Rightarrow> Some (0, [MeEnablePrivilege, MeDaemon out1, MePrint (clConfig c), MeDaemon out2,
                  MePrint ''Stopped. All managed processes restored.'']))))"

definition ERROR_FAILED_SERVICE_CONTROLLER_CONNECT :: nat where
  "ERROR_FAILED_SERVICE_CONTROLLER_CONNECT = 1063"

definition run_service :: "daemon_os \<Rightarrow> main_env \<Rightarrow> cli \<Rightarrow> (nat \<times> main_effect list) option" where
  "run_service os env c0 =
     (let c = (if clConfig c0 = [] then c0\<lparr>clConfig := default_path env (clConsole c0 \<or> meWindow env)\<rparr> else c0) in
      if clConsole c then RunConsole os env c
      else (case meDispatch env of
          Some e \<Rightarrow> if e = ERROR_FAILED_SERVICE_CONTROLLER_CONNECT then RunConsole os env c else Some (e, [])
        | None \<Rightarrow> map_option (\<lambda>r. (0, snd r)) (ServiceMainFunc os (meStart env) (meDaemon env (clConfig c)) new_service)))"

definition wmain :: "daemon_os \<Rightarrow> main_env \<Rightarrow> wstring list \<Rightarrow> (nat \<times> main_effect list) option" where
  "wmain os env args = (case parse_args args new_cli of
       None \<Rightarrow> Some (0, [MeUsage])
     | Some c \<Rightarrow>
         (let cmd = clCommand c in
          if cmd \<in> set override_words then Some (run_override os env c)
          else if cmd = ''dashboard'' then Some (run_dashboard env)
          else if cmd = ''validate-config'' then Some (run_validate os env c)
          else if cmd = ''selfcheck'' then
            (let (rs, code) = RunSelfCheck os (meCheck env) (config_argument env c)
             in Some (code, map (\<lambda>r. MePrint (fst (snd r) @ '' '' @ snd (snd r))) rs))
          else if cmd = ''protect-secret'' then Some (run_protect os env)
          else if cmd = ''verify-log'' then Some (run_verify os env c)
          else if cmd \<noteq> [] then Some (1, [MeError (''Unknown command '' @ [dquote] @ cmd @ [dquote]), MeUsage])
          else run_service os env c))"

section \<open>What acting directly may touch\<close>

text \<open>The calls that concern a process: its priority, or a thread the snapshot lists as its own.\<close>

fun concerns :: "os_env \<Rightarrow> dword \<Rightarrow> os_call \<Rightarrow> bool" where
  "concerns env pid (OsSetPriority p cls) = (p = pid \<and> cls \<in> {IDLE_PRIORITY_CLASS, NORMAL_PRIORITY_CLASS})"
| "concerns env pid (OsSuspendThread t) = (t \<in> set (EnumerateThreadIds env pid))"
| "concerns env pid (OsResumeThread t) = (t \<in> set (EnumerateThreadIds env pid))"

lemma direct_one_concerns:
  assumes "c \<in> set (snd (direct_one env verb pid))"
  shows "concerns env pid c"
proof -
  have p: "concerns env pid c" if "c \<in> set (snd (SetProcessPriority env pid lv))" "lv = LvIdle \<or> lv = LvNormal" for lv
    using that by (auto simp: SetProcessPriority_def Let_def ToWin32PriorityClass_def split: option.splits)
  have s: "concerns env pid c" if "c \<in> set (snd (SuspendAllThreads env pid))"
    using that by (auto simp: SuspendAllThreads_def thread_loop_calls)
  have r: "concerns env pid c" if "c \<in> set (snd (ResumeAllThreads env pid))"
    using that by (auto simp: ResumeAllThreads_def thread_loop_calls)
  show ?thesis
    using assms p s r unfolding direct_one_def Let_def split_beta by (auto split: if_splits)
qed

lemma direct_guarded_cases:
  "direct_guarded os envs verb e = (None, []) \<or>
   \<not> IsProtected (ceq_of os) (doPid os) (new_manager default_sm_config False) (peName e) (pePid e) \<and>
     direct_guarded os envs verb e = (Some (fst (direct_one (envs (pePid e)) verb (pePid e))), snd (direct_one (envs (pePid e)) verb (pePid e)))"
  by (simp add: direct_guarded_def split_beta)

text \<open>
  C39.  Without a daemon the command line touches only processes that match the target and are not on
  the built-in protection list, nor itself: every call concerns the priority of such a process or one
  of its own threads.  It exits with 0 exactly when something matched, nothing that matched was
  protected, and every action succeeded.
\<close>

theorem direct_action_spares_protected:
  assumes "DirectAction os envs snapshot verb target = (code, out)"
  shows "(\<forall>calls c. MeCalls calls \<in> set out \<and> c \<in> set calls \<longrightarrow>
      (\<exists>e \<in> set snapshot. direct_match os target e \<and> pePid e \<noteq> doPid os \<and>
        (\<forall>n \<in> set kAlwaysProtected. \<not> ceq_of os (peName e) n) \<and> concerns (envs (pePid e)) (pePid e) c)) \<and>
    (code = 0 \<longleftrightarrow> (\<exists>e \<in> set snapshot. direct_match os target e) \<and>
      (\<forall>e \<in> set snapshot. direct_match os target e \<longrightarrow>
        \<not> IsProtected (ceq_of os) (doPid os) (new_manager default_sm_config False) (peName e) (pePid e) \<and>
        fst (direct_one (envs (pePid e)) verb (pePid e))))"
proof -
  define es where "es = filter (direct_match os target) snapshot"
  have none: "es = [] \<Longrightarrow> code = 1 \<and> (\<forall>calls. MeCalls calls \<notin> set out)"
    using assms by (auto simp: DirectAction_def Let_def es_def [symmetric])
  have some: "code = (if \<forall>e \<in> set es. fst (direct_guarded os envs verb e) = Some True then 0 else 1) \<and>
      out = concat (map (\<lambda>(e, r). [MeCalls (snd r), MePrint (direct_text e (fst r))]) (zip es (map (direct_guarded os envs verb) es)))"
    if "es \<noteq> []"
    using assms that by (simp only: DirectAction_def Let_def es_def [symmetric] if_False prod.inject set_map ball_simps)
  have z: "zip es (map f es) = map (\<lambda>e. (e, f e)) es" for f :: "process_entry \<Rightarrow> bool option \<times> os_call list"
    by (induction es) auto
  have calls: "\<exists>e \<in> set es. c \<in> set (snd (direct_guarded os envs verb e))" if "MeCalls cs \<in> set out" "c \<in> set cs" for cs c
    using that none some by (cases "es = []") (auto simp: z)
  have ok: "fst (direct_guarded os envs verb e) = Some True \<longleftrightarrow>
      \<not> IsProtected (ceq_of os) (doPid os) (new_manager default_sm_config False) (peName e) (pePid e) \<and>
      fst (direct_one (envs (pePid e)) verb (pePid e))" for e
    by (simp add: direct_guarded_def split_beta)
  have "code = 0 \<longleftrightarrow> es \<noteq> [] \<and> (\<forall>e \<in> set es. fst (direct_guarded os envs verb e) = Some True)"
    using none some by (cases "es = []") (simp_all split: if_splits)
  moreover have "es \<noteq> [] \<longleftrightarrow> (\<exists>e \<in> set snapshot. direct_match os target e)" by (auto simp: es_def filter_empty_conv)
  moreover have "\<exists>e \<in> set snapshot. direct_match os target e \<and> pePid e \<noteq> doPid os \<and>
        (\<forall>n \<in> set kAlwaysProtected. \<not> ceq_of os (peName e) n) \<and> concerns (envs (pePid e)) (pePid e) c"
    if "MeCalls cs \<in> set out" "c \<in> set cs" for cs c
  proof -
    from calls [OF that] obtain e where e: "e \<in> set es" "c \<in> set (snd (direct_guarded os envs verb e))" by blast
    have "\<not> IsProtected (ceq_of os) (doPid os) (new_manager default_sm_config False) (peName e) (pePid e)"
      "c \<in> set (snd (direct_one (envs (pePid e)) verb (pePid e)))"
      using direct_guarded_cases [of os envs verb e] e(2) by auto
    then show ?thesis using e(1) direct_one_concerns [of c] by (auto simp: es_def IsProtected_def)
  qed
  ultimately show ?thesis unfolding ok by (auto simp: es_def)
qed

theorem direct_action_spares_protected_witness:
  "fst (DirectAction toy_check_os (\<lambda>_. \<lparr>openErr = (\<lambda>_. None), signalled = (\<lambda>_. False), setClassErr = (\<lambda>_ _. None),
     threadSnap = None, openThreadErr = (\<lambda>_. None), suspendThread = (\<lambda>_. 0), resumeThread = (\<lambda>_. 1)\<rparr>)
     [\<lparr>peName = ''zip.exe'', pePid = 7\<rparr>] ''throttle'' ''7'') = 0"
proof -
  let ?envs = "\<lambda>_ :: dword. \<lparr>openErr = (\<lambda>_. None), signalled = (\<lambda>_. False), setClassErr = (\<lambda>_ _. None),
     threadSnap = None, openThreadErr = (\<lambda>_. None), suspendThread = (\<lambda>_. 0), resumeThread = (\<lambda>_. 1)\<rparr>"
  let ?e = "\<lparr>peName = ''zip.exe'', pePid = 7\<rparr> :: process_entry"
  obtain code out where d: "DirectAction toy_check_os ?envs [?e] ''throttle'' ''7'' = (code, out)" by fastforce
  have m: "direct_match toy_check_os ''7'' ?e"
    by (simp add: direct_match_def is_numeric_def is_digit_def wcstoul_def digits_value_def char_digit_def)
  have p: "\<not> IsProtected (ceq_of toy_check_os) (doPid toy_check_os) (new_manager default_sm_config False) (peName ?e) (pePid ?e)"
    by (simp add: IsProtected_def toy_check_os_def ceq_of_def sample_os_def new_manager_def kAlwaysProtected_def)
  have "fst (direct_one (?envs 7) ''throttle'' 7)"
    by (simp add: direct_one_def SetProcessPriority_def Let_def)
  then show ?thesis using direct_action_spares_protected [OF d] m p d by simp
qed

section \<open>The exit code of a command\<close>

lemma find_text_append: "find_text p s \<noteq> None \<Longrightarrow> find_text p (a @ s @ b) \<noteq> None"
proof -
  have r: "find_text p (t @ b) \<noteq> None" if "find_text p t \<noteq> None" for t
    using that
  proof (induction t)
    case Nil
    then have "p = []" by (simp split: if_splits)
    then show ?case by (cases b) simp_all
  next
    case (Cons x xs)
    show ?case
    proof (cases "take (length p) (x # xs) = p")
      case True
      then have "take (length p) (x # xs @ b) = p" by (metis append_Cons append_eq_conv_conj append_take_drop_id append.assoc)
      then show ?thesis by simp
    qed (use Cons in auto)
  qed
  assume "find_text p s \<noteq> None"
  then have "find_text p (s @ b) \<noteq> None" by (rule r)
  then show ?thesis by (induction a) auto
qed

text \<open>
  The exit code looks for \<open>"ok":true\<close> anywhere in the reply.  A command that failed for one process
  and worked for another therefore exits with 0, given that the printer prints every member's value
  and prints \<open>ok\<close> as that text.
\<close>

lemma partial_failure_exits_with_0:
  assumes "\<And>m k v. (k, v) \<in> set m \<Longrightarrow> \<exists>a b. dump (JObj m) = a @ dump v @ b"
    and "\<And>js v. v \<in> set js \<Longrightarrow> \<exists>a b. dump (JArr js) = a @ dump v @ b"
    and "\<And>m. (''ok'', JBool True) \<in> set m \<Longrightarrow> find_text ok_text (dump (JObj m)) \<noteq> None"
    and "JObj r \<in> set results" and "(''ok'', JBool True) \<in> set r"
  shows "find_text ok_text (dump (JObj (Reply False msg @ [(''results'', JArr results)]))) \<noteq> None"
proof -
  obtain a b where ab: "dump (JObj (Reply False msg @ [(''results'', JArr results)])) = a @ dump (JArr results) @ b"
    using assms(1) [of "''results''" "JArr results" "Reply False msg @ [(''results'', JArr results)]"] by auto
  obtain a' b' where "dump (JArr results) = a' @ dump (JObj r) @ b'" using assms(2,4) by blast
  then have "find_text ok_text (dump (JArr results)) \<noteq> None" using assms(3,5) find_text_append by metis
  then show ?thesis unfolding ab by (rule find_text_append)
qed

end
