(* ===== verification/ServiceRun.thy ===== *)
theory ServiceRun
  imports ServiceMain Daemon_Run
begin

text \<open>
  The service from its start to its stop (\<open>ServiceMainFunc\<close>, \<open>src/service/main.cpp\<close>) on the daemon's
  loop: what the states reported to the Service Control Manager say about the managed processes.
\<close>

lemma SetState_frame [simp]:
  "ssState (SetState st e w s) = st" "ssExit (SetState st e w s) = e"
  "ssAccepts (SetState st e w s) = (st = SsRunning)"
  by (simp_all add: SetState_def)

lemma service_cases:
  assumes "snRegistered env" and "ServiceMainFunc os env d s = Some (s', out)"
  obtains (failed) e o1 where "(if snEvent env then Initialize os (snReload env) (snTick env) d else (Inl [], [])) = (Inl e, o1)"
      "ssState s' = SsStopped" "ssExit s' = ERROR_BAD_CONFIGURATION" "\<forall>x. MeStatus x \<in> set out \<longrightarrow> ssState x \<noteq> SsRunning"
      "\<exists>pre. out = pre @ [MeStatus s'] \<and> (\<forall>x. MeStatus x \<in> set pre \<longrightarrow> ssState x \<noteq> SsStopped)"
  | (ran) d1 o1 d2 o2 where "snEvent env" "Initialize os (snReload env) (snTick env) d = (Inr d1, o1)"
      "Run os (snOs env) (snAuto env) (snTurns env) d1 = Some (d2, o2)" "ssState s' = SsStopped" "ssExit s' = 0"
      "\<exists>x. MeStatus x \<in> set out \<and> ssState x = SsRunning"
      "\<exists>pre. out = pre @ [MeDaemon o2, MeStatus s'] \<and> (\<forall>x. MeStatus x \<in> set pre \<longrightarrow> ssState x \<noteq> SsStopped)"
proof -
  obtain started o1 where i: "(if snEvent env then Initialize os (snReload env) (snTick env) d else (Inl [], [])) = (started, o1)"
    by fastforce
  show ?thesis
  proof (cases started)
    case (Inl e)
    then show ?thesis using failed [of e o1] i assms by (auto simp: ServiceMainFunc_def Let_def)
  next
    case (Inr d1)
    then have ev: "snEvent env" using i by (simp split: if_splits)
    then have init: "Initialize os (snReload env) (snTick env) d = (Inr d1, o1)" using i Inr by simp
    show ?thesis
    proof (cases "Run os (snOs env) (snAuto env) (snTurns env) d1")
      case None
      then show ?thesis using assms ev init by (simp add: ServiceMainFunc_def Let_def)
    next
      case (Some r)
      obtain d2 o2 where r: "r = (d2, o2)" by fastforce
      let ?s2 = "SetState SsRunning 0 0 (SetState SsStartPending 0 5000 s)"
      have e: "s' = SetState SsStopped 0 0 (fst (controls (snControls env) ?s2))" "MeStatus ?s2 \<in> set out"
          "out = [MeStatus (SetState SsStartPending 0 5000 s), MeEnablePrivilege, MeDaemon o1, MeStatus ?s2] @ [MeDaemon o2, MeStatus s']"
        using Some assms ev init unfolding r by (auto simp: ServiceMainFunc_def Let_def)
      have "\<exists>x. MeStatus x \<in> set out \<and> ssState x = SsRunning" using e(2) by (intro exI [of _ ?s2]) simp
      moreover have "\<exists>pre. out = pre @ [MeDaemon o2, MeStatus s'] \<and> (\<forall>x. MeStatus x \<in> set pre \<longrightarrow> ssState x \<noteq> SsStopped)"
        by (rule exI, rule conjI [OF e(3)]) auto
      ultimately show ?thesis using ran [OF ev init] Some e(1) unfolding r by simp
    qed
  qed
qed


definition toy_service :: start_env where
  "toy_service = \<lparr>snRegistered = True, snEvent = True, snReload = toy_reload, snTick = 0, snTurns = [toy_turn False, toy_turn True],
     snOs = toy_os_env, snAuto = toy_ap_env, snControls = [ScStop]\<rparr>"


end
