(* ===== verification/Timestamps.thy ===== *)
theory Timestamps
  imports Prelude
begin

text \<open>
  The time stamps of the two logs: \<open>Timestamp\<close> of \<open>src/logging/JsonLinesLogger.cpp\<close> and of
  \<open>src/controller/main.cpp\<close>, the same text.  What \<open>GetSystemTime\<close> fills in is the argument.
\<close>

section \<open>The code\<close>

record systemtime =
  wYear :: "16 word"
  wMonth :: "16 word"
  wDay :: "16 word"
  wHour :: "16 word"
  wMinute :: "16 word"
  wSecond :: "16 word"
  wMilliseconds :: "16 word"

text \<open>\<open>%0wu\<close>: at least \<open>w\<close> digits.\<close>

definition padded :: "nat \<Rightarrow> 16 word \<Rightarrow> string" where
  "padded w n = (let s = to_string (unat n) in replicate (w - length s) (CHR ''0'') @ s)"

text \<open>\<open>snprintf\<close> into 32 characters keeps 31.\<close>

definition Timestamp :: "systemtime \<Rightarrow> string" where
  "Timestamp st = take 31 (padded 4 (wYear st) @ ''-'' @ padded 2 (wMonth st) @ ''-'' @ padded 2 (wDay st) @ ''T'' @
     padded 2 (wHour st) @ '':'' @ padded 2 (wMinute st) @ '':'' @ padded 2 (wSecond st) @ ''.'' @
     padded 3 (wMilliseconds st) @ ''Z'')"

section \<open>Text order is the order of time\<close>

text \<open>A decimal number at a fixed width.\<close>

fun digits :: "nat \<Rightarrow> nat \<Rightarrow> string" where
  "digits 0 n = []"
| "digits (Suc w) n = digits w (n div 10) @ [digit_char (n mod 10)]"

lemma length_digits [simp]: "length (digits w n) = w"
  by (induction w arbitrary: n) auto

lemma digits_zero: "digits w 0 = replicate w (digit_char 0)"
  by (induction w) (auto simp: replicate_append_same)

lemma digits_eq: "n < 10 ^ w \<Longrightarrow> 0 < w \<Longrightarrow> replicate (w - length (to_string n)) (CHR ''0'') @ to_string n = digits w n"
proof (induction w arbitrary: n)
  case (Suc w)
  have z: "CHR ''0'' = digit_char 0" by code_simp
  show ?case
  proof (cases "n < 10")
    case True
    then have "n div 10 = 0" "n mod 10 = n" by auto
    then show ?thesis using True by (subst to_string.simps, subst (2) to_string.simps) (simp add: digits_zero z)
  next
    case False
    then have "0 < w" using Suc.prems(1) by (cases w) auto
    moreover have "n div 10 < 10 ^ w" using Suc.prems(1) by auto
    ultimately have "replicate (w - length (to_string (n div 10))) (CHR ''0'') @ to_string (n div 10) = digits w (n div 10)"
      by (rule Suc.IH [rotated])
    moreover have "to_string n = to_string (n div 10) @ [digit_char (n mod 10)]" using False by (subst to_string.simps) simp
    ultimately show ?thesis by simp
  qed
qed simp

fun text_less :: "string \<Rightarrow> string \<Rightarrow> bool" where
  "text_less xs [] = False"
| "text_less [] (y # ys) = True"
| "text_less (x # xs) (y # ys) = ((of_char x :: nat) < of_char y \<or> x = y \<and> text_less xs ys)"

lemma text_less_append:
  "length a = length b \<Longrightarrow> text_less (a @ xs) (b @ ys) \<longleftrightarrow> text_less a b \<or> a = b \<and> text_less xs ys"
  by (induction a b rule: list_induct2) auto

lemma less_by_digits: "m div 10 < n div 10 \<or> m div 10 = n div 10 \<and> m mod 10 < n mod 10 \<longleftrightarrow> m < (n :: nat)"
proof -
  have e: "m = 10 * (m div 10) + m mod 10" "n = 10 * (n div 10) + n mod 10" "m mod 10 < 10" "n mod 10 < 10" by simp_all
  show ?thesis
  proof (cases "m div 10" "n div 10" rule: linorder_cases)
    case less
    then show ?thesis using e by linarith
  next
    case equal
    then show ?thesis using e by linarith
  next
    case greater
    then show ?thesis using e by linarith
  qed
qed

lemma digits_inject: "m < 10 ^ w \<Longrightarrow> n < 10 ^ w \<Longrightarrow> digits w m = digits w n \<longleftrightarrow> m = n"
proof (induction w arbitrary: m n)
  case (Suc w)
  have "digit_char (m mod 10) = digit_char (n mod 10) \<longleftrightarrow> m mod 10 = n mod 10"
    by (metis char_digit_char mod_less_divisor zero_less_numeral)
  moreover have "m div 10 < 10 ^ w" "n div 10 < 10 ^ w" using Suc.prems by auto
  ultimately have "digits (Suc w) m = digits (Suc w) n \<longleftrightarrow> m div 10 = n div 10 \<and> m mod 10 = n mod 10"
    using Suc.IH by simp
  then show ?case by (metis div_mult_mod_eq)
qed simp

lemma digits_less: "m < 10 ^ w \<Longrightarrow> n < 10 ^ w \<Longrightarrow> text_less (digits w m) (digits w n) \<longleftrightarrow> m < n"
proof (induction w arbitrary: m n)
  case (Suc w)
  have b: "m div 10 < 10 ^ w" "n div 10 < 10 ^ w" using Suc.prems by auto
  have "text_less [digit_char (m mod 10)] [digit_char (n mod 10)] \<longleftrightarrow> m mod 10 < n mod 10"
    by (simp add: of_char_digit_char)
  then have "text_less (digits (Suc w) m) (digits (Suc w) n) \<longleftrightarrow>
      m div 10 < n div 10 \<or> m div 10 = n div 10 \<and> m mod 10 < n mod 10"
    by (simp add: text_less_append Suc.IH [OF b] digits_inject [OF b] del: text_less.simps)
  also have "\<dots> \<longleftrightarrow> m < n" by (rule less_by_digits)
  finally show ?case .
qed simp

definition time_ok :: "systemtime \<Rightarrow> bool" where
  "time_ok st = (unat (wYear st) < 10000 \<and> unat (wMonth st) < 100 \<and> unat (wDay st) < 100 \<and> unat (wHour st) < 100 \<and>
     unat (wMinute st) < 100 \<and> unat (wSecond st) < 100 \<and> unat (wMilliseconds st) < 1000)"

definition time_fields :: "systemtime \<Rightarrow> nat list" where
  "time_fields st = [unat (wYear st), unat (wMonth st), unat (wDay st), unat (wHour st), unat (wMinute st),
     unat (wSecond st), unat (wMilliseconds st)]"

fun earlier :: "nat list \<Rightarrow> nat list \<Rightarrow> bool" where
  "earlier (x # xs) (y # ys) = (x < y \<or> x = y \<and> earlier xs ys)"
| "earlier _ _ = False"

lemma Timestamp_digits:
  assumes "time_ok st"
  shows "Timestamp st = digits 4 (unat (wYear st)) @ ''-'' @ digits 2 (unat (wMonth st)) @ ''-'' @ digits 2 (unat (wDay st)) @
     ''T'' @ digits 2 (unat (wHour st)) @ '':'' @ digits 2 (unat (wMinute st)) @ '':'' @ digits 2 (unat (wSecond st)) @ ''.'' @
     digits 3 (unat (wMilliseconds st)) @ ''Z''"
proof -
  have p: "padded w n = digits w (unat n)" if "unat n < 10 ^ w" "0 < w" for w n
    using digits_eq [OF that] by (simp add: padded_def Let_def)
  show ?thesis using assms by (simp add: Timestamp_def time_ok_def p del: digits.simps)
qed

lemma field_less:
  assumes "m < 10 ^ w" and "n < 10 ^ w"
  shows "text_less (digits w m @ c # xs) (digits w n @ c # ys) \<longleftrightarrow> m < n \<or> m = n \<and> text_less xs ys"
  by (simp add: text_less_append digits_less [OF assms] digits_inject [OF assms] del: digits.simps)

theorem timestamps_sort_by_time:
  assumes "time_ok a" and "time_ok b"
  shows "text_less (Timestamp a) (Timestamp b) \<longleftrightarrow> earlier (time_fields a) (time_fields b)"
    and "length (Timestamp a) = 24"
proof -
  show "length (Timestamp a) = 24" by (simp add: Timestamp_digits [OF assms(1)] del: digits.simps)
  show "text_less (Timestamp a) (Timestamp b) \<longleftrightarrow> earlier (time_fields a) (time_fields b)"
    using assms unfolding time_ok_def
    by (simp add: Timestamp_digits [OF assms(1)] Timestamp_digits [OF assms(2)] field_less time_fields_def del: digits.simps)
qed

end
