(* ===== verification/Simulators.thy ===== *)
theory Simulators
  imports AutoProtect Http "HOL-Library.Signed_Division"
begin

text \<open>
  The two load generators the daemon is tried with: \<open>src/tools/simulators/critical_simulator.cpp\<close> and
  \<open>batch_simulator.cpp\<close>.  What the tick counter and the scheduler answer is a parameter: \<open>tick k\<close> is
  the reading after the \<open>k\<close>-th second slept.
\<close>

section \<open>Schedules\<close>

text \<open>\<open>atoi\<close>: a number out of the range of \<open>int\<close> saturates, as the C runtime documents.\<close>

definition clamp_int :: "int \<Rightarrow> int" where
  "clamp_int i = max (- (2 ^ 31)) (min (2 ^ 31 - 1) i)"

definition atoi :: "string \<Rightarrow> int" where
  "atoi s =
     (let s1 = dropWhile c_space s;
          (neg, s2) = (case s1 of [] \<Rightarrow> (False, [])
             | c # r \<Rightarrow> if c = CHR ''-'' then (True, r) else if c = CHR ''+'' then (False, r) else (False, s1));
          v = int (digits_value (takeWhile is_digit s2))
      in clamp_int (if neg then - v else v))"

record phase =
  phSeconds :: int
  phPercent :: int

definition item_phase :: "string \<Rightarrow> phase list" where
  "item_phase item =
     (if CHR '':'' \<in> set item
      then [\<lparr>phSeconds = atoi (takeWhile (\<lambda>c. c \<noteq> CHR '':'') item),
             phPercent = atoi (tl (dropWhile (\<lambda>c. c \<noteq> CHR '':'') item))\<rparr>]
      else [])"

fun ParseSchedule :: "string \<Rightarrow> phase list" where
  "ParseSchedule [] = []"
| "ParseSchedule (c # cs) =
     (let item = takeWhile (\<lambda>c. c \<noteq> CHR '','') (c # cs)
      in item_phase item @ ParseSchedule (drop (Suc (length item)) (c # cs)))"

declare ParseSchedule.simps(2) [simp del]

section \<open>The critical simulator\<close>

record critical_args =
  crSchedule :: string
  crThreads :: int
  crOnce :: bool
  crCrashAfter :: int

definition default_critical_args :: critical_args where
  "default_critical_args = \<lparr>crSchedule = ''8:30,20:100,15:20'', crThreads = 1, crOnce = False, crCrashAfter = 0\<rparr>"

text \<open>An option that needs a value and is the last word is skipped, as an unknown word is.\<close>

fun critical_options :: "string list \<Rightarrow> critical_args \<Rightarrow> critical_args" where
  "critical_options [] c = c"
| "critical_options [a] c = (if a = ''--once'' then c\<lparr>crOnce := True\<rparr> else c)"
| "critical_options (a # v # rest) c =
     (if a = ''--schedule'' then critical_options rest (c\<lparr>crSchedule := v\<rparr>)
      else if a = ''--load'' then critical_options rest (c\<lparr>crSchedule := ''86400:'' @ v\<rparr>)
      else if a = ''--threads'' then critical_options rest (c\<lparr>crThreads := atoi v\<rparr>)
      else if a = ''--once'' then critical_options (v # rest) (c\<lparr>crOnce := True\<rparr>)
      else if a = ''--crash-after'' then critical_options rest (c\<lparr>crCrashAfter := atoi v\<rparr>)
      else critical_options (v # rest) c)"

text \<open>A worker's slice: it reads the clock until it has been busy long enough, once more, and sleeps.\<close>

fun worker_spin :: "u64 \<Rightarrow> u64 \<Rightarrow> u64 list \<Rightarrow> u64 list" where
  "worker_spin start busy [] = []"
| "worker_spin start busy (t # ts) = (if t - start < busy then worker_spin start busy ts else ts)"

definition worker_slice :: "int \<Rightarrow> u64 \<Rightarrow> u64 list \<Rightarrow> (u64 \<times> u64) option" where
  "worker_slice load start ticks =
     (case worker_spin start (word_of_int load) ticks of
        [] \<Rightarrow> None
      | t # _ \<Rightarrow> (let used = t - start in Some (used, if used < 100 then 100 - used else 0)))"

definition phase_load :: "phase \<Rightarrow> int" where
  "phase_load p = max 0 (min 100 (phPercent p))"

datatype slept = SlCrash | SlOn nat

definition crash_due :: "int \<Rightarrow> (nat \<Rightarrow> u64) \<Rightarrow> u64 \<Rightarrow> nat \<Rightarrow> bool" where
  "crash_due crashAfter tick begun k = (crashAfter > 0 \<and> word_of_int crashAfter \<le> (tick k - begun) div 1000)"

fun sleep_seconds :: "(nat \<Rightarrow> bool) \<Rightarrow> nat \<Rightarrow> nat \<Rightarrow> slept" where
  "sleep_seconds due 0 k = SlOn k"
| "sleep_seconds due (Suc n) k = (if due (Suc k) then SlCrash else sleep_seconds due n (Suc k))"

text \<open>One pass over the schedule: the loads set, and how it ended.\<close>

fun run_phases :: "(nat \<Rightarrow> bool) \<Rightarrow> phase list \<Rightarrow> nat \<Rightarrow> int list \<times> slept" where
  "run_phases due [] k = ([], SlOn k)"
| "run_phases due (p # ps) k =
     (case sleep_seconds due (nat (phSeconds p)) k of
        SlCrash \<Rightarrow> ([phase_load p], SlCrash)
      | SlOn k' \<Rightarrow> (let (loads, e) = run_phases due ps k' in (phase_load p # loads, e)))"

text \<open>The \<open>do\<close> loop; \<open>None\<close> is not returning.\<close>

partial_function (option) repeat_schedule :: "bool \<Rightarrow> (nat \<Rightarrow> bool) \<Rightarrow> phase list \<Rightarrow> nat \<Rightarrow> int option" where
  "repeat_schedule once due ps k =
     (case snd (run_phases due ps k) of
        SlCrash \<Rightarrow> Some 3
      | SlOn k' \<Rightarrow> if once then Some 0 else repeat_schedule once due ps k')"

definition critical_main :: "(nat \<Rightarrow> u64) \<Rightarrow> u64 \<Rightarrow> string list \<Rightarrow> int option" where
  "critical_main tick begun args =
     (let c = critical_options args default_critical_args;
          phases = ParseSchedule (crSchedule c)
      in if phases = [] \<or> crThreads c < 1 then Some 1
         else repeat_schedule (crOnce c) (crash_due (crCrashAfter c) tick begun) phases 0)"

section \<open>The batch simulator\<close>

record batch_args =
  baThreads :: int
  baName :: string

definition default_batch_args :: "dword \<Rightarrow> batch_args" where
  "default_batch_args processors = \<lparr>baThreads = max 1 (sint processors sdiv 2), baName = ''batch''\<rparr>"

fun batch_options :: "string list \<Rightarrow> batch_args \<Rightarrow> batch_args" where
  "batch_options (a # v # rest) b =
     (if a = ''--threads'' then batch_options rest (b\<lparr>baThreads := atoi v\<rparr>)
      else if a = ''--name'' then batch_options rest (b\<lparr>baName := v\<rparr>)
      else batch_options (v # rest) b)"
| "batch_options args b = b"

definition batch_round :: "u64 \<Rightarrow> u64" where
  "batch_round local = foldl (\<lambda>l i. l + xor (word_of_nat i) (drop_bit 3 l)) local [0..<100000]"

definition batch_worker :: "u64 \<times> u64 \<Rightarrow> u64 \<times> u64" where
  "batch_worker s = (batch_round (fst s), snd s + 1)"

definition PriorityName :: "dword \<Rightarrow> string" where
  "PriorityName p =
     (if p = IDLE_PRIORITY_CLASS then ''IDLE''
      else if p = BELOW_NORMAL_PRIORITY_CLASS then ''BELOW_NORMAL''
      else if p = NORMAL_PRIORITY_CLASS then ''NORMAL''
      else if p = ABOVE_NORMAL_PRIORITY_CLASS then ''ABOVE_NORMAL''
      else if p = HIGH_PRIORITY_CLASS then ''HIGH''
      else if p = REALTIME_PRIORITY_CLASS then ''REALTIME''
      else ''?'')"

text \<open>A report's line: units per second, the priority, and whether the pause was long.\<close>

record batch_report =
  brRate :: double
  brPriority :: string
  brResumed :: bool

definition report_seconds :: "u64 \<Rightarrow> u64 \<Rightarrow> double" where
  "report_seconds lastTick tick = real (unat (tick - lastTick)) / 1000"

fun batch_reports :: "u64 \<Rightarrow> u64 \<Rightarrow> (u64 \<times> u64 \<times> dword) list \<Rightarrow> batch_report list" where
  "batch_reports prev lastTick [] = []"
| "batch_reports prev lastTick ((now, tick, prio) # turns) =
     (let secs = report_seconds lastTick tick
      in \<lparr>brRate = real (unat (now - prev)) / secs, brPriority = PriorityName prio, brResumed = secs > 2\<rparr>
           # batch_reports now tick turns)"

section \<open>What they do\<close>

subsection \<open>Schedules are read back\<close>

fun show_schedule :: "phase list \<Rightarrow> string" where
  "show_schedule [] = []"
| "show_schedule [p] = int_to_string (phSeconds p) @ CHR '':'' # int_to_string (phPercent p)"
| "show_schedule (p # ps) = int_to_string (phSeconds p) @ CHR '':'' # int_to_string (phPercent p) @ CHR '','' # show_schedule ps"

lemma digit_plain:
  assumes "is_digit c"
  shows "\<not> c_space c" and "c \<noteq> CHR ''-''" and "c \<noteq> CHR ''+''" and "c \<noteq> CHR '':''" and "c \<noteq> CHR '',''"
  using assms by (auto simp: is_digit_def c_space_def byte_def)

lemma atoi_int_to_string:
  assumes "- (2 ^ 31) \<le> i" and "i < 2 ^ 31"
  shows "atoi (int_to_string i) = i"
proof -
  have t: "takeWhile is_digit (to_string n) = to_string n" for n
    unfolding takeWhile_eq_all_conv by (rule to_string_digits)
  have c: "clamp_int i = i" using assms by (simp add: clamp_int_def)
  show ?thesis
  proof (cases "i < 0")
    case True
    have "\<not> c_space CHR ''-''" by (simp add: c_space_def byte_def)
    then show ?thesis using True c by (simp add: atoi_def int_to_string_def Let_def t)
  next
    case False
    obtain d ds where d: "to_string (nat i) = d # ds" using to_string_nonempty [of "nat i"] by (cases "to_string (nat i)") auto
    then have dd: "is_digit d" using to_string_digits [of "nat i"] by simp
    have w: "takeWhile is_digit ds = ds" using t [of "nat i"] dd by (simp add: d)
    show ?thesis using False c digits_value_to_string [of "nat i"] digit_plain [OF dd] dd
      by (simp add: atoi_def int_to_string_def Let_def d w)
  qed
qed

lemma int_to_string_plain: "CHR '':'' \<notin> set (int_to_string i)" "CHR '','' \<notin> set (int_to_string i)"
  using to_string_digits digit_plain(4,5) by (auto simp: int_to_string_def)

definition phase_ok :: "phase \<Rightarrow> bool" where
  "phase_ok p = (- (2 ^ 31) \<le> phSeconds p \<and> phSeconds p < 2 ^ 31 \<and> - (2 ^ 31) \<le> phPercent p \<and> phPercent p < 2 ^ 31)"

definition show_phase :: "phase \<Rightarrow> string" where
  "show_phase p = int_to_string (phSeconds p) @ CHR '':'' # int_to_string (phPercent p)"

lemma item_phase_show:
  assumes "phase_ok p"
  shows "item_phase (show_phase p) = [p]"
proof -
  have c: "\<And>c. c \<in> set (int_to_string (phSeconds p)) \<Longrightarrow> c \<noteq> CHR '':''" using int_to_string_plain(1) by auto
  have "takeWhile (\<lambda>c. c \<noteq> CHR '':'') (show_phase p) = int_to_string (phSeconds p)"
    "dropWhile (\<lambda>c. c \<noteq> CHR '':'') (show_phase p) = CHR '':'' # int_to_string (phPercent p)"
    unfolding show_phase_def by (simp_all add: takeWhile_append2 [OF c] dropWhile_append2 [OF c])
  then show ?thesis using assms by (simp add: item_phase_def show_phase_def phase_ok_def atoi_int_to_string)
qed

lemma show_phase_no_comma: "CHR '','' \<notin> set (show_phase p)"
  using int_to_string_plain(2) by (simp add: show_phase_def)

lemma parse_item:
  assumes "CHR '','' \<notin> set item" and "item \<noteq> []"
  shows "ParseSchedule item = item_phase item" and "ParseSchedule (item @ CHR '','' # s) = item_phase item @ ParseSchedule s"
proof -
  obtain c cs where i: "item = c # cs" using assms(2) by (cases item) auto
  have t: "takeWhile (\<lambda>c. c \<noteq> CHR '','') item = item" using assms(1) by (auto simp: takeWhile_eq_all_conv)
  show "ParseSchedule item = item_phase item"
    using t by (simp add: i ParseSchedule.simps(2) Let_def)
  have "takeWhile (\<lambda>c. c \<noteq> CHR '','') (item @ CHR '','' # s) = item"
    using assms(1) by (subst takeWhile_append2) auto
  then show "ParseSchedule (item @ CHR '','' # s) = item_phase item @ ParseSchedule s"
    by (simp add: i ParseSchedule.simps(2) Let_def)
qed

theorem ParseSchedule_reads_back: "\<forall>p \<in> set ps. phase_ok p \<Longrightarrow> ParseSchedule (show_schedule ps) = ps"
proof (induction ps rule: show_schedule.induct)
  case (2 p)
  then show ?case using parse_item(1) [OF show_phase_no_comma, of p] item_phase_show [of p]
    by (simp add: show_phase_def)
next
  case (3 p q ps)
  have "show_schedule (p # q # ps) = show_phase p @ CHR '','' # show_schedule (q # ps)" by (simp add: show_phase_def)
  then show ?case using 3 parse_item(2) [OF show_phase_no_comma, of p "show_schedule (q # ps)"] item_phase_show [of p]
    by (simp add: show_phase_def)
qed simp

subsection \<open>How the critical simulator ends\<close>

definition schedule_seconds :: "phase list \<Rightarrow> nat" where
  "schedule_seconds ps = (\<Sum>p\<leftarrow>ps. nat (phSeconds p))"

text \<open>Whether the crash falls due in one of the next \<open>n\<close> seconds.\<close>

definition due_within :: "(nat \<Rightarrow> bool) \<Rightarrow> nat \<Rightarrow> nat \<Rightarrow> bool" where
  "due_within due k n = (\<exists>j \<in> {k<..k + n}. due j)"

lemma due_within_0 [simp]: "\<not> due_within due k 0"
  by (simp add: due_within_def)

lemma due_within_Suc: "due_within due k (Suc n) \<longleftrightarrow> due (Suc k) \<or> due_within due (Suc k) n"
proof -
  have "{k<..k + Suc n} = insert (Suc k) {Suc k<..Suc k + n}" by auto
  then show ?thesis by (simp add: due_within_def)
qed

lemma due_within_add: "due_within due k (m + n) \<longleftrightarrow> due_within due k m \<or> due_within due (k + m) n"
proof -
  have "{k<..k + (m + n)} = {k<..k + m} \<union> {k + m<..k + m + n}" by auto
  then show ?thesis unfolding due_within_def by (simp only: bex_Un)
qed

lemma due_within_pos: "due_within due k n \<Longrightarrow> 0 < n \<and> (\<exists>j > k. due j)"
  by (cases n) (auto simp: due_within_def)

lemma due_withinI: "due j \<Longrightarrow> k < j \<Longrightarrow> j \<le> k + n \<Longrightarrow> due_within due k n"
  by (auto simp: due_within_def)

lemma sleep_seconds_eq: "sleep_seconds due n k = (if due_within due k n then SlCrash else SlOn (k + n))"
  by (induction n arbitrary: k) (auto simp: due_within_Suc)

lemma run_phases_eq:
  "snd (run_phases due ps k) =
     (if due_within due k (schedule_seconds ps) then SlCrash else SlOn (k + schedule_seconds ps))"
proof (induction ps arbitrary: k)
  case (Cons p ps)
  have "schedule_seconds (p # ps) = nat (phSeconds p) + schedule_seconds ps" by (simp add: schedule_seconds_def)
  then show ?case
    by (simp add: Cons sleep_seconds_eq split_beta Let_def due_within_add add.assoc)
qed (simp add: schedule_seconds_def)

lemma repeat_turn:
  "repeat_schedule once due ps k =
     (if due_within due k (schedule_seconds ps) then Some 3
      else if once then Some 0 else repeat_schedule once due ps (k + schedule_seconds ps))"
  by (subst repeat_schedule.simps) (simp add: run_phases_eq)

lemma repeat_crashes:
  assumes "due j" and "k < j" and "0 < schedule_seconds ps"
  shows "repeat_schedule False due ps k = Some 3"
  using assms(2)
proof (induction "j - k" arbitrary: k rule: less_induct)
  case less
  show ?case
  proof (cases "due_within due k (schedule_seconds ps)")
    case True
    then show ?thesis by (subst repeat_turn) simp
  next
    case False
    then have "k + schedule_seconds ps < j" using due_withinI [where due = due, OF assms(1) less(2)] by (meson not_less)
    then have "repeat_schedule False due ps (k + schedule_seconds ps) = Some 3"
      using less(1) [of "k + schedule_seconds ps"] assms(3) by simp
    then show ?thesis using False by (subst repeat_turn) simp
  qed
qed

lemma repeat_returns:
  assumes "repeat_schedule once due ps k = Some r"
  shows "once \<or> (0 < schedule_seconds ps \<and> (\<exists>j > k. due j))"
proof (rule repeat_schedule.raw_induct [where P = "\<lambda>once due ps k r. once \<or> (0 < schedule_seconds ps \<and> (\<exists>j > k. due j))", OF _ assms])
  fix f once due ps k r
  assume IH: "\<And>once due ps k r. f once due ps k = Some r \<Longrightarrow> once \<or> (0 < schedule_seconds ps \<and> (\<exists>j > k. due j))"
    and eq: "(case snd (run_phases due ps k) of SlCrash \<Rightarrow> Some 3
      | SlOn k' \<Rightarrow> if once then Some 0 else f once due ps k') = Some r"
  show "once \<or> (0 < schedule_seconds ps \<and> (\<exists>j > k. due j))"
  proof (cases "due_within due k (schedule_seconds ps)")
    case True
    then show ?thesis using due_within_pos by blast
  next
    case False
    then have "once \<or> f once due ps (k + schedule_seconds ps) = Some r"
      using eq by (simp add: run_phases_eq split: if_splits)
    then show ?thesis using IH [of once due ps "k + schedule_seconds ps" r] by (meson add_lessD1)
  qed
qed

lemma repeat_for_ever:
  "schedule_seconds ps = 0 \<or> (\<forall>j > k. \<not> due j) \<Longrightarrow> repeat_schedule False due ps k = None"
  using repeat_returns [of False due ps k] by (cases "repeat_schedule False due ps k") auto

text \<open>
  The exit code of the critical simulator, in every case.  It is 1 when no phase or no thread is
  asked for.  With \<open>--once\<close> it is 3 when the crash falls due during a second of the schedule and 0
  otherwise.  Without, it is 3 when the crash falls due at all and a phase lasts at least a second;
  else the simulator never ends.
\<close>

theorem critical_simulator_exit:
  "critical_main tick begun args =
     (let c = critical_options args default_critical_args;
          phases = ParseSchedule (crSchedule c);
          due = crash_due (crCrashAfter c) tick begun
      in if phases = [] \<or> crThreads c < 1 then Some 1
         else if crOnce c then Some (if due_within due 0 (schedule_seconds phases) then 3 else 0)
         else if 0 < schedule_seconds phases \<and> (\<exists>j > 0. due j) then Some 3 else None)"
proof -
  define c where "c = critical_options args default_critical_args"
  define ps where "ps = ParseSchedule (crSchedule c)"
  define due where "due = crash_due (crCrashAfter c) tick begun"
  have "repeat_schedule True due ps 0 = Some (if due_within due 0 (schedule_seconds ps) then 3 else 0)"
    by (subst repeat_turn) simp
  moreover have "repeat_schedule False due ps 0 =
      (if 0 < schedule_seconds ps \<and> (\<exists>j > 0. due j) then Some 3 else None)"
  proof (cases "0 < schedule_seconds ps \<and> (\<exists>j > 0. due j)")
    case True
    then obtain j where "due j" "0 < j" by blast
    then show ?thesis using True repeat_crashes [where due = due] by simp
  next
    case False
    then have "schedule_seconds ps = 0 \<or> (\<forall>j > 0. \<not> due j)" by fastforce
    then show ?thesis using False repeat_for_ever [of ps 0 due] by simp
  qed
  ultimately show ?thesis
    unfolding critical_main_def Let_def c_def [symmetric] ps_def [symmetric] due_def [symmetric]
    by (cases "crOnce c") simp_all
qed

text \<open>The loads set are percentages, and a slice of a worker lasts at least as long as it is busy.\<close>

lemma loads_are_percentages: "\<forall>l \<in> set (fst (run_phases due ps k)). 0 \<le> l \<and> l \<le> 100"
proof (induction ps arbitrary: k)
  case (Cons p ps)
  then show ?case by (cases "sleep_seconds due (nat (phSeconds p)) k") (auto simp: phase_load_def split_beta Let_def)
qed simp

lemma worker_spin_reads:
  assumes "worker_spin start busy ts = u # us"
  shows "\<exists>t. t \<in> set ts \<and> busy \<le> t - start \<and> (\<exists>as bs. ts = as @ t # u # bs)"
  using assms
proof (induction ts)
  case (Cons t ts)
  show ?case
  proof (cases "t - start < busy")
    case True
    then obtain t' as bs where "t' \<in> set ts" "busy \<le> t' - start" "ts = as @ t' # u # bs" using Cons by auto
    then show ?thesis by (intro exI [of _ t'] conjI exI [of _ "t # as"] exI [of _ bs]) simp_all
  next
    case False
    then show ?thesis using Cons.prems by (intro exI [of _ t] conjI exI [of _ "[]"] exI [of _ us]) simp_all
  qed
qed simp

lemma worker_slice_lasts:
  assumes "sorted_wrt (\<lambda>a b. a - start \<le> b - start) ticks" and "0 \<le> load" and "load \<le> 100"
    and "worker_slice load start ticks = Some (used, slp)"
  shows "word_of_int load \<le> used" and "used < 100 \<Longrightarrow> used + slp = 100" and "100 \<le> used \<Longrightarrow> slp = 0"
proof -
  obtain u us where u: "worker_spin start (word_of_int load) ticks = u # us" "used = u - start"
      "slp = (if used < 100 then 100 - used else 0)"
    using assms(4) by (auto simp: worker_slice_def Let_def split: list.splits)
  obtain t as bs where t: "word_of_int load \<le> t - start" "ticks = as @ t # u # bs"
    using worker_spin_reads [OF u(1)] by blast
  have "t - start \<le> u - start" using assms(1) unfolding t(2) by (simp add: sorted_wrt_append)
  then show "word_of_int load \<le> used" using t(1) u(2) by simp
  show "used + slp = 100" if "used < 100" using that u(3) by simp
  show "slp = 0" if "100 \<le> used" using that u(3) by auto
qed

subsection \<open>The batch simulator's reports add up\<close>

text \<open>No work is lost or counted twice, however long the pauses were.\<close>

lemma reports_add_up:
  assumes "sorted_wrt (\<le>) (prev # map fst turns)" and "sorted_wrt (<) (lastTick # map (fst \<circ> snd) turns)"
  shows "(\<Sum>(r, s)\<leftarrow>zip (batch_reports prev lastTick turns)
      (map2 report_seconds (lastTick # map (fst \<circ> snd) turns) (map (fst \<circ> snd) turns)). brRate r * s) =
    real (unat (last (prev # map fst turns))) - real (unat prev)"
  using assms
proof (induction turns arbitrary: prev lastTick)
  case (Cons t turns)
  obtain now tick prio where t: "t = (now, tick, prio)" by (metis prod_cases3)
  have le: "prev \<le> now" "lastTick < tick" using Cons.prems by (simp_all add: t)
  have "tick \<noteq> lastTick" using le(2) by simp
  then have "report_seconds lastTick tick \<noteq> 0" by (simp add: report_seconds_def unsigned_eq_0_iff)
  moreover have "real (unat (now - prev)) = real (unat now) - real (unat prev)"
    using le(1) by (simp add: unat_sub word_le_nat_alt of_nat_diff)
  ultimately show ?case using Cons.IH [of now tick] Cons.prems
    by (simp add: t Let_def)
qed simp

lemma PriorityName_of_level:
  "PriorityName (ToWin32PriorityClass l) =
     (case l of LvIdle \<Rightarrow> ''IDLE'' | LvBelowNormal \<Rightarrow> ''BELOW_NORMAL'' | LvNormal \<Rightarrow> ''NORMAL'')"
  by (cases l) (simp_all add: PriorityName_def ToWin32PriorityClass_def priority_class_defs)

end
